(* ===== verification/Prelude.thy ===== *)
theory Prelude
  imports Main "HOL-Library.Char_ord" "HOL-Library.List_Lexorder"
    "HOL-Library.Product_Lexorder"
begin

text \<open>
  Shared vocabulary of the development: the Rust standard-library operations the
  modelled code calls (on strings, options, vectors, results, ordered maps and paths),
  with the generic lemmas the component theories share.

  A Rust string is a list of characters, each standing for one Unicode code point below
  256; its ordering is the lexicographic one, which on such strings agrees with the
  byte order Rust uses. A Rust \<open>Result\<close> is a sum with the error on the left.
\<close>

named_theorems result_iff \<open>inversion rules for results\<close>

section \<open>Results\<close>

type_synonym ('e, 'a) result = "'e + 'a"

definition rbind :: "('e, 'a) result \<Rightarrow> ('a \<Rightarrow> ('e, 'b) result) \<Rightarrow> ('e, 'b) result" where
  "rbind m f = (case m of Inl e \<Rightarrow> Inl e | Inr a \<Rightarrow> f a)"

definition ok_or :: "'e \<Rightarrow> 'a option \<Rightarrow> ('e, 'a) result" where
  "ok_or e x = (case x of None \<Rightarrow> Inl e | Some a \<Rightarrow> Inr a)"

definition ok_opt :: "('e, 'a) result \<Rightarrow> 'a option" where
  "ok_opt m = (case m of Inl _ \<Rightarrow> None | Inr a \<Rightarrow> Some a)"

definition map_err :: "('e \<Rightarrow> 'f) \<Rightarrow> ('e, 'a) result \<Rightarrow> ('f, 'a) result" where
  "map_err f m = (case m of Inl e \<Rightarrow> Inl (f e) | Inr a \<Rightarrow> Inr a)"

fun collect_results :: "('a \<Rightarrow> ('e, 'b) result) \<Rightarrow> 'a list \<Rightarrow> ('e, 'b list) result" where
  "collect_results f [] = Inr []"
| "collect_results f (x # xs) =
     (case f x of Inl e \<Rightarrow> Inl e
      | Inr y \<Rightarrow> (case collect_results f xs of Inl e \<Rightarrow> Inl e | Inr ys \<Rightarrow> Inr (y # ys)))"

lemma rbind_simps [simp]: "rbind (Inl e) f = Inl e" "rbind (Inr a) f = f a"
  by (simp_all add: rbind_def)

lemma ok_or_simps [simp]: "ok_or e None = Inl e" "ok_or e (Some a) = Inr a"
  by (simp_all add: ok_or_def)

lemma ok_opt_simps [simp]: "ok_opt (Inl e) = None" "ok_opt (Inr a) = Some a"
  by (simp_all add: ok_opt_def)

lemma map_err_simps [simp]: "map_err f (Inl e) = Inl (f e)" "map_err f (Inr a) = Inr a"
  by (simp_all add: map_err_def)

lemma rbind_eq_Inr [result_iff]: "rbind m f = Inr b \<longleftrightarrow> (\<exists>a. m = Inr a \<and> f a = Inr b)"
  by (cases m) auto

lemma rbind_eq_Inl [result_iff]:
  "rbind m f = Inl e \<longleftrightarrow> m = Inl e \<or> (\<exists>a. m = Inr a \<and> f a = Inl e)"
  by (cases m) auto

lemma ok_or_eq [result_iff]:
  "ok_or e x = Inr a \<longleftrightarrow> x = Some a" "ok_or e x = Inl e' \<longleftrightarrow> x = None \<and> e = e'"
  by (cases x; auto)+

lemma map_err_eq_Inr [result_iff]: "map_err f m = Inr a \<longleftrightarrow> m = Inr a"
  by (cases m) auto

lemma collect_results_Inr:
  "collect_results f xs = Inr ys \<longleftrightarrow> list_all2 (\<lambda>x y. f x = Inr y) xs ys"
proof (induction xs arbitrary: ys)
  case Nil
  then show ?case by auto
next
  case (Cons x xs)
  have "collect_results f (x # xs) = Inr ys \<longleftrightarrow>
      (\<exists>y zs. ys = y # zs \<and> f x = Inr y \<and> collect_results f xs = Inr zs)"
    by (auto split: sum.splits)
  then show ?case using Cons.IH by (auto simp: list_all2_Cons1)
qed

lemma collect_results_total: "(\<And>x. x \<in> set xs \<Longrightarrow> f x = Inr (g x)) \<Longrightarrow> collect_results f xs = Inr (map g xs)"
  by (induction xs) auto

section \<open>Options and vectors\<close>

text \<open>\<open>opt_or\<close> is \<open>Option::or\<close>, \<open>opt_filter\<close> is \<open>Option::filter\<close>, \<open>opt_unwrap_or\<close> is
  \<open>Option::unwrap_or\<close> and \<open>nth_opt\<close> is \<open>slice::get\<close>.\<close>

definition opt_or :: "'a option \<Rightarrow> 'a option \<Rightarrow> 'a option" where
  "opt_or x y = (case x of None \<Rightarrow> y | Some a \<Rightarrow> Some a)"

definition opt_filter :: "('a \<Rightarrow> bool) \<Rightarrow> 'a option \<Rightarrow> 'a option" where
  "opt_filter p x = (case x of None \<Rightarrow> None | Some a \<Rightarrow> if p a then Some a else None)"

definition opt_unwrap_or :: "'a option \<Rightarrow> 'a \<Rightarrow> 'a" where
  "opt_unwrap_or x d = (case x of None \<Rightarrow> d | Some a \<Rightarrow> a)"

definition nth_opt :: "'a list \<Rightarrow> nat \<Rightarrow> 'a option" where
  "nth_opt xs i = (if i < length xs then Some (xs ! i) else None)"

lemma opt_or_simps [simp]: "opt_or None y = y" "opt_or (Some a) y = Some a" "opt_or x None = x"
  by (simp_all add: opt_or_def split: option.split)

lemma opt_or_eq_None [simp]: "opt_or x y = None \<longleftrightarrow> x = None \<and> y = None"
  by (cases x) auto

lemma opt_filter_simps [simp]:
  "opt_filter p None = None" "opt_filter p (Some a) = (if p a then Some a else None)"
  by (simp_all add: opt_filter_def)

lemma opt_filter_eq_Some [simp]: "opt_filter p x = Some a \<longleftrightarrow> x = Some a \<and> p a"
  by (cases x) auto

lemma opt_unwrap_or_simps [simp]: "opt_unwrap_or None d = d" "opt_unwrap_or (Some a) d = a"
  by (simp_all add: opt_unwrap_or_def)

lemma nth_opt_Some [simp]: "nth_opt xs i = Some x \<longleftrightarrow> i < length xs \<and> xs ! i = x"
  by (auto simp: nth_opt_def)

lemma nth_opt_None [simp]: "nth_opt xs i = None \<longleftrightarrow> length xs \<le> i"
  by (auto simp: nth_opt_def)

lemma nth_opt_simps [simp]:
  "nth_opt [] i = None" "nth_opt (x # xs) 0 = Some x"
  "nth_opt (x # xs) (Suc i) = nth_opt xs i"
  by (auto simp: nth_opt_def)

lemma find_Some_in: "List.find p xs = Some x \<Longrightarrow> x \<in> set xs \<and> p x"
  by (induction xs) (auto split: if_splits)

lemma find_append:
  "List.find p (xs @ ys) = (case List.find p xs of None \<Rightarrow> List.find p ys | Some x \<Rightarrow> Some x)"
  by (induction xs) auto

lemma find_sorted_least:
  assumes "sorted (map key xs)" and "List.find p xs = Some x" and "y \<in> set xs" and "p y"
  shows "key x \<le> key y"
  using assms by (induction xs) (auto split: if_splits)

section \<open>Strings\<close>

definition nl_char :: char where "nl_char = CHR 0x0A"
definition cr_char :: char where "cr_char = CHR 0x0D"

text \<open>The code points below 256 with the Unicode \<open>White_Space\<close> property.\<close>

definition is_whitespace :: "char \<Rightarrow> bool" where
  "is_whitespace c \<longleftrightarrow> (let n = (of_char c :: nat) in 9 \<le> n \<and> n \<le> 13 \<or> n = 32 \<or> n = 133 \<or> n = 160)"

definition trim_start :: "string \<Rightarrow> string" where
  "trim_start s = dropWhile is_whitespace s"

definition trim_end :: "string \<Rightarrow> string" where
  "trim_end s = rev (dropWhile is_whitespace (rev s))"

definition trim :: "string \<Rightarrow> string" where
  "trim s = trim_end (trim_start s)"

text \<open>\<open>trim_start_matches\<close> and \<open>trim_end_matches\<close> with a character pattern.\<close>

definition trim_start_matches :: "char \<Rightarrow> string \<Rightarrow> string" where
  "trim_start_matches c s = dropWhile (\<lambda>x. x = c) s"

definition trim_end_matches :: "char \<Rightarrow> string \<Rightarrow> string" where
  "trim_end_matches c s = rev (dropWhile (\<lambda>x. x = c) (rev s))"

fun split_on :: "char \<Rightarrow> string \<Rightarrow> string list" where
  "split_on d [] = [[]]"
| "split_on d (c # cs) =
     (if c = d then [] # split_on d cs
      else (case split_on d cs of [] \<Rightarrow> [[c]] | w # ws \<Rightarrow> (c # w) # ws))"

fun join :: "string \<Rightarrow> string list \<Rightarrow> string" where
  "join sep [] = []"
| "join sep [x] = x"
| "join sep (x # y # xs) = x @ sep @ join sep (y # xs)"

text \<open>\<open>splitn(2, d)\<close>: the part before the first \<open>d\<close> and, if there is one, the rest.\<close>

definition splitn2 :: "char \<Rightarrow> string \<Rightarrow> string \<times> string option" where
  "splitn2 d s = (takeWhile (\<lambda>c. c \<noteq> d) s,
     if d \<in> set s then Some (tl (dropWhile (\<lambda>c. c \<noteq> d) s)) else None)"

definition starts_with :: "string \<Rightarrow> string \<Rightarrow> bool" where
  "starts_with p s \<longleftrightarrow> take (length p) s = p"

definition ends_with :: "string \<Rightarrow> string \<Rightarrow> bool" where
  "ends_with p s \<longleftrightarrow> starts_with (rev p) (rev s)"

definition strip_prefix :: "string \<Rightarrow> string \<Rightarrow> string option" where
  "strip_prefix p s = (if starts_with p s then Some (drop (length p) s) else None)"

definition strip_suffix :: "string \<Rightarrow> string \<Rightarrow> string option" where
  "strip_suffix p s = (if ends_with p s then Some (take (length s - length p) s) else None)"

fun contains_str :: "string \<Rightarrow> string \<Rightarrow> bool" where
  "contains_str p [] = (p = [])"
| "contains_str p (c # cs) = (starts_with p (c # cs) \<or> contains_str p cs)"

text \<open>\<open>str::lines\<close>: split at line feeds, drop the empty remainder after a final one and
  one carriage return before each line feed.\<close>

definition strip_cr :: "string \<Rightarrow> string" where
  "strip_cr s = (if s \<noteq> [] \<and> last s = cr_char then butlast s else s)"

definition lines :: "string \<Rightarrow> string list" where
  "lines s = (let ps = split_on nl_char s
     in map strip_cr (butlast ps) @ (if last ps = [] then [] else [last ps]))"

definition ascii_lower :: "char \<Rightarrow> char" where
  "ascii_lower c = (let n = (of_char c :: nat) in if 65 \<le> n \<and> n \<le> 90 then char_of (n + 32) else c)"

definition to_ascii_lowercase :: "string \<Rightarrow> string" where
  "to_ascii_lowercase s = map ascii_lower s"

definition eq_ignore_ascii_case :: "string \<Rightarrow> string \<Rightarrow> bool" where
  "eq_ignore_ascii_case a b \<longleftrightarrow> to_ascii_lowercase a = to_ascii_lowercase b"

text \<open>Decimal rendering, as \<open>Display\<close> does for integers.\<close>

definition digit_char :: "nat \<Rightarrow> char" where
  "digit_char n = char_of (48 + n)"

fun show_nat :: "nat \<Rightarrow> string" where
  "show_nat n = (if n < 10 then [digit_char n] else show_nat (n div 10) @ [digit_char (n mod 10)])"

declare show_nat.simps [simp del]

definition show_int :: "int \<Rightarrow> string" where
  "show_int i = (if i < 0 then ''-'' @ show_nat (nat (- i)) else show_nat (nat i))"

subsection \<open>Trimming\<close>

lemma trim_Nil [simp]: "trim [] = []"
  by (simp add: trim_def trim_start_def trim_end_def)

lemma dropWhile_hd_id: "xs = [] \<or> \<not> p (hd xs) \<Longrightarrow> dropWhile p xs = xs"
  by (cases xs) auto

text \<open>A string is trimmed when it neither starts nor ends with white space.\<close>

definition trimmed :: "string \<Rightarrow> bool" where
  "trimmed s \<longleftrightarrow> s = [] \<or> \<not> is_whitespace (hd s) \<and> \<not> is_whitespace (last s)"

lemma trim_id [simp]: "trimmed s \<Longrightarrow> trim s = s"
  by (auto simp: trimmed_def trim_def trim_start_def trim_end_def dropWhile_hd_id hd_rev)

lemma trimmed_trim [simp]: "trimmed (trim s)"
proof -
  let ?t = "dropWhile is_whitespace s" and ?u = "rev (dropWhile is_whitespace (rev (dropWhile is_whitespace s)))"
  have u: "trim s = ?u" by (simp add: trim_def trim_start_def trim_end_def)
  show ?thesis
  proof (cases "?u = []")
    case True
    then show ?thesis by (simp only: u trimmed_def) simp
  next
    case False
    obtain w where w: "?t = ?u @ w"
      by (metis takeWhile_dropWhile_id rev_append rev_rev_ident)
    have "?t \<noteq> []"
    proof
      assume "?t = []"
      then have "?u = []" by (simp only: rev.simps dropWhile.simps)
      then show False using False by blast
    qed
    then have "\<not> is_whitespace (hd ?t)" by (rule hd_dropWhile)
    moreover have "hd ?t = hd ?u" using False w by (metis hd_append2)
    ultimately have h: "\<not> is_whitespace (hd ?u)" by metis
    have ne: "dropWhile is_whitespace (rev ?t) \<noteq> []"
    proof
      assume "dropWhile is_whitespace (rev ?t) = []"
      then have "?u = []" by (simp only: rev.simps)
      then show False using False by blast
    qed
    then have "\<not> is_whitespace (hd (dropWhile is_whitespace (rev ?t)))"
      by (rule hd_dropWhile)
    then have "\<not> is_whitespace (last ?u)" using ne by (metis last_rev)
    with h show ?thesis unfolding u trimmed_def by blast
  qed
qed

lemma trim_trim [simp]: "trim (trim s) = trim s"
  by simp

lemma set_trim: "set (trim s) \<subseteq> set s"
  by (auto simp: trim_def trim_start_def trim_end_def dest!: set_dropWhileD)

subsection \<open>Splitting and joining\<close>

lemma split_on_not_Nil [simp]: "split_on d s \<noteq> []"
  by (induction s) (auto split: list.splits)

lemma split_on_no_sep: "w \<in> set (split_on d s) \<Longrightarrow> d \<notin> set w"
proof (induction s arbitrary: w)
  case Nil
  then show ?case by simp
next
  case (Cons c cs)
  then show ?case by (cases "split_on d cs") (auto split: if_splits)
qed

lemma split_on_subset: "w \<in> set (split_on d s) \<Longrightarrow> set w \<subseteq> set s"
proof (induction s arbitrary: w)
  case Nil
  then show ?case by simp
next
  case (Cons c cs)
  then show ?case by (cases "split_on d cs") (fastforce split: if_splits)+
qed

lemma split_on_notin [simp]: "d \<notin> set s \<Longrightarrow> split_on d s = [s]"
  by (induction s) auto

lemma split_on_append: "d \<notin> set w \<Longrightarrow> split_on d (w @ d # s) = w # split_on d s"
  by (induction w) auto

lemma split_on_snoc: "split_on d (a @ d # b) = split_on d a @ split_on d b"
proof (induction a)
  case Nil
  then show ?case by simp
next
  case (Cons c cs)
  then show ?case by (cases "split_on d cs") auto
qed

lemma split_on_join:
  "ws \<noteq> [] \<Longrightarrow> (\<And>w. w \<in> set ws \<Longrightarrow> d \<notin> set w) \<Longrightarrow> split_on d (join [d] ws) = ws"
  by (induction "[d]" ws rule: join.induct) (auto simp: split_on_append)

lemma join_Cons: "xs \<noteq> [] \<Longrightarrow> join sep (x # xs) = x @ sep @ join sep xs"
  by (cases xs) auto

lemma join_append:
  "xs \<noteq> [] \<Longrightarrow> ys \<noteq> [] \<Longrightarrow> join sep (xs @ ys) = join sep xs @ sep @ join sep ys"
  by (induction sep xs rule: join.induct) (auto simp: join_Cons)

lemma join_split_on [simp]: "join [d] (split_on d s) = s"
proof (induction s)
  case Nil
  then show ?case by simp
next
  case (Cons c cs)
  show ?case
  proof (cases "split_on d cs")
    case Nil
    then show ?thesis by simp
  next
    case (Cons w ws)
    with Cons.IH show ?thesis by (cases ws) (auto simp: join_Cons)
  qed
qed

lemma set_join_segments: "w \<in> set ws \<Longrightarrow> set w \<subseteq> set (join sep ws)"
  by (induction sep ws rule: join.induct) auto

subsection \<open>Prefixes\<close>

lemma starts_with_append [simp]: "starts_with p (p @ s)"
  by (simp add: starts_with_def)

lemma starts_with_iff: "starts_with p s \<longleftrightarrow> (\<exists>t. s = p @ t)"
  by (metis starts_with_def append_take_drop_id append_eq_conv_conj)

lemma strip_prefix_append [simp]: "strip_prefix p (p @ s) = Some s"
  by (simp add: strip_prefix_def)

lemma strip_prefix_Some: "strip_prefix p s = Some t \<longleftrightarrow> s = p @ t"
  by (auto simp: strip_prefix_def starts_with_iff)

section \<open>Paths\<close>

text \<open>
  A Unix path is its string, and \<open>path_join\<close> is \<open>Path::join\<close>: an absolute argument
  replaces the base, otherwise a separator is inserted where the base has none at its end.
\<close>

type_synonym path = string

definition path_join :: "path \<Rightarrow> string \<Rightarrow> path" where
  "path_join base s =
     (if starts_with ''/'' s then s
      else if base = [] \<or> last base = CHR ''/'' then base @ s
      else base @ ''/'' @ s)"

text \<open>\<open>Path::components\<close>: empty segments and inner \<open>.\<close> segments disappear.\<close>

datatype path_component = RootDir | CurDir | ParentDir | Normal string

definition segment_component :: "string \<Rightarrow> path_component" where
  "segment_component s = (if s = ''..'' then ParentDir else Normal s)"

definition path_components :: "path \<Rightarrow> path_component list" where
  "path_components p =
     (let segs = split_on (CHR ''/'') p
      in (if starts_with ''/'' p then [RootDir] else if hd segs = ''.'' then [CurDir] else [])
         @ map segment_component (filter (\<lambda>s. s \<noteq> [] \<and> s \<noteq> ''.'') segs))"

text \<open>Paths are compared by their components, in the order of \<open>std::path::Component\<close>.\<close>

fun component_key :: "path_component \<Rightarrow> nat \<times> string" where
  "component_key RootDir = (0, [])"
| "component_key CurDir = (1, [])"
| "component_key ParentDir = (2, [])"
| "component_key (Normal s) = (3, s)"

lemma component_key_inj: "component_key x = component_key y \<Longrightarrow> x = y"
  by (cases x; cases y) simp_all

instantiation path_component :: linorder
begin

definition less_eq_path_component :: "path_component \<Rightarrow> path_component \<Rightarrow> bool" where
  "x \<le> y \<longleftrightarrow> component_key x \<le> component_key y"

definition less_path_component :: "path_component \<Rightarrow> path_component \<Rightarrow> bool" where
  "x < y \<longleftrightarrow> component_key x < component_key y"

instance
  by intro_classes (auto simp: less_eq_path_component_def less_path_component_def intro: component_key_inj)

end

definition file_name :: "path \<Rightarrow> string option" where
  "file_name p =
     (let cs = path_components p
      in if cs = [] then None
         else (case last cs of Normal s \<Rightarrow> Some s | _ \<Rightarrow> None))"

text \<open>The file name split at its last dot; a name whose only dot is the first
  character has no extension.\<close>

definition split_last_dot :: "string \<Rightarrow> string \<times> string option" where
  "split_last_dot s =
     (let after = rev (takeWhile (\<lambda>c. c \<noteq> CHR ''.'') (rev s));
          before = take (length s - length after - 1) s
      in if CHR ''.'' \<notin> set s \<or> before = [] then (s, None) else (before, Some after))"

definition file_stem :: "path \<Rightarrow> string option" where
  "file_stem p = map_option (\<lambda>n. fst (split_last_dot n)) (file_name p)"

definition extension :: "path \<Rightarrow> string option" where
  "extension p = (case file_name p of None \<Rightarrow> None | Some n \<Rightarrow> snd (split_last_dot n))"

text \<open>A plain segment: a nonempty file name that holds no separator.\<close>

definition plain_segment :: "string \<Rightarrow> bool" where
  "plain_segment s \<longleftrightarrow> s \<noteq> [] \<and> CHR ''/'' \<notin> set s"

definition open_base :: "path \<Rightarrow> bool" where
  "open_base p \<longleftrightarrow> p \<noteq> [] \<and> last p \<noteq> CHR ''/''"

lemma path_join_plain:
  "open_base p \<Longrightarrow> plain_segment s \<Longrightarrow> path_join p s = p @ ''/'' @ s"
  by (cases s) (auto simp: path_join_def open_base_def plain_segment_def starts_with_def)

lemma open_base_join: "open_base p \<Longrightarrow> plain_segment s \<Longrightarrow> open_base (path_join p s)"
  by (auto simp: path_join_plain plain_segment_def open_base_def dest: last_in_set)

subsection \<open>The file a path names\<close>

text \<open>
  A path leads to a file by a list of names from the root, which is also the working directory, without symbolic
  links: \<open>.\<close> and repeated separators stand for nothing, \<open>..\<close> goes back. Files are maps from such lists, so
  that two spellings of a path are one file.
\<close>

definition resolve_path :: "path \<Rightarrow> string list" where
  "resolve_path p = foldl (\<lambda>acc c. case c of
       RootDir \<Rightarrow> [] | CurDir \<Rightarrow> acc | ParentDir \<Rightarrow> butlast acc | Normal s \<Rightarrow> acc @ [s]) [] (path_components p)"

definition plain_name :: "string \<Rightarrow> bool" where
  "plain_name s \<longleftrightarrow> plain_segment s \<and> s \<noteq> ''.'' \<and> s \<noteq> ''..''"

lemma resolve_snoc:
  assumes "plain_name s"
  shows "resolve_path (path_join p s) = resolve_path p @ [s]"
proof -
  let ?f = "\<lambda>s. s \<noteq> [] \<and> s \<noteq> ''.''"
  have ns: "split_on (CHR ''/'') s = [s]" "?f s" "segment_component s = Normal s" "\<not> starts_with ''/'' s"
    using assms by (auto simp: plain_name_def plain_segment_def segment_component_def starts_with_def neq_Nil_conv)
  consider (none) "p = []" | (closed) q where "p = q @ ''/''" | (opened) "p \<noteq> []" "last p \<noteq> CHR ''/''"
    by (metis append_butlast_last_id)
  then have "path_components (path_join p s) = path_components p @ [Normal s]"
  proof cases
    case none
    then show ?thesis using ns by (auto simp: path_components_def path_join_def starts_with_def)
  next
    case closed
    have st: "starts_with ''/'' (q @ CHR ''/'' # s) = starts_with ''/'' (q @ ''/'')"
      by (cases q) (auto simp: starts_with_def)
    have hd: "hd (split_on (CHR ''/'') q @ t) = hd (split_on (CHR ''/'') q)" for t by simp
    have "path_join p s = q @ CHR ''/'' # s" using closed ns(4) by (simp add: path_join_def)
    then show ?thesis
      using ns closed split_on_snoc [of "CHR ''/''" q "[]"]
      by (simp add: path_components_def split_on_snoc st hd)
  next
    case opened
    have j: "path_join p s = p @ CHR ''/'' # s" using opened ns(4) by (simp add: path_join_def)
    have st: "starts_with ''/'' (p @ CHR ''/'' # s) = starts_with ''/'' p"
      using opened by (cases p) (auto simp: starts_with_def)
    have hd: "hd (split_on (CHR ''/'') p @ [s]) = hd (split_on (CHR ''/'') p)" by simp
    show ?thesis unfolding path_components_def Let_def j st split_on_snoc ns(1) hd using ns(2,3) by simp
  qed
  then show ?thesis by (simp add: resolve_path_def)
qed

lemma suffixed_name: "CHR ''/'' \<notin> set s \<Longrightarrow> CHR ''/'' \<notin> set e \<Longrightarrow> 2 < length e \<Longrightarrow> plain_name (s @ e)"
  by (auto simp: plain_name_def plain_segment_def dest: arg_cong [where f = length])

lemma sep_append_eq_iff:
  "d \<notin> set xs \<Longrightarrow> d \<notin> set ys \<Longrightarrow> xs @ d # zs = ys @ d # ws \<longleftrightarrow> xs = ys \<and> zs = ws"
proof (induction xs arbitrary: ys)
  case Nil
  then show ?case by (cases ys) auto
next
  case (Cons x xs)
  then show ?case by (cases ys) auto
qed

lemma path_join_inj:
  assumes "open_base p" "open_base q" "plain_segment s" "plain_segment t"
    and eq: "path_join p s = path_join q t"
  shows "p = q \<and> s = t"
proof -
  have "rev (p @ ''/'' @ s) = rev (q @ ''/'' @ t)"
    using assms by (simp add: path_join_plain)
  then have r: "rev s @ CHR ''/'' # rev p = rev t @ CHR ''/'' # rev q"
    by simp
  have "CHR ''/'' \<notin> set (rev s)" "CHR ''/'' \<notin> set (rev t)"
    using assms by (simp_all add: plain_segment_def)
  from sep_append_eq_iff [OF this] r show ?thesis by simp
qed

end
