(* ===== verification/OrdMap.thy ===== *)
theory OrdMap
  imports Prelude
begin

text \<open>
  \<open>BTreeMap\<close>: a sorted association list without duplicate keys. The interface the
  components rely on is the locale \<open>key_map\<close> (lookup, insertion and the entries a
  traversal sees), extended by \<open>ordered_key_map\<close> with the traversal order; both are
  interpreted on the association lists.
\<close>

type_synonym ('k, 'v) btree = "('k \<times> 'v) list"

definition bt_wf :: "('k::linorder, 'v) btree \<Rightarrow> bool" where
  "bt_wf m \<longleftrightarrow> sorted_wrt (<) (map fst m)"

fun bt_insert :: "'k::linorder \<Rightarrow> 'v \<Rightarrow> ('k, 'v) btree \<Rightarrow> ('k, 'v) btree" where
  "bt_insert k v [] = [(k, v)]"
| "bt_insert k v ((a, b) # m) =
     (if k < a then (k, v) # (a, b) # m
      else if k = a then (k, v) # m
      else (a, b) # bt_insert k v m)"

definition bt_get :: "('k, 'v) btree \<Rightarrow> 'k \<Rightarrow> 'v option" where
  "bt_get m k = map_of m k"

definition bt_values :: "('k, 'v) btree \<Rightarrow> 'v list" where
  "bt_values m = map snd m"

text \<open>The \<open>entry\<close> idioms: \<open>or_insert\<close>, counting, and pushing on a vector.\<close>

definition bt_or_insert :: "'k::linorder \<Rightarrow> 'v \<Rightarrow> ('k, 'v) btree \<Rightarrow> ('k, 'v) btree" where
  "bt_or_insert k v m = (if bt_get m k = None then bt_insert k v m else m)"

definition bt_count :: "'k::linorder \<Rightarrow> ('k, nat) btree \<Rightarrow> ('k, nat) btree" where
  "bt_count k m = bt_insert k (opt_unwrap_or (bt_get m k) 0 + 1) m"

definition bt_push :: "'k::linorder \<Rightarrow> 'v \<Rightarrow> ('k, 'v list) btree \<Rightarrow> ('k, 'v list) btree" where
  "bt_push k v m = bt_insert k (opt_unwrap_or (bt_get m k) [] @ [v]) m"

section \<open>The map interface\<close>

locale key_map =
  fixes empty :: "'m"
    and put :: "'k \<Rightarrow> 'v \<Rightarrow> 'm \<Rightarrow> 'm"
    and get :: "'m \<Rightarrow> 'k \<Rightarrow> 'v option"
    and entries :: "'m \<Rightarrow> ('k \<times> 'v) list"
    and wf :: "'m \<Rightarrow> bool"
  assumes get_empty: "get empty k = None"
    and get_put: "wf m \<Longrightarrow> get (put k v m) k' = (if k' = k then Some v else get m k')"
    and wf_empty: "wf empty"
    and wf_put: "wf m \<Longrightarrow> wf (put k v m)"
    and entries_get: "wf m \<Longrightarrow> (k, v) \<in> set (entries m) \<longleftrightarrow> get m k = Some v"
    and entries_distinct: "wf m \<Longrightarrow> distinct (map fst (entries m))"
begin

lemma get_put_same: "wf m \<Longrightarrow> get (put k v m) k = Some v"
  by (simp add: get_put)

lemma get_put_other: "wf m \<Longrightarrow> k' \<noteq> k \<Longrightarrow> get (put k v m) k' = get m k'"
  by (simp add: get_put)

lemma wf_fold_put: "wf m \<Longrightarrow> wf (fold (\<lambda>x. put (kf x) (vf x)) xs m)"
  by (induction xs arbitrary: m) (simp_all add: wf_put)

lemma get_fold_put:
  "wf m \<Longrightarrow> get (fold (\<lambda>x. put (kf x) (vf x)) xs m) k =
     (case List.find (\<lambda>x. kf x = k) (rev xs) of None \<Rightarrow> get m k | Some x \<Rightarrow> Some (vf x))"
proof (induction xs arbitrary: m)
  case Nil
  then show ?case by simp
next
  case (Cons x xs)
  have "List.find (\<lambda>x. kf x = k) (rev xs @ [x]) =
     (case List.find (\<lambda>x. kf x = k) (rev xs) of
        None \<Rightarrow> if kf x = k then Some x else None | Some y \<Rightarrow> Some y)"
    by (simp add: find_append split: option.split)
  then show ?case
    using Cons by (auto simp: wf_put get_put split: option.splits)
qed

lemma entries_put:
  "wf m \<Longrightarrow> set (entries (put k v m)) = {(k, v)} \<union> {(k', v'). (k', v') \<in> set (entries m) \<and> k' \<noteq> k}"
  by (auto simp: entries_get get_put wf_put split: if_splits)

lemma entries_values: "wf m \<Longrightarrow> v \<in> snd ` set (entries m) \<longleftrightarrow> (\<exists>k. get m k = Some v)"
proof -
  have "v \<in> snd ` set (entries m) \<longleftrightarrow> (\<exists>k. (k, v) \<in> set (entries m))" by force
  then show "wf m \<Longrightarrow> ?thesis" by (simp add: entries_get)
qed

end

locale ordered_key_map = key_map empty put get entries wf
  for empty :: "'m" and put :: "'k::linorder \<Rightarrow> 'v \<Rightarrow> 'm \<Rightarrow> 'm"
    and get :: "'m \<Rightarrow> 'k \<Rightarrow> 'v option" and entries :: "'m \<Rightarrow> ('k \<times> 'v) list"
    and wf :: "'m \<Rightarrow> bool" +
  assumes entries_ordered: "wf m \<Longrightarrow> sorted (map fst (entries m))"
begin

text \<open>A traversal is determined by what lookup answers.\<close>

lemma entries_determined:
  assumes "wf m" "wf m'" and "\<And>k. get m k = get m' k"
  shows "entries m = entries m'"
proof -
  have s: "set (entries m) = set (entries m')"
    using assms by (auto simp: entries_get)
  have d: "distinct (map fst (entries m))" "distinct (map fst (entries m'))"
    using assms by (auto intro: entries_distinct)
  have "inj_on fst (set (entries m) \<union> set (entries m'))"
    using d(1) by (simp add: s distinct_map)
  then show ?thesis
    using entries_ordered [OF assms(1)] entries_ordered [OF assms(2)] d s
    by (intro map_sorted_distinct_set_unique [where f = fst])
qed

end

section \<open>Association lists implement it\<close>

lemma bt_insert_keys: "fst ` set (bt_insert k v m) = insert k (fst ` set m)"
  by (induction k v m rule: bt_insert.induct) (simp_all add: insert_commute)

lemma bt_wf_Nil [simp]: "bt_wf []"
  by (simp add: bt_wf_def)

lemma bt_wf_Cons [simp]: "bt_wf ((a, b) # m) \<longleftrightarrow> (\<forall>k \<in> fst ` set m. a < k) \<and> bt_wf m"
  by (simp add: bt_wf_def)

lemma bt_wf_insert [simp]: "bt_wf m \<Longrightarrow> bt_wf (bt_insert k v m)"
  by (induction m) (force simp: bt_insert_keys not_less_iff_gr_or_eq intro: less_trans)+

lemma bt_get_None: "bt_get m k = None \<longleftrightarrow> k \<notin> fst ` set m"
  by (simp add: bt_get_def map_of_eq_None_iff)

lemma bt_get_insert:
  "bt_wf m \<Longrightarrow> bt_get (bt_insert k v m) k' = (if k' = k then Some v else bt_get m k')"
  by (induction m) (auto simp: bt_get_def map_of_eq_None_iff)

lemma bt_distinct: "bt_wf m \<Longrightarrow> distinct (map fst m)"
  by (simp add: bt_wf_def strict_sorted_iff)

interpretation bt: ordered_key_map "[]" bt_insert bt_get "\<lambda>m. m" bt_wf
proof unfold_locales
  show "bt_get [] k = None" for k :: 'a by (simp add: bt_get_def)
  show "(k, v) \<in> set m \<longleftrightarrow> bt_get m k = Some v" if "bt_wf m" for m :: "('a \<times> 'b) list" and k v
    using bt_distinct [OF that] by (simp add: bt_get_def)
  show "sorted (map fst m)" if "bt_wf m" for m :: "('a \<times> 'b) list"
    using that by (simp add: bt_wf_def strict_sorted_iff)
qed (auto simp: bt_get_insert bt_distinct)

lemmas bt_map_simps = bt.get_empty bt_get_insert bt_wf_insert

lemma bt_wf_push [simp]: "bt_wf m \<Longrightarrow> bt_wf (bt_push k v m)"
  by (simp add: bt_push_def)

lemma bt_get_push:
  "bt_wf m \<Longrightarrow> bt_get (bt_push k v m) k' =
     (if k' = k then Some (opt_unwrap_or (bt_get m k) [] @ [v]) else bt_get m k')"
  by (simp add: bt_push_def bt_get_insert)

text \<open>Pushing a sequence of values groups them by key, in their order.\<close>

lemma bt_get_fold_push:
  "bt_wf m \<Longrightarrow> opt_unwrap_or (bt_get (fold (\<lambda>x. bt_push (kf x) (vf x)) xs m) k) [] =
     opt_unwrap_or (bt_get m k) [] @ map vf (filter (\<lambda>x. kf x = k) xs)"
  by (induction xs arbitrary: m) (auto simp: bt_get_push)

lemma bt_wf_fold_push [simp]: "bt_wf m \<Longrightarrow> bt_wf (fold (\<lambda>x. bt_push (kf x) (vf x)) xs m)"
  by (induction xs arbitrary: m) auto

lemma bt_wf_fold_count [simp]: "bt_wf m \<Longrightarrow> bt_wf (fold (\<lambda>x. bt_count (kf x)) xs m)"
  by (induction xs arbitrary: m) (auto simp: bt_count_def)

text \<open>Counting a sequence of keys.\<close>

lemma bt_get_fold_count:
  "bt_wf m \<Longrightarrow> opt_unwrap_or (bt_get (fold (\<lambda>x. bt_count (kf x)) xs m) k) 0 =
     opt_unwrap_or (bt_get m k) 0 + length (filter (\<lambda>x. kf x = k) xs)"
  by (induction xs arbitrary: m) (auto simp: bt_count_def bt_get_insert)

end
