(* ===== verification/Json.thy ===== *)
theory Json
  imports Prelude
begin

text \<open>
  \<open>serde_json::Value\<close> and \<open>serde_cbor::Value\<close> with the accessors the modelled code
  calls. A JSON integer is one that serde keeps as \<open>u64\<close> or \<open>i64\<close>; other numbers are
  kept as their source text and are never inspected. Objects are association lists.
\<close>

datatype json =
    JNull
  | JBool bool
  | JInt int
  | JFloat string
  | JStr string
  | JArr "json list"
  | JObj "(string \<times> json) list"

definition json_get :: "json \<Rightarrow> string \<Rightarrow> json option" where
  "json_get v k = (case v of JObj kvs \<Rightarrow> map_of kvs k | _ \<Rightarrow> None)"

definition as_str :: "json \<Rightarrow> string option" where
  "as_str v = (case v of JStr s \<Rightarrow> Some s | _ \<Rightarrow> None)"

definition as_array :: "json \<Rightarrow> json list option" where
  "as_array v = (case v of JArr xs \<Rightarrow> Some xs | _ \<Rightarrow> None)"

definition as_object :: "json \<Rightarrow> (string \<times> json) list option" where
  "as_object v = (case v of JObj kvs \<Rightarrow> Some kvs | _ \<Rightarrow> None)"

definition as_bool :: "json \<Rightarrow> bool option" where
  "as_bool v = (case v of JBool b \<Rightarrow> Some b | _ \<Rightarrow> None)"

definition as_u64 :: "json \<Rightarrow> nat option" where
  "as_u64 v = (case v of JInt i \<Rightarrow> if 0 \<le> i \<and> i < 2 ^ 64 then Some (nat i) else None | _ \<Rightarrow> None)"

definition as_i64 :: "json \<Rightarrow> int option" where
  "as_i64 v = (case v of JInt i \<Rightarrow> if - (2 ^ 63) \<le> i \<and> i < 2 ^ 63 then Some i else None | _ \<Rightarrow> None)"

definition is_null :: "json \<Rightarrow> bool" where
  "is_null v \<longleftrightarrow> v = JNull"

definition opt_str :: "string option \<Rightarrow> json" where
  "opt_str x = (case x of None \<Rightarrow> JNull | Some s \<Rightarrow> JStr s)"

lemmas json_access_defs = json_get_def as_str_def as_array_def as_object_def as_bool_def
  as_u64_def as_i64_def

lemma as_str_eq [simp]: "as_str v = Some s \<longleftrightarrow> v = JStr s"
  by (cases v) (auto simp: as_str_def)

lemma as_array_eq [simp]: "as_array v = Some xs \<longleftrightarrow> v = JArr xs"
  by (cases v) (auto simp: as_array_def)

lemma as_object_eq [simp]: "as_object v = Some kvs \<longleftrightarrow> v = JObj kvs"
  by (cases v) (auto simp: as_object_def)

lemma as_u64_bound: "as_u64 v = Some n \<Longrightarrow> n < 2 ^ 64"
  by (auto simp: as_u64_def split: json.splits if_splits)

lemma json_get_size: "json_get v k = Some w \<Longrightarrow> size w < size v"
  by (cases v) (fastforce simp: json_get_def dest!: map_of_SomeD intro: size_list_estimation' le_imp_less_Suc)+

lemma json_get_Obj [simp]: "json_get (JObj kvs) k = map_of kvs k"
  by (simp add: json_get_def)

section \<open>JSON pointers\<close>

text \<open>\<open>Value::pointer\<close> (RFC 6901): \<open>~1\<close> and then \<open>~0\<close> are unescaped in each token.\<close>

fun replace2 :: "char \<Rightarrow> char \<Rightarrow> char \<Rightarrow> string \<Rightarrow> string" where
  "replace2 a b r (x # y # s) =
     (if x = a \<and> y = b then r # replace2 a b r s else x # replace2 a b r (y # s))"
| "replace2 a b r s = s"

definition unescape_token :: "string \<Rightarrow> string" where
  "unescape_token t = replace2 (CHR ''~'') (CHR ''0'') (CHR ''~'')
     (replace2 (CHR ''~'') (CHR ''1'') (CHR ''/'') t)"

definition is_digit_char :: "char \<Rightarrow> bool" where
  "is_digit_char c \<longleftrightarrow> (let n = (of_char c :: nat) in 48 \<le> n \<and> n \<le> 57)"

definition parse_index :: "string \<Rightarrow> nat option" where
  "parse_index t =
     (if t = [] \<or> \<not> list_all is_digit_char t \<or> (hd t = CHR ''0'' \<and> length t \<noteq> 1) then None
      else let n = foldl (\<lambda>acc c. 10 * acc + (of_char c - 48)) 0 t
           in if n < 2 ^ 64 then Some n else None)"

definition pointer_step :: "json \<Rightarrow> string \<Rightarrow> json option" where
  "pointer_step v t =
     (case v of
        JObj kvs \<Rightarrow> map_of kvs t
      | JArr xs \<Rightarrow> (case parse_index t of None \<Rightarrow> None | Some i \<Rightarrow> nth_opt xs i)
      | _ \<Rightarrow> None)"

fun pointer_walk :: "json \<Rightarrow> string list \<Rightarrow> json option" where
  "pointer_walk v [] = Some v"
| "pointer_walk v (t # ts) =
     (case pointer_step v t of None \<Rightarrow> None | Some w \<Rightarrow> pointer_walk w ts)"

definition json_pointer :: "json \<Rightarrow> string \<Rightarrow> json option" where
  "json_pointer v p =
     (if p = [] then Some v
      else if \<not> starts_with ''/'' p then None
      else pointer_walk v (map unescape_token (tl (split_on (CHR ''/'') p))))"

lemma pointer_walk_append:
  "pointer_walk v (ts @ us) = Option.bind (pointer_walk v ts) (\<lambda>w. pointer_walk w us)"
  by (induction v ts rule: pointer_walk.induct) (auto split: option.splits)

section \<open>CBOR values\<close>

datatype cbor =
    CNull
  | CBool bool
  | CInteger int
  | CFloat string
  | CBytes "string"
  | CText string
  | CArray "cbor list"
  | CMap "(cbor \<times> cbor) list"
  | CTag nat cbor

end
