(* ===== verification/Ranking.thy ===== *)
theory Ranking
  imports Prelude
begin

text \<open>
  The contract of a ranked selection: the elements of a pool carry pairwise different
  ranks, so filtering the pool and sorting it by rank has exactly one outcome. The offer
  registry and the capability registry select hooks, subscriptions and capabilities this way.
\<close>

locale ranked_pool =
  fixes rank :: "'a \<Rightarrow> 'k::linorder"
    and pool :: "'m \<Rightarrow> 'a list"
    and wf :: "'m \<Rightarrow> bool"
  assumes ranks_distinct: "wf m \<Longrightarrow> distinct (map rank (pool m))"
begin

lemma select_set: "set (sort_key rank (filter p (pool m))) = {x \<in> set (pool m). p x}"
  by simp

lemma select_strict: "wf m \<Longrightarrow> sorted_wrt (<) (map rank (sort_key rank (filter p (pool m))))"
proof -
  assume "wf m"
  then have "distinct (map rank (filter p (pool m)))"
    by (intro distinct_map_filter ranks_distinct)
  then have "distinct (map rank (sort_key rank (filter p (pool m))))"
    by (simp add: distinct_map)
  then show ?thesis by (simp add: strict_sorted_iff)
qed

lemma select_distinct: "wf m \<Longrightarrow> distinct (sort_key rank (filter p (pool m)))"
  using select_strict [of m p] by (simp add: strict_sorted_iff distinct_map)

lemma select_determined:
  assumes "wf m" "wf m'" "set (pool m) = set (pool m')"
  shows "sort_key rank (filter p (pool m)) = sort_key rank (filter p (pool m'))"
proof (rule map_sorted_distinct_set_unique [where f = rank])
  have "inj_on rank (set (pool m))" using ranks_distinct [OF assms(1)] by (simp add: distinct_map)
  then show "inj_on rank (set (sort_key rank (filter p (pool m)))
      \<union> set (sort_key rank (filter p (pool m'))))"
    using assms(3) by (auto intro: inj_on_subset)
  show "distinct (map rank (sort_key rank (filter p (pool m))))"
    "distinct (map rank (sort_key rank (filter p (pool m'))))"
    using select_strict [OF assms(1), of p] select_strict [OF assms(2), of p]
    by (simp_all add: strict_sorted_iff)
qed (use assms(3) in simp_all)

lemma select_first:
  assumes "sort_key rank (filter p (pool m)) = x # xs" "y \<in> set (pool m)" "p y"
  shows "rank x \<le> rank y"
proof -
  have "sorted (map rank (x # xs))" unfolding assms(1) [symmetric] by simp
  moreover have "y \<in> set (x # xs)" unfolding assms(1) [symmetric] using assms(2,3) by simp
  ultimately show ?thesis by auto
qed

end

end
