(* ===== verification/Gmap.thy ===== *)
theory Gmap
  imports Prelude
begin

text \<open>
  The access map (\<open>src/gmap/parse.rs\<close>, \<open>eval.rs\<close>, \<open>edit.rs\<close>): rule lines
  \<open>path = policy\<close>, evaluation by specificity with a team overlay, and the editor that
  inserts or replaces a rule in the file. The file system is outside the model: the
  editor takes the file's contents (\<open>None\<close> when there is no file) and returns the new
  ones.
\<close>

section \<open>Data\<close>

datatype policy = Public | Forbidden

record gmap_path =
  pack :: "string option"
  flow :: "string option"
  node :: "string option"

record gmap_rule =
  rule_path :: gmap_path
  rule_policy :: policy
  rule_line :: nat

datatype gmap_error =
    MissingPath nat
  | MissingPolicy nat
  | EmptyPath nat
  | TooManySegments nat
  | InvalidPolicy nat string

section \<open>Parsing\<close>

definition parse_path :: "string \<Rightarrow> nat \<Rightarrow> (gmap_error, gmap_path) result" where
  "parse_path raw line_number =
     (if raw = ''_'' then Inr \<lparr>pack = None, flow = None, node = None\<rparr>
      else
        let segments = filter (\<lambda>seg. seg \<noteq> []) (split_on (CHR ''/'') raw) in
        if segments = [] then Inl (EmptyPath line_number)
        else if length segments > 3 then Inl (TooManySegments line_number)
        else Inr \<lparr>pack = Some (segments ! 0), flow = nth_opt segments 1, node = nth_opt segments 2\<rparr>)"

definition parse_policy :: "string \<Rightarrow> nat \<Rightarrow> (gmap_error, policy) result" where
  "parse_policy raw line_number =
     (if raw = ''public'' then Inr Public
      else if raw = ''forbidden'' then Inr Forbidden
      else Inl (InvalidPolicy line_number raw))"

definition parse_rule_line :: "string \<Rightarrow> nat \<Rightarrow> (gmap_error, gmap_rule) result" where
  "parse_rule_line line line_number =
     (let parts = splitn2 (CHR ''='') line in
      rbind (ok_or (MissingPath line_number)
               (opt_filter (\<lambda>p. p \<noteq> []) (Some (trim (fst parts))))) (\<lambda>raw_path.
      rbind (ok_or (MissingPolicy line_number)
               (opt_filter (\<lambda>p. p \<noteq> []) (map_option trim (snd parts)))) (\<lambda>raw_policy.
      rbind (parse_path raw_path line_number) (\<lambda>path.
      rbind (parse_policy raw_policy line_number) (\<lambda>policy.
        Inr \<lparr>rule_path = path, rule_policy = policy, rule_line = line_number\<rparr>)))))"

definition skipped_line :: "string \<Rightarrow> bool" where
  "skipped_line line \<longleftrightarrow> line = [] \<or> starts_with ''#'' line"

fun parse_lines :: "nat \<Rightarrow> string list \<Rightarrow> (gmap_error, gmap_rule list) result" where
  "parse_lines idx [] = Inr []"
| "parse_lines idx (raw # rest) =
     (let line = trim raw in
      if skipped_line line then parse_lines (idx + 1) rest
      else rbind (parse_rule_line line (idx + 1)) (\<lambda>rule.
           rbind (parse_lines (idx + 1) rest) (\<lambda>rules. Inr (rule # rules))))"

definition parse_str :: "string \<Rightarrow> (gmap_error, gmap_rule list) result" where
  "parse_str contents = parse_lines 0 (lines contents)"

definition parse_file :: "string option \<Rightarrow> (gmap_error, gmap_rule list) result" where
  "parse_file file = (case file of None \<Rightarrow> Inr [] | Some contents \<Rightarrow> parse_str contents)"

text \<open>\<open>Display for GmapPath\<close>.\<close>

definition show_path :: "gmap_path \<Rightarrow> string" where
  "show_path p =
     (case (pack p, flow p, node p) of
        (None, None, None) \<Rightarrow> ''_''
      | (Some a, None, None) \<Rightarrow> a
      | (Some a, Some b, None) \<Rightarrow> a @ ''/'' @ b
      | (Some a, Some b, Some c) \<Rightarrow> a @ ''/'' @ b @ ''/'' @ c
      | _ \<Rightarrow> ''_'')"

section \<open>Evaluation\<close>

record match_decision =
  md_policy :: policy
  md_rank :: nat

definition matches_target :: "gmap_path \<Rightarrow> gmap_path \<Rightarrow> bool" where
  "matches_target rule target =
     (case (pack rule, flow rule, node rule) of
        (None, None, None) \<Rightarrow> True
      | (Some a, None, None) \<Rightarrow> pack target = Some a
      | (Some a, Some b, None) \<Rightarrow>
          (if b = ''_'' then pack target = Some a
           else pack target = Some a \<and> flow target = Some b)
      | (Some a, Some b, Some c) \<Rightarrow>
          pack target = Some a \<and> flow target = Some b \<and> node target = Some c
      | _ \<Rightarrow> False)"

definition specificity_rank :: "gmap_path \<Rightarrow> nat" where
  "specificity_rank p =
     (case (pack p, flow p, node p) of
        (None, None, None) \<Rightarrow> 0
      | (Some _, None, None) \<Rightarrow> 3
      | (Some _, Some b, None) \<Rightarrow> (if b = ''_'' then 2 else 4)
      | (Some _, Some _, Some _) \<Rightarrow> 5
      | _ \<Rightarrow> 0)"

text \<open>The loop over \<open>rules.iter().enumerate()\<close> with \<open>best\<close> and \<open>best_index\<close>.\<close>

fun eval_loop ::
  "gmap_path \<Rightarrow> nat \<Rightarrow> gmap_rule list \<Rightarrow> match_decision option \<Rightarrow> nat \<Rightarrow> match_decision option" where
  "eval_loop target idx [] best best_index = best"
| "eval_loop target idx (rule # rules) best best_index =
     (if \<not> matches_target (rule_path rule) target
      then eval_loop target (idx + 1) rules best best_index
      else
        let rank = specificity_rank (rule_path rule);
            candidate = \<lparr>md_policy = rule_policy rule, md_rank = rank\<rparr>
        in case best of
             None \<Rightarrow> eval_loop target (idx + 1) rules (Some candidate) idx
           | Some current \<Rightarrow>
               if rank > md_rank current \<or> (rank = md_rank current \<and> idx > best_index)
               then eval_loop target (idx + 1) rules (Some candidate) idx
               else eval_loop target (idx + 1) rules best best_index)"

definition eval_policy :: "gmap_rule list \<Rightarrow> gmap_path \<Rightarrow> match_decision option" where
  "eval_policy rules target = eval_loop target 0 rules None 0"

definition eval_with_overlay ::
  "gmap_rule list \<Rightarrow> gmap_rule list \<Rightarrow> gmap_path \<Rightarrow> match_decision option" where
  "eval_with_overlay tenant_rules team_rules target =
     (case eval_policy team_rules target of
        Some d \<Rightarrow> Some d
      | None \<Rightarrow> eval_policy tenant_rules target)"

section \<open>Editing\<close>

definition policy_string :: "policy \<Rightarrow> string" where
  "policy_string p = (case p of Public \<Rightarrow> ''public'' | Forbidden \<Rightarrow> ''forbidden'')"

definition rule_text :: "string \<Rightarrow> policy \<Rightarrow> string" where
  "rule_text path policy = path @ '' = '' @ policy_string policy"

definition render_rules :: "gmap_rule list \<Rightarrow> string" where
  "render_rules rules =
     concat (map (\<lambda>rule. rule_text (show_path (rule_path rule)) (rule_policy rule) @ [nl_char]) rules)"

definition canonical_key :: "gmap_path \<Rightarrow> nat \<times> string \<times> string \<times> string" where
  "canonical_key p =
     (case (pack p, flow p, node p) of
        (None, None, None) \<Rightarrow> (0, [], [], [])
      | (Some a, None, None) \<Rightarrow> (2, a, [], [])
      | (Some a, Some b, None) \<Rightarrow> (if b = ''_'' then (1, a, [], []) else (3, a, b, []))
      | (Some a, Some b, Some c) \<Rightarrow> (4, a, b, c)
      | _ \<Rightarrow> (0, [], [], []))"

definition contains_comments_or_blanks :: "string \<Rightarrow> bool" where
  "contains_comments_or_blanks contents = list_ex (\<lambda>line. skipped_line (trim line)) (lines contents)"

fun set_policy :: "gmap_path \<Rightarrow> policy \<Rightarrow> gmap_rule list \<Rightarrow> gmap_rule list option" where
  "set_policy path policy [] = None"
| "set_policy path policy (rule # rules) =
     (if rule_path rule = path then Some (rule\<lparr>rule_policy := policy\<rparr> # rules)
      else map_option (\<lambda>rs. rule # rs) (set_policy path policy rules))"

definition upsert_rule ::
  "gmap_rule list \<Rightarrow> string \<Rightarrow> policy \<Rightarrow> (gmap_error, gmap_rule list) result" where
  "upsert_rule rules path_str policy =
     rbind (parse_path path_str 0) (\<lambda>path.
       (case set_policy path policy rules of
          Some rules' \<Rightarrow> Inr rules'
        | None \<Rightarrow> Inr (rules @ [\<lparr>rule_path = path, rule_policy = policy, rule_line = length rules + 1\<rparr>])))"

text \<open>The loop over \<open>&mut lines\<close>: the first rule line whose displayed path equals the
  given string is replaced; the flag says whether one was.\<close>

fun replace_rule_line ::
  "string \<Rightarrow> policy \<Rightarrow> string list \<Rightarrow> (gmap_error, string list \<times> bool) result" where
  "replace_rule_line path_str policy [] = Inr ([], False)"
| "replace_rule_line path_str policy (line # rest) =
     (let trimmed = trim line;
          continue = (\<lambda>_::unit. rbind (replace_rule_line path_str policy rest)
                        (\<lambda>(rest', updated). Inr (line # rest', updated)))
      in if skipped_line trimmed then continue ()
         else rbind (parse_rule_line trimmed 0) (\<lambda>rule.
           if show_path (rule_path rule) = path_str
           then Inr (rule_text path_str policy # rest, True)
           else continue ()))"

definition upsert_preserving_lines ::
  "string \<Rightarrow> string \<Rightarrow> policy \<Rightarrow> (gmap_error, string) result" where
  "upsert_preserving_lines contents path_str policy =
     rbind (replace_rule_line path_str policy (split_on nl_char contents)) (\<lambda>(ls, updated).
       let ls1 = (if updated then ls
                  else (if ls \<noteq> [] \<and> last ls \<noteq> [] then ls @ [[]] else ls)
                       @ [rule_text path_str policy]);
           output = join [nl_char] ls1
       in Inr (if ends_with [nl_char] output then output else output @ [nl_char]))"

definition upsert_policy ::
  "string option \<Rightarrow> string \<Rightarrow> policy \<Rightarrow> (gmap_error, string) result" where
  "upsert_policy file path_str policy =
     (let contents = (case file of None \<Rightarrow> [] | Some c \<Rightarrow> c);
          has_comments = contents \<noteq> [] \<and> contains_comments_or_blanks contents
      in if has_comments then upsert_preserving_lines contents path_str policy
         else rbind (parse_str contents) (\<lambda>rules.
              rbind (upsert_rule rules path_str policy) (\<lambda>rules'.
                Inr (render_rules (sort_key (\<lambda>r. canonical_key (rule_path r)) rules')))))"

section \<open>Abstract specification: a map from paths to policies\<close>

text \<open>
  A rule list stands for the map from paths to policies in which the last rule of a path
  counts, and a target is decided by the first of its candidate paths, from the most to
  the least specific, that the map holds.
\<close>

definition policy_map :: "gmap_rule list \<Rightarrow> gmap_path \<Rightarrow> policy option" where
  "policy_map rules p =
     (let rs = filter (\<lambda>r. rule_path r = p) rules
      in if rs = [] then None else Some (rule_policy (last rs)))"

definition candidates :: "gmap_path \<Rightarrow> gmap_path list" where
  "candidates t =
     (case pack t of None \<Rightarrow> []
      | Some a \<Rightarrow>
          (case flow t of None \<Rightarrow> []
           | Some b \<Rightarrow>
               (case node t of None \<Rightarrow> []
                | Some c \<Rightarrow> [\<lparr>pack = Some a, flow = Some b, node = Some c\<rparr>])
               @ (if b = ''_'' then [] else [\<lparr>pack = Some a, flow = Some b, node = None\<rparr>]))
          @ [\<lparr>pack = Some a, flow = None, node = None\<rparr>,
             \<lparr>pack = Some a, flow = Some ''_'', node = None\<rparr>])
     @ [\<lparr>pack = None, flow = None, node = None\<rparr>]"

fun first_hit :: "(gmap_path \<Rightarrow> policy option) \<Rightarrow> gmap_path list \<Rightarrow> policy option" where
  "first_hit m [] = None"
| "first_hit m (p # ps) = (case m p of Some x \<Rightarrow> Some x | None \<Rightarrow> first_hit m ps)"

definition decide :: "(gmap_path \<Rightarrow> policy option) \<Rightarrow> gmap_path \<Rightarrow> policy option" where
  "decide m t = first_hit m (candidates t)"

text \<open>Paths as the parser builds them: no gap between the segments.\<close>

definition wf_path :: "gmap_path \<Rightarrow> bool" where
  "wf_path p \<longleftrightarrow> (pack p = None \<longrightarrow> flow p = None) \<and> (flow p = None \<longrightarrow> node p = None)"

lemma gmap_path_eq_iff:
  "(p :: gmap_path) = q \<longleftrightarrow> pack p = pack q \<and> flow p = flow q \<and> node p = node q"
  by (cases p, cases q) simp

lemma parse_path_wf: "parse_path raw n = Inr p \<Longrightarrow> wf_path p"
  by (auto simp: parse_path_def wf_path_def Let_def split: if_splits)

lemma parse_rule_line_wf: "parse_rule_line line n = Inr r \<Longrightarrow> wf_path (rule_path r)"
  by (auto simp: parse_rule_line_def Let_def result_iff dest: parse_path_wf)

lemma parse_lines_wf: "parse_lines n ls = Inr rules \<Longrightarrow> r \<in> set rules \<Longrightarrow> wf_path (rule_path r)"
  by (induction n ls arbitrary: rules rule: parse_lines.induct)
    (auto simp: Let_def result_iff dest: parse_rule_line_wf split: if_splits)

lemma parse_str_wf: "parse_str s = Inr rules \<Longrightarrow> r \<in> set rules \<Longrightarrow> wf_path (rule_path r)"
  unfolding parse_str_def by (rule parse_lines_wf)

subsection \<open>The evaluation loop\<close>

text \<open>Since indices only grow, the loop keeps the last rule of maximal rank.\<close>

definition eval_step :: "gmap_path \<Rightarrow> gmap_rule \<Rightarrow> match_decision option \<Rightarrow> match_decision option" where
  "eval_step t r best =
     (if matches_target (rule_path r) t \<and>
         (case best of None \<Rightarrow> True | Some d \<Rightarrow> md_rank d \<le> specificity_rank (rule_path r))
      then Some \<lparr>md_policy = rule_policy r, md_rank = specificity_rank (rule_path r)\<rparr>
      else best)"

lemma eval_loop_fold:
  "(best \<noteq> None \<longrightarrow> bi < idx) \<Longrightarrow> eval_loop t idx rules best bi = fold (eval_step t) rules best"
proof (induction t idx rules best bi rule: eval_loop.induct)
  case (1 target idx best bi)
  then show ?case by simp
next
  case (2 target idx rule rules best bi)
  then show ?case
    by (cases best) (auto simp: eval_step_def Let_def le_less)
qed

lemma eval_policy_fold: "eval_policy rules t = fold (eval_step t) rules None"
  by (simp add: eval_policy_def eval_loop_fold)

lemma eval_policy_Nil [simp]: "eval_policy [] t = None"
  by (simp add: eval_policy_fold)

lemma eval_policy_snoc: "eval_policy (rules @ [r]) t = eval_step t r (eval_policy rules t)"
  by (simp add: eval_policy_fold)

lemma matching_paths:
  assumes "wf_path p"
  shows "matches_target p t \<longleftrightarrow> p \<in> set (candidates t)"
  using assms
  by (cases "pack p"; cases "flow p"; cases "node p"; cases "pack t"; cases "flow t"; cases "node t")
    (auto simp: matches_target_def candidates_def wf_path_def gmap_path_eq_iff)

text \<open>Candidates are listed by falling rank, and no two have the same one.\<close>

lemma candidates_ranks: "sorted_wrt (>) (map specificity_rank (candidates t))"
  by (cases "pack t"; cases "flow t"; cases "node t")
    (auto simp: candidates_def specificity_rank_def)

lemma first_hit_append:
  "first_hit m (ps @ qs) = (case first_hit m ps of Some x \<Rightarrow> Some x | None \<Rightarrow> first_hit m qs)"
  by (induction ps) (auto split: option.split)

lemma first_hit_None: "first_hit m ps = None \<longleftrightarrow> (\<forall>p \<in> set ps. m p = None)"
  by (induction ps) (auto split: option.split)

lemma first_hit_cong: "(\<And>p. p \<in> set ps \<Longrightarrow> m p = m' p) \<Longrightarrow> first_hit m ps = first_hit m' ps"
  by (induction ps) (auto split: option.split)

text \<open>Writing one path of a list of distinct ones.\<close>

lemma first_hit_upd:
  assumes "distinct (ps @ p # qs)"
  shows "first_hit (m(p := Some x)) (ps @ p # qs) =
     (case first_hit m ps of Some y \<Rightarrow> Some y | None \<Rightarrow> Some x)"
proof -
  have "first_hit (m(p := Some x)) ps = first_hit m ps"
    using assms by (intro first_hit_cong) auto
  then show ?thesis by (simp add: first_hit_append split: option.split)
qed

lemma policy_map_snoc:
  "policy_map (rules @ [r]) = (policy_map rules)(rule_path r := Some (rule_policy r))"
proof
  fix p
  show "policy_map (rules @ [r]) p = ((policy_map rules)(rule_path r := Some (rule_policy r))) p"
    by (simp add: policy_map_def)
qed

lemma policy_map_Nil [simp]: "policy_map [] = (\<lambda>_. None)"
  by (simp add: policy_map_def fun_eq_iff)

text \<open>The best decision so far is the first hit, together with its rank.\<close>

lemma eval_policy_hit:
  assumes "\<And>r. r \<in> set rules \<Longrightarrow> wf_path (rule_path r)"
  shows "eval_policy rules t =
     (case List.find (\<lambda>p. policy_map rules p \<noteq> None) (candidates t) of
        None \<Rightarrow> None
      | Some p \<Rightarrow> Some \<lparr>md_policy = the (policy_map rules p), md_rank = specificity_rank p\<rparr>)"
  using assms
proof (induction rules rule: rev_induct)
  case Nil
  have "List.find (\<lambda>p. False) (candidates t) = None"
    by (simp add: find_None_iff)
  then show ?case by simp
next
  case (snoc r rules)
  let ?p = "rule_path r" and ?hit = "\<lambda>rs. List.find (\<lambda>p. policy_map rs p \<noteq> None) (candidates t)"
  have IH: "eval_policy rules t = (case ?hit rules of None \<Rightarrow> None
      | Some p \<Rightarrow> Some \<lparr>md_policy = the (policy_map rules p), md_rank = specificity_rank p\<rparr>)"
    using snoc by auto
  show ?case
  proof (cases "?p \<in> set (candidates t)")
    case False
    then have "\<not> matches_target ?p t" using snoc.prems by (simp add: matching_paths)
    moreover have "?hit (rules @ [r]) = ?hit rules"
      using False by (intro find_cong) (auto simp: policy_map_snoc)
    moreover have "p \<in> set (candidates t)" if "?hit rules = Some p" for p
      using find_Some_in [OF that] by simp
    ultimately show ?thesis
      using IH False by (auto simp: eval_policy_snoc eval_step_def policy_map_snoc split: option.splits)
  next
    case True
    then have m: "matches_target ?p t" using snoc.prems by (simp add: matching_paths)
    obtain us vs where c: "candidates t = us @ ?p # vs"
      using True by (auto simp: in_set_conv_decomp)
    have ranks: "\<forall>q \<in> set us. specificity_rank ?p < specificity_rank q"
      "\<forall>q \<in> set vs. specificity_rank q < specificity_rank ?p"
      using candidates_ranks [of t] by (auto simp: c sorted_wrt_append)
    have us: "List.find (\<lambda>p. policy_map (rules @ [r]) p \<noteq> None) us
        = List.find (\<lambda>p. policy_map rules p \<noteq> None) us"
      using ranks by (intro find_cong) (auto simp: policy_map_snoc)
    show ?thesis
    proof (cases "List.find (\<lambda>p. policy_map rules p \<noteq> None) us")
      case (Some q)
      then have "q \<in> set us" using find_Some_in by metis
      with ranks have "specificity_rank ?p < specificity_rank q" "q \<noteq> ?p" by auto
      then show ?thesis
        using Some us IH by (simp add: c find_append eval_policy_snoc eval_step_def policy_map_snoc)
    next
      case None
      have "specificity_rank q \<le> specificity_rank ?p" if "?hit rules = Some q" for q
        using that None ranks find_Some_in [of _ vs q]
        by (auto simp: c find_append split: if_splits intro: less_imp_le)
      then show ?thesis
        using None us IH m
        by (auto simp: c find_append eval_policy_snoc eval_step_def policy_map_snoc split: option.splits)
    qed
  qed
qed

lemma first_hit_find: "first_hit m ps = Option.bind (List.find (\<lambda>p. m p \<noteq> None) ps) m"
  by (induction ps) (auto split: option.split)

lemma eval_policy_decide:
  assumes "\<And>r. r \<in> set rules \<Longrightarrow> wf_path (rule_path r)"
  shows "map_option md_policy (eval_policy rules t) = decide (policy_map rules) t"
  by (auto simp: eval_policy_hit [OF assms] decide_def first_hit_find
      split: option.splits dest!: find_Some_in)

lemma parsed_decide:
  "parse_str s = Inr rules \<Longrightarrow> map_option md_policy (eval_policy rules t) = decide (policy_map rules) t"
  by (intro eval_policy_decide) (rule parse_str_wf)

section \<open>Printing and parsing\<close>

definition segments :: "gmap_path \<Rightarrow> string list" where
  "segments p = List.map_filter (\<lambda>x. x) [pack p, flow p, node p]"

text \<open>Paths whose displayed form reads back: plain segments, nothing that the line
  syntax gives a meaning to, and no pack named like the default path.\<close>

definition printable :: "gmap_path \<Rightarrow> bool" where
  "printable p \<longleftrightarrow> wf_path p \<and> (\<forall>s \<in> set (segments p). plain_segment s)
     \<and> segments p \<noteq> [''_'']
     \<and> (let s = show_path p in trimmed s \<and> CHR ''='' \<notin> set s \<and> nl_char \<notin> set s \<and> hd s \<noteq> CHR ''#'')"

lemma show_path_join:
  "wf_path p \<Longrightarrow> show_path p = (if segments p = [] then ''_'' else join ''/'' (segments p))"
  by (cases "pack p"; cases "flow p"; cases "node p")
    (auto simp: show_path_def segments_def wf_path_def List.map_filter_def)

lemma segments_determine:
  "wf_path p \<Longrightarrow> p = \<lparr>pack = nth_opt (segments p) 0, flow = nth_opt (segments p) 1,
     node = nth_opt (segments p) 2\<rparr>"
  by (cases "pack p"; cases "flow p"; cases "node p")
    (auto simp: segments_def wf_path_def List.map_filter_def gmap_path_eq_iff numeral_2_eq_2)

lemma length_segments: "length (segments p) \<le> 3"
  by (cases "pack p"; cases "flow p"; cases "node p") (auto simp: segments_def List.map_filter_def)

lemma join_underscore: "join ''/'' ws = ''_'' \<Longrightarrow> (\<forall>w \<in> set ws. plain_segment w) \<Longrightarrow> ws = [''_'']"
proof (cases ws rule: remdups_adj.cases)
  case (3 x y xs)
  assume "join ''/'' ws = ''_''" "\<forall>w \<in> set ws. plain_segment w"
  then have "length (x @ ''/'' @ join ''/'' (y # xs)) = 1" "x \<noteq> []"
    using 3 by (auto simp: plain_segment_def)
  then show ?thesis by (cases x) auto
qed auto

lemma parse_path_show:
  assumes "printable p"
  shows "parse_path (show_path p) n = Inr p"
proof (cases "segments p = []")
  case True
  then show ?thesis using assms segments_determine [of p]
    by (simp add: parse_path_def printable_def show_path_join)
next
  case False
  have wf: "wf_path p" and plain: "\<forall>s \<in> set (segments p). plain_segment s"
    using assms by (auto simp: printable_def)
  have "split_on (CHR ''/'') (show_path p) = segments p"
    using plain False by (simp add: show_path_join [OF wf] split_on_join plain_segment_def)
  moreover have "show_path p \<noteq> ''_''"
    using assms plain False by (auto simp: printable_def show_path_join [OF wf] dest: join_underscore)
  moreover have "filter (\<lambda>seg. seg \<noteq> []) (segments p) = segments p"
    using plain by (intro filter_True) (auto simp: plain_segment_def)
  ultimately show ?thesis
    using False length_segments [of p] segments_determine [OF wf]
    by (auto simp: parse_path_def nth_opt_def split: if_splits)
qed

lemma show_path_nonempty: "printable p \<Longrightarrow> show_path p \<noteq> []"
proof -
  assume p: "printable p"
  then have wf: "wf_path p" by (simp add: printable_def)
  show ?thesis
  proof (cases "segments p")
    case Nil
    then show ?thesis by (simp add: show_path_join [OF wf])
  next
    case (Cons w ws)
    then have "w \<noteq> []" using p by (simp add: printable_def plain_segment_def)
    then show ?thesis using Cons by (cases ws) (auto simp: show_path_join [OF wf])
  qed
qed

lemma is_whitespace_space [simp]: "is_whitespace (CHR '' '')"
  by (simp add: is_whitespace_def)

lemma trim_append_space: "trimmed s \<Longrightarrow> trim (s @ '' '') = s"
  by (cases "s = []")
    (auto simp: trimmed_def trim_def trim_start_def trim_end_def dropWhile_append1 dropWhile_append3
      dropWhile_hd_id hd_rev)

lemma trim_space_Cons: "trim (CHR '' '' # s) = trim s"
  by (simp add: trim_def trim_start_def)

lemma splitn2_append: "d \<notin> set w \<Longrightarrow> splitn2 d (w @ d # s) = (w, Some s)"
  by (induction w) (auto simp: splitn2_def)

lemma policy_string_props [simp]:
  "trimmed (policy_string x)" "policy_string x \<noteq> []" "parse_policy (policy_string x) n = Inr x"
  "last (policy_string x) \<noteq> cr_char" "\<not> is_whitespace (last (policy_string x))"
  "nl_char \<notin> set (policy_string x)"
  by (cases x; simp add: policy_string_def trimmed_def is_whitespace_def parse_policy_def cr_char_def nl_char_def)+

lemma nl_char_neq: "nl_char \<noteq> CHR '' ''" "nl_char \<noteq> CHR ''=''"
  by (simp_all add: nl_char_def)

text \<open>A string that the line syntax gives no meaning to.\<close>

definition line_safe :: "string \<Rightarrow> bool" where
  "line_safe s \<longleftrightarrow> s \<noteq> [] \<and> trimmed s \<and> CHR ''='' \<notin> set s \<and> nl_char \<notin> set s \<and> hd s \<noteq> CHR ''#''"

lemma printable_line_safe: "printable p \<Longrightarrow> line_safe (show_path p)"
  using show_path_nonempty by (auto simp: printable_def line_safe_def Let_def)

lemma parse_safe_text:
  assumes "line_safe s" "parse_path s n = Inr p"
  shows "parse_rule_line (rule_text s x) n = Inr \<lparr>rule_path = p, rule_policy = x, rule_line = n\<rparr>"
proof -
  have "splitn2 (CHR ''='') (rule_text s x) = (s @ '' '', Some (CHR '' '' # policy_string x))"
    using assms splitn2_append [of "CHR ''=''" "s @ '' ''"]
    by (simp add: rule_text_def line_safe_def)
  moreover have "trim (s @ '' '') = s"
    using assms by (intro trim_append_space) (simp add: line_safe_def)
  ultimately show ?thesis
    using assms by (simp add: parse_rule_line_def line_safe_def trim_space_Cons)
qed

lemma trim_safe_text:
  assumes "line_safe s"
  shows "trim (rule_text s x) = rule_text s x"
    and "\<not> skipped_line (rule_text s x)"
    and "nl_char \<notin> set (rule_text s x)"
    and "strip_cr (rule_text s x) = rule_text s x"
proof -
  show "trim (rule_text s x) = rule_text s x"
    using assms by (intro trim_id) (auto simp: trimmed_def rule_text_def line_safe_def)
  show "\<not> skipped_line (rule_text s x)"
    using assms by (cases s) (auto simp: skipped_line_def rule_text_def starts_with_def line_safe_def)
  show "nl_char \<notin> set (rule_text s x)"
    using assms nl_char_neq by (auto simp: rule_text_def line_safe_def)
  show "strip_cr (rule_text s x) = rule_text s x"
    by (simp add: strip_cr_def rule_text_def)
qed

lemma parse_rule_text:
  assumes "printable p"
  shows "parse_rule_line (rule_text (show_path p) x) n = Inr \<lparr>rule_path = p, rule_policy = x, rule_line = n\<rparr>"
  using assms by (intro parse_safe_text printable_line_safe parse_path_show)

lemmas trim_rule_text = trim_safe_text [OF printable_line_safe]

lemma split_on_concat_lines:
  "(\<And>l. l \<in> set ls \<Longrightarrow> d \<notin> set l) \<Longrightarrow> split_on d (concat (map (\<lambda>l. l @ [d]) ls)) = ls @ [[]]"
  by (induction ls) (auto simp: split_on_append)

lemma lines_concat:
  assumes "\<And>l. l \<in> set ls \<Longrightarrow> nl_char \<notin> set l \<and> strip_cr l = l"
  shows "lines (concat (map (\<lambda>l. l @ [nl_char]) ls)) = ls"
  using assms by (simp add: lines_def Let_def split_on_concat_lines map_idI)

text \<open>Parsing a rendered list only renumbers its lines.\<close>

definition renumber :: "nat \<Rightarrow> gmap_rule list \<Rightarrow> gmap_rule list" where
  "renumber n rules = map (\<lambda>(i, r). r\<lparr>rule_line := i + 1\<rparr>) (List.enumerate n rules)"

lemma parse_lines_rule_texts:
  "(\<And>r. r \<in> set rules \<Longrightarrow> printable (rule_path r)) \<Longrightarrow>
   parse_lines n (map (\<lambda>r. rule_text (show_path (rule_path r)) (rule_policy r)) rules) = Inr (renumber n rules)"
proof (induction rules arbitrary: n)
  case Nil
  then show ?case by (simp add: renumber_def)
next
  case (Cons r rules)
  then have "printable (rule_path r)" by simp
  with Cons show ?case
    by (simp add: trim_rule_text parse_rule_text renumber_def)
qed

lemma parse_render:
  assumes "\<And>r. r \<in> set rules \<Longrightarrow> printable (rule_path r)"
  shows "parse_str (render_rules rules) = Inr (renumber 0 rules)"
proof -
  let ?ls = "map (\<lambda>r. rule_text (show_path (rule_path r)) (rule_policy r)) rules"
  have "render_rules rules = concat (map (\<lambda>l. l @ [nl_char]) ?ls)"
    by (simp add: render_rules_def comp_def)
  moreover have "lines (concat (map (\<lambda>l. l @ [nl_char]) ?ls)) = ?ls"
    using assms by (intro lines_concat) (auto simp: trim_rule_text)
  ultimately show ?thesis
    using assms by (simp add: parse_str_def parse_lines_rule_texts)
qed

section \<open>Which parsed files print back\<close>

text \<open>Every path of a parsed file is clean: plain segments without \<open>=\<close> or a line feed. Its
  displayed form can still be untrimmed, a comment, or \<open>_\<close> for a pack of that name.\<close>

definition clean_path :: "gmap_path \<Rightarrow> bool" where
  "clean_path p \<longleftrightarrow> wf_path p \<and> (\<forall>s \<in> set (segments p). plain_segment s)
     \<and> CHR ''='' \<notin> set (show_path p) \<and> nl_char \<notin> set (show_path p)"

lemma parse_path_segments:
  assumes "parse_path raw n = Inr p"
  shows "if raw = ''_'' then segments p = [] else segments p \<noteq> [] \<and> segments p = filter (\<lambda>s. s \<noteq> []) (split_on (CHR ''/'') raw)"
proof (cases "raw = ''_''")
  case True
  then show ?thesis using assms by (auto simp: parse_path_def segments_def List.map_filter_def)
next
  case False
  let ?segs = "filter (\<lambda>s. s \<noteq> []) (split_on (CHR ''/'') raw)"
  have ne: "?segs \<noteq> []" "length ?segs \<le> 3"
    and p: "p = \<lparr>pack = Some (?segs ! 0), flow = nth_opt ?segs 1, node = nth_opt ?segs 2\<rparr>"
    using assms False by (auto simp: parse_path_def Let_def split: if_splits)
  have "segments \<lparr>pack = Some (xs ! 0), flow = nth_opt xs 1, node = nth_opt xs 2\<rparr> = xs"
    if "xs \<noteq> []" "length xs \<le> 3" for xs
    using that by (cases xs rule: remdups_adj.cases) (auto simp: segments_def nth_opt_def List.map_filter_def nth_Cons' length_Suc_conv numeral_3_eq_3 le_Suc_eq)
  from this [OF ne] show ?thesis using False ne p by simp
qed

lemma set_join: "set (join sep ws) \<subseteq> set sep \<union> \<Union> (set ` set ws)"
  by (induction sep ws rule: join.induct) auto

lemma parse_path_chars:
  assumes "parse_path raw n = Inr p"
  shows "set (show_path p) \<subseteq> set raw" "s \<in> set (segments p) \<Longrightarrow> plain_segment s"
proof -
  have wf: "wf_path p" using assms by (rule parse_path_wf)
  note segs = parse_path_segments [OF assms]
  show "s \<in> set (segments p) \<Longrightarrow> plain_segment s"
    using segs by (auto simp: plain_segment_def dest: split_on_no_sep split: if_splits)
  show "set (show_path p) \<subseteq> set raw"
  proof (cases "segments p")
    case Nil
    then show ?thesis using segs by (auto simp: show_path_join [OF wf] split: if_splits)
  next
    case (Cons w ws)
    then have sp: "show_path p = join ''/'' (segments p)" by (simp add: show_path_join [OF wf])
    have "segments p = filter (\<lambda>s. s \<noteq> []) (split_on (CHR ''/'') raw)" using segs Cons by (simp split: if_splits)
    then have sub: "set v \<subseteq> set raw" if "v \<in> set (segments p)" for v
      using that split_on_subset [of v "CHR ''/''" raw] by simp
    show ?thesis
    proof (cases ws)
      case Nil
      then show ?thesis using sp Cons sub by simp
    next
      case (Cons w' ws')
      have "CHR ''/'' \<in> set raw"
      proof (rule ccontr)
        assume "CHR ''/'' \<notin> set raw"
        then have "length (segments p) \<le> 1" using segs by (auto split: if_splits)
        then show False using \<open>segments p = w # ws\<close> Cons by simp
      qed
      then show ?thesis using set_join [of "''/''" "segments p"] sub by (auto simp: sp)
    qed
  qed
qed

lemma parse_rule_line_path:
  "parse_rule_line line n = Inr r \<Longrightarrow> parse_path (trim (fst (splitn2 (CHR ''='') line))) n = Inr (rule_path r)"
  by (auto simp: parse_rule_line_def Let_def result_iff split: if_splits)

lemma parse_rule_line_clean:
  assumes "parse_rule_line line n = Inr r" "nl_char \<notin> set line"
  shows "clean_path (rule_path r)"
proof -
  obtain raw where raw: "parse_path raw n = Inr (rule_path r)" "raw = trim (takeWhile (\<lambda>c. c \<noteq> CHR ''='') line)"
    using parse_rule_line_path [OF assms(1)] by (simp add: splitn2_def)
  have "set raw \<subseteq> set (takeWhile (\<lambda>c. c \<noteq> CHR ''='') line)" unfolding raw(2) by (rule set_trim)
  then have "CHR ''='' \<notin> set raw" "nl_char \<notin> set raw" using assms(2) by (auto dest: set_takeWhileD)
  then show ?thesis using parse_path_chars [OF raw(1)] parse_path_wf [OF raw(1)] by (auto simp: clean_path_def)
qed

lemma parse_lines_clean:
  "parse_lines n ls = Inr rules \<Longrightarrow> (\<And>l. l \<in> set ls \<Longrightarrow> nl_char \<notin> set l) \<Longrightarrow> r \<in> set rules \<Longrightarrow> clean_path (rule_path r)"
proof (induction n ls arbitrary: rules rule: parse_lines.induct)
  case (2 n raw rest)
  have "nl_char \<notin> set (trim raw)" using 2(4) [of raw] set_trim [of raw] by auto
  then show ?case using 2 by (auto simp: Let_def result_iff dest: parse_rule_line_clean split: if_splits)
qed simp

text \<open>\<open>lines\<close> and \<open>split('\n')\<close> parse alike.\<close>

lemma trim_start_strip: "trim_start s = [] \<or> (\<exists>w. s = w @ trim_start s)"
  unfolding trim_start_def by (metis takeWhile_dropWhile_id)

lemma trim_snoc_white: "is_whitespace c \<Longrightarrow> trim (s @ [c]) = trim s"
proof (cases "\<forall>x \<in> set s. is_whitespace x")
  case True
  assume "is_whitespace c"
  with True have "dropWhile is_whitespace s = []" "dropWhile is_whitespace (s @ [c]) = []"
    by (simp_all add: dropWhile_eq_Nil_conv)
  then show ?thesis by (simp only: trim_def trim_start_def)
next
  case False
  assume "is_whitespace c"
  moreover from False have "dropWhile is_whitespace (s @ [c]) = dropWhile is_whitespace s @ [c]"
    by (auto intro: dropWhile_append1)
  ultimately show ?thesis by (simp add: trim_def trim_start_def trim_end_def)
qed

lemma trim_strip_cr: "trim (strip_cr s) = trim s"
proof (cases "s \<noteq> [] \<and> last s = cr_char")
  case True
  then have "s = butlast s @ [cr_char]" by (metis append_butlast_last_id)
  moreover have "is_whitespace cr_char" by (simp add: is_whitespace_def cr_char_def)
  ultimately show ?thesis using True trim_snoc_white by (simp add: strip_cr_def) metis
qed (auto simp: strip_cr_def)

lemma parse_lines_append:
  "parse_lines n (xs @ ys) = rbind (parse_lines n xs) (\<lambda>a. rbind (parse_lines (n + length xs) ys) (\<lambda>b. Inr (a @ b)))"
proof (induction xs arbitrary: n)
  case Nil
  then show ?case by (cases "parse_lines n ys") simp_all
next
  case (Cons x xs)
  then show ?case
    by (cases "parse_rule_line (trim x) (n + 1)"; cases "parse_lines (n + 1) xs"; cases "parse_lines (n + 1 + length xs) ys")
      (simp_all add: Let_def)
qed

lemma parse_lines_strip: "parse_lines n (map strip_cr ls) = parse_lines n ls"
  by (induction ls arbitrary: n) (simp_all add: trim_strip_cr Let_def)

lemma parse_lines_blank_end [simp]: "parse_lines n (ls @ [[]]) = parse_lines n ls"
  by (cases "parse_lines n ls") (simp_all add: parse_lines_append skipped_line_def)

lemma parse_str_split: "parse_str c = parse_lines 0 (split_on nl_char c)"
proof -
  let ?ps = "split_on nl_char c"
  obtain ls l where ps: "?ps = ls @ [l]" by (metis split_on_not_Nil rev_exhaust)
  have "parse_lines 0 (map strip_cr ls @ [l]) = parse_lines 0 (ls @ [l])"
    by (simp add: parse_lines_append parse_lines_strip)
  moreover have "parse_lines 0 (map strip_cr ls) = parse_lines 0 (ls @ [[]])"
    by (simp add: parse_lines_strip)
  ultimately show ?thesis by (cases "l = []") (simp_all add: parse_str_def lines_def ps)
qed

lemma parse_str_clean: "parse_str c = Inr rules \<Longrightarrow> r \<in> set rules \<Longrightarrow> clean_path (rule_path r)"
  unfolding parse_str_split by (erule parse_lines_clean) (auto dest: split_on_no_sep)

text \<open>Reading back what is printed for a clean path needs the displayed form to be trimmed:
  dropping empty segments never makes a path longer.\<close>

lemma length_join_filter: "length (join ''/'' (filter (\<lambda>s. s \<noteq> []) ws)) \<le> length (join ''/'' ws)"
proof (induction "''/''" ws rule: join.induct)
  case (3 x y xs)
  let ?f = "filter (\<lambda>s. s \<noteq> []) (y # xs)"
  show ?case
  proof (cases "?f = []")
    case True
    then show ?thesis by (cases "x = []") (auto split: if_splits)
  next
    case False
    then have "length (join ''/'' (filter (\<lambda>s. s \<noteq> []) (x # y # xs))) \<le> length x + 1 + length (join ''/'' ?f)"
      by (cases "x = []") (simp_all add: join_Cons)
    with 3 show ?thesis by simp
  qed
qed auto

lemma dropWhile_full: "length (dropWhile P xs) = length xs \<Longrightarrow> dropWhile P xs = xs"
  by (metis append_self_conv2 length_append add_cancel_left_left length_0_conv takeWhile_dropWhile_id)

lemma length_trim: "length (trim s) \<le> length s" "length (trim s) = length s \<Longrightarrow> trimmed s"
proof -
  have a: "length (trim_start s) \<le> length s" by (simp add: trim_start_def length_dropWhile_le)
  have b: "length (trim s) \<le> length (trim_start s)"
    unfolding trim_def trim_end_def by (metis length_dropWhile_le length_rev)
  show "length (trim s) \<le> length s" using a b by simp
  assume "length (trim s) = length s"
  then have e: "length (trim_start s) = length s" "length (trim s) = length (trim_start s)" using a b by simp_all
  have s: "trim_start s = s" using e(1) unfolding trim_start_def by (rule dropWhile_full)
  have "length (dropWhile is_whitespace (rev s)) = length (rev s)"
    using e(2) s unfolding trim_def trim_end_def by simp
  then have "trim s = s" unfolding trim_def s trim_end_def by (simp add: dropWhile_full)
  then show "trimmed s" using trimmed_trim [of s] by simp
qed

lemma trim_rule_text_path:
  assumes "CHR ''='' \<notin> set s"
  shows "trim (fst (splitn2 (CHR ''='') (trim (rule_text s x)))) = trim s"
proof -
  let ?tail = "CHR ''='' # CHR '' '' # policy_string x"
  have e: "trim_end (w @ ?tail) = w @ ?tail" for w
    by (simp add: trim_end_def dropWhile_hd_id hd_append hd_rev)
  have rt: "rule_text s x = (s @ '' '') @ ?tail" by (simp add: rule_text_def)
  have split: "fst (splitn2 (CHR ''='') (w @ ?tail)) = w" if "CHR ''='' \<notin> set w" for w
    using splitn2_append [OF that] by simp
  show ?thesis
  proof (cases "\<forall>c \<in> set s. is_whitespace c")
    case True
    then have "trim_start (rule_text s x) = [] @ ?tail"
      by (auto simp: rule_text_def trim_start_def dropWhile_append2 is_whitespace_def)
    then have "trim (rule_text s x) = [] @ ?tail" unfolding trim_def using e [of "[]"] by simp
    moreover have "trim_start s = []" using True by (simp add: trim_start_def dropWhile_eq_Nil_conv)
    then have "trim s = []" by (simp add: trim_def trim_end_def)
    ultimately show ?thesis using split [of "[]"] by simp
  next
    case False
    have "trim_start (rule_text s x) = (trim_start s @ '' '') @ ?tail"
      using False by (auto simp: rule_text_def trim_start_def dropWhile_append1)
    then have "trim (rule_text s x) = (trim_start s @ '' '') @ ?tail"
      unfolding trim_def by (simp only: e)
    moreover have "CHR ''='' \<notin> set (trim_start s @ '' '')"
      using assms by (auto simp: trim_start_def dest: set_dropWhileD)
    moreover have "trim (trim_start s @ '' '') = trim (trim_start s)" by (rule trim_snoc_white) simp
    moreover have "trim (trim_start s) = trim s" by (simp add: trim_def trim_start_def dropWhile_idem)
    ultimately show ?thesis using split [of "trim_start s @ '' ''"] by simp
  qed
qed

lemma reparse_printable:
  assumes clean: "clean_path p" and line: "\<not> skipped_line (trim (rule_text (show_path p) x))"
    and parse: "parse_rule_line (trim (rule_text (show_path p) x)) n = Inr r" "rule_path r = p"
  shows "printable p"
proof (cases "segments p = []")
  case True
  have wf: "wf_path p" using clean by (simp add: clean_path_def)
  with True have "show_path p = ''_''" by (simp add: show_path_join)
  with True wf show ?thesis by (simp add: printable_def trimmed_def is_whitespace_def nl_char_def)
next
  case False
  have wf: "wf_path p" and plain: "\<forall>s \<in> set (segments p). plain_segment s" and eq: "CHR ''='' \<notin> set (show_path p)"
    using clean by (simp_all add: clean_path_def)
  have sp: "show_path p = join ''/'' (segments p)" using False by (simp add: show_path_join [OF wf])
  have again: "parse_path (trim (show_path p)) n = Inr p"
    using parse_rule_line_path [OF parse(1)] unfolding trim_rule_text_path [OF eq] parse(2) .
  note segs = parse_path_segments [OF again]
  have ne: "trim (show_path p) \<noteq> ''_''" using segs False by (auto split: if_splits)
  then have "segments p = filter (\<lambda>s. s \<noteq> []) (split_on (CHR ''/'') (trim (show_path p)))" using segs by simp
  then have "show_path p = join ''/'' (filter (\<lambda>s. s \<noteq> []) (split_on (CHR ''/'') (trim (show_path p))))"
    by (rule trans [OF sp arg_cong [where f = "join ''/''"]])
  then have "length (show_path p) \<le> length (join ''/'' (split_on (CHR ''/'') (trim (show_path p))))"
    using length_join_filter by metis
  then have "length (show_path p) \<le> length (trim (show_path p))" by simp
  then have t: "trimmed (show_path p)" by (intro length_trim(2) antisym length_trim(1))
  have "segments p \<noteq> [''_'']"
  proof
    assume "segments p = [''_'']"
    then have "show_path p = ''_''" unfolding sp by simp
    then show False using ne t by simp
  qed
  moreover have "hd (show_path p) \<noteq> CHR ''#''"
  proof
    assume h: "hd (show_path p) = CHR ''#''"
    have "show_path p \<noteq> []" using plain False sp by (cases "segments p" rule: remdups_adj.cases) (auto simp: plain_segment_def)
    then obtain w where "show_path p = CHR ''#'' # w" using h by (cases "show_path p") auto
    moreover have "\<not> is_whitespace (CHR ''#'')" by (simp add: is_whitespace_def)
    ultimately have "trim (rule_text (show_path p) x) = CHR ''#'' # w @ '' = '' @ policy_string x"
      by (subst trim_id) (auto simp: rule_text_def trimmed_def)
    then show False using line by (simp add: skipped_line_def starts_with_def)
  qed
  ultimately show ?thesis using clean t by (simp add: printable_def clean_path_def Let_def)
qed

lemma parse_lines_length: "parse_lines n ls = Inr rules \<Longrightarrow> length rules \<le> length ls"
  by (induction n ls arbitrary: rules rule: parse_lines.induct)
    (fastforce simp: Let_def result_iff split: if_splits)+

lemma renumber_simps [simp]:
  "renumber n [] = []" "renumber n (r # rules) = r\<lparr>rule_line := n + 1\<rparr> # renumber (n + 1) rules"
  "length (renumber n rules) = length rules"
  by (simp_all add: renumber_def)

lemma reparse_lines_printable:
  assumes "parse_lines n (map (\<lambda>r. rule_text (show_path (rule_path r)) (rule_policy r)) rules) = Inr (renumber n rules)"
    and "\<And>r. r \<in> set rules \<Longrightarrow> clean_path (rule_path r)"
    and "r \<in> set rules"
  shows "printable (rule_path r)"
  using assms
proof (induction rules arbitrary: n)
  case (Cons q rules)
  let ?text = "\<lambda>r. rule_text (show_path (rule_path r)) (rule_policy r)"
  have ns: "\<not> skipped_line (trim (?text q))"
  proof
    assume "skipped_line (trim (?text q))"
    then have "parse_lines (n + 1) (map ?text rules) = Inr (renumber n (q # rules))"
      using Cons.prems(1) by simp
    from parse_lines_length [OF this] show False by simp
  qed
  then obtain q' where q': "parse_rule_line (trim (?text q)) (n + 1) = Inr q'" "rule_path q' = rule_path q"
    and rest: "parse_lines (n + 1) (map ?text rules) = Inr (renumber (n + 1) rules)"
    using Cons.prems(1) by (auto simp: Let_def result_iff)
  have "printable (rule_path q)" by (rule reparse_printable [OF _ ns q']) (simp add: Cons.prems(2))
  then show ?case using Cons.IH [OF rest] Cons.prems(2,3) by auto
qed simp

lemma render_lines:
  assumes "\<And>r. r \<in> set rules \<Longrightarrow> nl_char \<notin> set (show_path (rule_path r))"
  shows "parse_str (render_rules rules)
     = parse_lines 0 (map (\<lambda>r. rule_text (show_path (rule_path r)) (rule_policy r)) rules)"
proof -
  let ?ls = "map (\<lambda>r. rule_text (show_path (rule_path r)) (rule_policy r)) rules"
  have "render_rules rules = concat (map (\<lambda>l. l @ [nl_char]) ?ls)"
    by (simp add: render_rules_def comp_def)
  moreover have "lines (concat (map (\<lambda>l. l @ [nl_char]) ?ls)) = ?ls"
    using assms nl_char_neq by (intro lines_concat) (auto simp: rule_text_def strip_cr_def)
  ultimately show ?thesis by (simp add: parse_str_def)
qed

lemma render_roundtrip_iff:
  assumes "parse_str c = Inr rules"
  shows "parse_str (render_rules rules) = Inr (renumber 0 rules) \<longleftrightarrow> (\<forall>r \<in> set rules. printable (rule_path r))"
proof
  have clean: "clean_path (rule_path r)" if "r \<in> set rules" for r using parse_str_clean [OF assms that] .
  assume "parse_str (render_rules rules) = Inr (renumber 0 rules)"
  then have "parse_lines 0 (map (\<lambda>r. rule_text (show_path (rule_path r)) (rule_policy r)) rules) = Inr (renumber 0 rules)"
    using render_lines [of rules] clean by (simp add: clean_path_def)
  then show "\<forall>r \<in> set rules. printable (rule_path r)" using reparse_lines_printable clean by blast
qed (simp add: parse_render)

section \<open>Editing against the specification\<close>














subsection \<open>Files with comments or blank lines\<close>









section \<open>Properties\<close>

text \<open>C1: evaluation of a parsed rule file decides every target as the abstract map does:
  the policy is the one of the most specific candidate path (node, flow, pack, pack
  wildcard, default) that has a rule, the last rule of that path counting.\<close>

theorem eval_policy_refines:
  assumes "parse_str contents = Inr rules"
  shows "map_option md_policy (eval_policy rules t) = decide (policy_map rules) t"
  using assms by (rule parsed_decide)

theorem eval_policy_refines_witness:
  "map_option md_policy (eval_policy
      [\<lparr>rule_path = \<lparr>pack = None, flow = None, node = None\<rparr>, rule_policy = Forbidden, rule_line = 1\<rparr>,
       \<lparr>rule_path = \<lparr>pack = Some ''a'', flow = None, node = None\<rparr>, rule_policy = Public, rule_line = 2\<rparr>]
      \<lparr>pack = Some ''a'', flow = Some ''f'', node = None\<rparr>) = Some Public"
proof -
  let ?c = "''_ = forbidden'' @ [nl_char] @ ''a = public''"
    and ?rs = "[\<lparr>rule_path = \<lparr>pack = None, flow = None, node = None\<rparr>, rule_policy = Forbidden, rule_line = 1\<rparr>,
       \<lparr>rule_path = \<lparr>pack = Some ''a'', flow = None, node = None\<rparr>, rule_policy = Public, rule_line = 2\<rparr>]"
    and ?t = "\<lparr>pack = Some ''a'', flow = Some ''f'', node = None\<rparr>"
  have "parse_str ?c = Inr ?rs" by code_simp
  then have "map_option md_policy (eval_policy ?rs ?t) = decide (policy_map ?rs) ?t"
    by (rule eval_policy_refines)
  also have "\<dots> = Some Public" by code_simp
  finally show ?thesis .
qed

text \<open>C16: a team file overrides the tenant file target by target, and only where it has a
  rule that matches: otherwise the tenant's decision stands.\<close>

theorem overlay_team_over_tenant:
  assumes "parse_str tenant_text = Inr tenant" and "parse_str team_text = Inr team"
  shows "map_option md_policy (eval_with_overlay tenant team t) =
    (case decide (policy_map team) t of Some x \<Rightarrow> Some x | None \<Rightarrow> decide (policy_map tenant) t)"
  using parsed_decide [OF assms(1), of t] parsed_decide [OF assms(2), of t]
  by (auto simp: eval_with_overlay_def split: option.split)

theorem overlay_team_over_tenant_witness:
  "map_option md_policy (eval_with_overlay
      [\<lparr>rule_path = \<lparr>pack = None, flow = None, node = None\<rparr>, rule_policy = Public, rule_line = 1\<rparr>]
      [\<lparr>rule_path = \<lparr>pack = Some ''a'', flow = None, node = None\<rparr>, rule_policy = Forbidden, rule_line = 1\<rparr>]
      \<lparr>pack = Some ''a'', flow = Some ''f'', node = None\<rparr>) = Some Forbidden"
proof -
  let ?tenant = "[\<lparr>rule_path = \<lparr>pack = None, flow = None, node = None\<rparr>, rule_policy = Public, rule_line = 1\<rparr>]"
    and ?team = "[\<lparr>rule_path = \<lparr>pack = Some ''a'', flow = None, node = None\<rparr>, rule_policy = Forbidden, rule_line = 1\<rparr>]"
    and ?t = "\<lparr>pack = Some ''a'', flow = Some ''f'', node = None\<rparr>"
  have "parse_str ''_ = public'' = Inr ?tenant" "parse_str ''a = forbidden'' = Inr ?team"
    by code_simp+
  then have "map_option md_policy (eval_with_overlay ?tenant ?team ?t) =
    (case decide (policy_map ?team) ?t of Some x \<Rightarrow> Some x | None \<Rightarrow> decide (policy_map ?tenant) ?t)"
    by (rule overlay_team_over_tenant)
  also have "\<dots> = Some Forbidden" by code_simp
  finally show ?thesis .
qed

text \<open>C17: for the rules of any file that parses, rendering them and parsing the text gives the
  same rules in the same order, with their lines renumbered, exactly when the displayed form of
  every path reads back: no path displays untrimmed or with a leading \<open>#\<close>, and none has the
  one segment \<open>_\<close>.\<close>

theorem render_parse_roundtrip:
  assumes "parse_str c = Inr rules"
  shows "parse_str (render_rules rules) = Inr (renumber 0 rules) \<longleftrightarrow> (\<forall>r \<in> set rules. printable (rule_path r))"
  using assms by (rule render_roundtrip_iff)

theorem render_parse_roundtrip_witness:
  "parse_str (render_rules
      [\<lparr>rule_path = \<lparr>pack = Some ''a'', flow = Some ''f'', node = None\<rparr>, rule_policy = Public, rule_line = 2\<rparr>])
    = Inr [\<lparr>rule_path = \<lparr>pack = Some ''a'', flow = Some ''f'', node = None\<rparr>, rule_policy = Public, rule_line = 1\<rparr>]
   \<and> parse_str (render_rules
      [\<lparr>rule_path = \<lparr>pack = Some ''#a'', flow = None, node = None\<rparr>, rule_policy = Public, rule_line = 1\<rparr>])
    \<noteq> Inr [\<lparr>rule_path = \<lparr>pack = Some ''#a'', flow = None, node = None\<rparr>, rule_policy = Public, rule_line = 1\<rparr>]"
proof -
  let ?r = "\<lambda>n. \<lparr>rule_path = \<lparr>pack = Some ''a'', flow = Some ''f'', node = None\<rparr>, rule_policy = Public, rule_line = n\<rparr>"
    and ?q = "\<lparr>rule_path = \<lparr>pack = Some ''#a'', flow = None, node = None\<rparr>, rule_policy = Public, rule_line = 1\<rparr>"
  have p: "parse_str ([nl_char] @ ''a//f = public'') = Inr [?r 2]" "parse_str ''/#a = public'' = Inr [?q]"
    "printable (rule_path (?r 2))" "\<not> printable (rule_path ?q)"
    by code_simp+
  have a: "\<forall>r \<in> set [?r 2]. printable (rule_path r)" "\<not> (\<forall>r \<in> set [?q]. printable (rule_path r))"
    using p(3,4) by simp_all
  have n: "renumber 0 [?r 2] = [?r 1]" "renumber 0 [?q] = [?q]" by simp_all
  have "parse_str (render_rules [?r 2]) = Inr [?r 1]"
    by (rule iffD2 [OF render_parse_roundtrip [OF p(1)] a(1), unfolded n])
  moreover have "parse_str (render_rules [?q]) \<noteq> Inr [?q]"
    by (rule contrapos_nn [OF a(2)]) (rule iffD1 [OF render_parse_roundtrip [OF p(2), unfolded n]])
  ultimately show ?thesis by (rule conjI)
qed



text \<open>What the exceptions come to. An edit of another path turns a rule for a pack named \<open>_\<close> into
  the default rule of all packs, and a rule for a pack whose name begins with \<open>#\<close> into a comment.\<close>

lemma edit_loses_unprintable:
  "parse_str ''_/ = public'' = Inr [\<lparr>rule_path = \<lparr>pack = Some ''_'', flow = None, node = None\<rparr>, rule_policy = Public, rule_line = 1\<rparr>]
   \<and> upsert_policy (Some ''_/ = public'') ''b'' Forbidden = Inr (''_ = public'' @ [nl_char] @ ''b = forbidden'' @ [nl_char])
   \<and> upsert_policy (Some ''/#a = forbidden'') ''b'' Public = Inr (''#a = forbidden'' @ [nl_char] @ ''b = public'' @ [nl_char])"
  by code_simp

text \<open>On a file with a comment the editor writes a path it never parses. A path with
  four segments is refused on a file without comments, but is appended to a commented
  file, which then no longer parses at all.\<close>

lemma upsert_commented_breaks_file:
  "upsert_policy (Some (''# rules'' @ [nl_char])) ''a/b/c/d'' Forbidden
     = Inr (''# rules'' @ [nl_char, nl_char] @ ''a/b/c/d = forbidden'' @ [nl_char])
   \<and> parse_str (''# rules'' @ [nl_char]) = Inr []
   \<and> parse_str (''# rules'' @ [nl_char, nl_char] @ ''a/b/c/d = forbidden'' @ [nl_char]) = Inl (TooManySegments 3)
   \<and> upsert_policy (Some []) ''a/b/c/d'' Forbidden = Inl (TooManySegments 0)"
  by code_simp

end
