(* ===== verification/Domains.thy ===== *)
theory Domains
  imports Prelude Json "HOL-Library.Multiset"
begin

text \<open>
  Provider domains and packs (\<open>src/domains/mod.rs\<close>): the four domains and their
  configuration, decoding of pack manifests whose strings may be symbol-table indices,
  discovery of the packs under a bundle, and the plan of the flows to run. Archives and
  the CBOR codec are outside the model: reading a manifest is a parameter.
\<close>

section \<open>Domains\<close>

datatype domain = Messaging | Events | Secrets | OAuth

datatype domain_action = Setup | Diagnostics | Verify

record domain_config =
  providers_dir :: string
  setup_flow :: string
  diagnostics_flow :: string
  verify_flows :: "string list"

definition config :: "domain \<Rightarrow> domain_config" where
  "config d =
     (case d of
        Messaging \<Rightarrow> \<lparr>providers_dir = ''providers/messaging'', setup_flow = ''setup_default'',
          diagnostics_flow = ''diagnostics'', verify_flows = [''verify_webhooks'']\<rparr>
      | Events \<Rightarrow> \<lparr>providers_dir = ''providers/events'', setup_flow = ''setup_default'',
          diagnostics_flow = ''diagnostics'', verify_flows = [''verify_subscriptions'']\<rparr>
      | Secrets \<Rightarrow> \<lparr>providers_dir = ''providers/secrets'', setup_flow = ''setup_default'',
          diagnostics_flow = ''diagnostics'', verify_flows = []\<rparr>
      | OAuth \<Rightarrow> \<lparr>providers_dir = ''providers/oauth'', setup_flow = ''setup_default'',
          diagnostics_flow = ''diagnostics'', verify_flows = []\<rparr>)"

definition domain_name :: "domain \<Rightarrow> string" where
  "domain_name d =
     (case d of Messaging \<Rightarrow> ''messaging'' | Events \<Rightarrow> ''events''
      | Secrets \<Rightarrow> ''secrets'' | OAuth \<Rightarrow> ''oauth'')"

section \<open>Manifests\<close>

record pack_meta =
  meta_pack_id :: string
  meta_entry_flows :: "string list"

record pack_flow =
  pf_id :: string
  pf_entrypoints :: "string list"

record pack_manifest =
  mf_meta :: "pack_meta option"
  mf_pack_id :: "string option"
  mf_flows :: "pack_flow list"

datatype manifest_error =
    NotAMap
  | MetaNotAMap
  | ExpectedString
  | ExpectedArray
  | AtIndex manifest_error nat
  | PackIdMissing
  | FlowsNotAnArray
  | FlowNotAMap nat
  | FlowIdMissing nat
  | InvalidType string
  | Undecodable manifest_error
  | CborError string

type_synonym cbor_map = "(cbor \<times> cbor) list"

fun map_get :: "cbor_map \<Rightarrow> string \<Rightarrow> cbor option" where
  "map_get [] key = None"
| "map_get ((k, v) # rest) key = (if k = CText key then Some v else map_get rest key)"

definition symbols_map :: "cbor_map \<Rightarrow> cbor_map option" where
  "symbols_map m = (case map_get m ''symbols'' of Some (CMap s) \<Rightarrow> Some s | _ \<Rightarrow> None)"

definition usize_of :: "int \<Rightarrow> nat option" where
  "usize_of i = (if 0 \<le> i \<and> i < 2 ^ 64 then Some (nat i) else None)"

definition stripped_key :: "string \<Rightarrow> string option" where
  "stripped_key key = strip_suffix ''s'' key"

definition value_is_string_or_symbol :: "cbor \<Rightarrow> cbor_map option \<Rightarrow> string \<Rightarrow> bool" where
  "value_is_string_or_symbol v symbols symbol_key =
     (case v of
        CText _ \<Rightarrow> True
      | CInteger idx \<Rightarrow>
          (case symbols of None \<Rightarrow> True
           | Some s \<Rightarrow>
               (case opt_or (map_get s symbol_key)
                       (map_get s (opt_unwrap_or (stripped_key symbol_key) symbol_key)) of
                  Some (CArray vals) \<Rightarrow>
                    (case usize_of idx of None \<Rightarrow> True
                     | Some i \<Rightarrow> (case nth_opt vals i of Some (CText _) \<Rightarrow> True | _ \<Rightarrow> False))
                | _ \<Rightarrow> True))
      | _ \<Rightarrow> False)"

definition symbol_array :: "cbor_map \<Rightarrow> string \<Rightarrow> cbor list option" where
  "symbol_array s key =
     (case map_get s key of
        Some (CArray vals) \<Rightarrow> Some vals
      | _ \<Rightarrow> (case stripped_key key of None \<Rightarrow> None
              | Some k \<Rightarrow> (case map_get s k of Some (CArray vals) \<Rightarrow> Some vals | _ \<Rightarrow> None)))"

text \<open>A negative index becomes \<open>usize::MAX\<close>, which no array reaches.\<close>

definition resolve_string_symbol ::
  "cbor option \<Rightarrow> cbor_map option \<Rightarrow> string \<Rightarrow> (manifest_error, string option) result" where
  "resolve_string_symbol v symbols symbol_key =
     (case v of
        None \<Rightarrow> Inr None
      | Some (CText text) \<Rightarrow> Inr (Some text)
      | Some (CInteger idx) \<Rightarrow>
          (case symbols of None \<Rightarrow> Inr (Some (show_int idx))
           | Some s \<Rightarrow>
               (case symbol_array s symbol_key of None \<Rightarrow> Inr (Some (show_int idx))
                | Some vals \<Rightarrow>
                    (case nth_opt vals (opt_unwrap_or (usize_of idx) (2 ^ 64 - 1)) of
                       Some (CText text) \<Rightarrow> Inr (Some text)
                     | _ \<Rightarrow> Inr (Some (show_int
                              (case usize_of idx of Some _ \<Rightarrow> idx | None \<Rightarrow> 2 ^ 64 - 1))))))
      | Some _ \<Rightarrow> Inl ExpectedString)"

fun resolve_strings ::
  "nat \<Rightarrow> cbor list \<Rightarrow> cbor_map option \<Rightarrow> string \<Rightarrow> string option \<Rightarrow> (manifest_error, string list) result" where
  "resolve_strings idx [] symbols key fallback = Inr []"
| "resolve_strings idx (v # rest) symbols key fallback =
     (case resolve_string_symbol (Some v) symbols key of
        Inr (Some t) \<Rightarrow> rbind (resolve_strings (idx + 1) rest symbols key fallback) (\<lambda>ts. Inr (t # ts))
      | Inr None \<Rightarrow> resolve_strings (idx + 1) rest symbols key fallback
      | Inl err \<Rightarrow>
          (case Option.bind fallback (\<lambda>fk. Option.bind (ok_opt (resolve_string_symbol (Some v) symbols fk)) (\<lambda>t. t)) of
             Some t \<Rightarrow> rbind (resolve_strings (idx + 1) rest symbols key fallback) (\<lambda>ts. Inr (t # ts))
           | None \<Rightarrow> Inl (AtIndex err idx)))"

definition resolve_string_array ::
  "cbor option \<Rightarrow> cbor_map option \<Rightarrow> string \<Rightarrow> string option \<Rightarrow> (manifest_error, string list) result" where
  "resolve_string_array v symbols key fallback =
     (case v of
        None \<Rightarrow> Inr []
      | Some (CArray vals) \<Rightarrow> resolve_strings 0 vals symbols key fallback
      | Some _ \<Rightarrow> Inl ExpectedArray)"

fun decode_flows :: "nat \<Rightarrow> cbor list \<Rightarrow> cbor_map option \<Rightarrow> (manifest_error, pack_flow list) result" where
  "decode_flows idx [] symbols = Inr []"
| "decode_flows idx (v # rest) symbols =
     (case v of
        CMap flow \<Rightarrow>
          rbind (resolve_string_symbol (map_get flow ''id'') symbols ''flow_ids'') (\<lambda>id_opt.
          rbind (ok_or (FlowIdMissing idx) id_opt) (\<lambda>id.
          rbind (resolve_string_array (map_get flow ''entrypoints'') symbols ''entrypoints'' None) (\<lambda>eps.
          rbind (decode_flows (idx + 1) rest symbols) (\<lambda>flows.
            Inr (\<lparr>pf_id = id, pf_entrypoints = eps\<rparr> # flows)))))
      | _ \<Rightarrow> Inl (FlowNotAMap idx))"

definition decode_meta ::
  "cbor_map \<Rightarrow> cbor_map option \<Rightarrow> (manifest_error, string option \<times> string list) result" where
  "decode_meta m symbols =
     (case map_get m ''meta'' of
        None \<Rightarrow> Inr (None, [])
      | Some (CMap meta_map) \<Rightarrow>
          rbind (resolve_string_symbol (map_get meta_map ''pack_id'') symbols ''pack_ids'') (\<lambda>id.
          rbind (resolve_string_array (map_get meta_map ''entry_flows'') symbols ''flow_ids''
                   (Some ''entrypoints'')) (\<lambda>flows. Inr (id, flows)))
      | Some _ \<Rightarrow> Inl MetaNotAMap)"

definition decode_manifest_lenient :: "cbor \<Rightarrow> (manifest_error, pack_manifest) result" where
  "decode_manifest_lenient v =
     (case v of
        CMap m \<Rightarrow>
          (let symbols = symbols_map m in
           rbind (decode_meta m symbols) (\<lambda>(meta_id, entry_flows).
           rbind (resolve_string_symbol (map_get m ''pack_id'') symbols ''pack_ids'') (\<lambda>own_id.
           rbind (ok_or PackIdMissing (opt_or own_id meta_id)) (\<lambda>pack_id.
           rbind (case map_get m ''flows'' of
                    None \<Rightarrow> Inr []
                  | Some (CArray vals) \<Rightarrow> decode_flows 0 vals symbols
                  | Some _ \<Rightarrow> Inl FlowsNotAnArray) (\<lambda>flows.
             Inr \<lparr>mf_meta = Some \<lparr>meta_pack_id = pack_id, meta_entry_flows = entry_flows\<rparr>,
                  mf_pack_id = None, mf_flows = flows\<rparr>)))))
      | _ \<Rightarrow> Inl NotAMap)"

text \<open>The first entry of an array that is neither a string nor a symbol.\<close>

fun first_mismatch :: "nat \<Rightarrow> cbor list \<Rightarrow> cbor_map option \<Rightarrow> string \<Rightarrow> nat option" where
  "first_mismatch idx [] symbols key = None"
| "first_mismatch idx (v # rest) symbols key =
     (if value_is_string_or_symbol v symbols key then first_mismatch (idx + 1) rest symbols key
      else Some idx)"

definition bad_string :: "cbor option \<Rightarrow> cbor_map option \<Rightarrow> string \<Rightarrow> bool" where
  "bad_string v symbols key =
     (case v of None \<Rightarrow> False | Some w \<Rightarrow> \<not> value_is_string_or_symbol w symbols key)"

definition index_text :: "nat \<Rightarrow> string" where
  "index_text i = ''['' @ show_nat i @ '']''"

text \<open>The mismatch in an optional array at a given path, if any.\<close>

definition array_mismatch :: "string \<Rightarrow> cbor option \<Rightarrow> cbor_map option \<Rightarrow> string \<Rightarrow> string option" where
  "array_mismatch at v symbols key =
     (case v of
        None \<Rightarrow> None
      | Some (CArray vals) \<Rightarrow> map_option (\<lambda>i. at @ index_text i) (first_mismatch 0 vals symbols key)
      | Some _ \<Rightarrow> Some at)"

fun flows_mismatch :: "nat \<Rightarrow> cbor list \<Rightarrow> cbor_map option \<Rightarrow> string option" where
  "flows_mismatch idx [] symbols = None"
| "flows_mismatch idx (v # rest) symbols =
     (case v of
        CMap flow \<Rightarrow>
          (if bad_string (map_get flow ''id'') symbols ''flow_ids''
           then Some (''flows'' @ index_text idx @ ''.id'')
           else (case array_mismatch (''flows'' @ index_text idx @ ''.entrypoints'')
                         (map_get flow ''entrypoints'') symbols ''entrypoints'' of
                   Some p \<Rightarrow> Some p
                 | None \<Rightarrow> flows_mismatch (idx + 1) rest symbols))
      | _ \<Rightarrow> Some (''flows'' @ index_text idx))"

definition meta_mismatch :: "cbor_map \<Rightarrow> cbor_map option \<Rightarrow> string option" where
  "meta_mismatch m symbols =
     (case map_get m ''meta'' of
        None \<Rightarrow> None
      | Some (CMap meta_map) \<Rightarrow>
          (if bad_string (map_get meta_map ''pack_id'') symbols ''pack_ids'' then Some ''meta.pack_id''
           else array_mismatch ''meta.entry_flows'' (map_get meta_map ''entry_flows'') symbols ''flow_ids'')
      | Some _ \<Rightarrow> Some ''meta'')"

definition find_manifest_string_type_mismatch :: "cbor \<Rightarrow> string option" where
  "find_manifest_string_type_mismatch v =
     (case v of
        CMap m \<Rightarrow>
          (let symbols = symbols_map m in
           if bad_string (map_get m ''pack_id'') symbols ''pack_ids'' then Some ''pack_id''
           else (case meta_mismatch m symbols of
                   Some p \<Rightarrow> Some p
                 | None \<Rightarrow>
                     (case map_get m ''flows'' of
                        None \<Rightarrow> None
                      | Some (CArray vals) \<Rightarrow> flows_mismatch 0 vals symbols
                      | Some _ \<Rightarrow> Some ''flows'')))
      | _ \<Rightarrow> None)"

text \<open>\<open>parse_manifest_cbor_bytes\<close>, with the CBOR decoder as a parameter.\<close>

definition parse_manifest_cbor_bytes ::
  "('b \<Rightarrow> (string, cbor) result) \<Rightarrow> 'b \<Rightarrow> (manifest_error, pack_manifest) result" where
  "parse_manifest_cbor_bytes from_slice bytes =
     rbind (map_err CborError (from_slice bytes)) (\<lambda>v.
       (case decode_manifest_lenient v of
          Inr m \<Rightarrow> Inr m
        | Inl decode_err \<Rightarrow>
            (case find_manifest_string_type_mismatch v of
               Some p \<Rightarrow> Inl (InvalidType p)
             | None \<Rightarrow> Inl (Undecodable decode_err))))"

definition build_pack_meta :: "pack_manifest \<Rightarrow> path \<Rightarrow> pack_meta" where
  "build_pack_meta m p =
     (let pack_id = opt_unwrap_or (opt_or (map_option meta_pack_id (mf_meta m)) (mf_pack_id m))
                      (opt_unwrap_or (file_stem p) ''pack'');
          flows0 = (case mf_meta m of None \<Rightarrow> [] | Some meta \<Rightarrow> meta_entry_flows meta);
          flows1 = (if flows0 = [] then concat (map (\<lambda>f. pf_id f # pf_entrypoints f) (mf_flows m)) else flows0);
          flows2 = (if flows1 = [] then [pack_id] else flows1)
      in \<lparr>meta_pack_id = pack_id, meta_entry_flows = flows2\<rparr>)"

section \<open>Discovery\<close>

record provider_pack =
  pp_pack_id :: string
  pp_file_name :: string
  pp_path :: path
  pp_entry_flows :: "string list"

datatype 'e discovery_error = InvalidPackFileName path | ManifestFailed 'e | PackMetaMissing path

text \<open>A directory tree, in the order \<open>read_dir\<close> lists it.\<close>

datatype dir_entry = FileEntry | DirEntry "(string \<times> dir_entry) list"

fun subdirs :: "path \<Rightarrow> (string \<times> dir_entry) list \<Rightarrow> (path \<times> (string \<times> dir_entry) list) list" where
  "subdirs dir [] = []"
| "subdirs dir ((name, FileEntry) # es) = subdirs dir es"
| "subdirs dir ((name, DirEntry ds) # es) = (path_join dir name, ds) # subdirs dir es"

fun gtpack_files :: "path \<Rightarrow> (string \<times> dir_entry) list \<Rightarrow> path list" where
  "gtpack_files dir [] = []"
| "gtpack_files dir ((name, FileEntry) # es) =
     (if extension (path_join dir name) = Some ''gtpack''
      then path_join dir name # gtpack_files dir es else gtpack_files dir es)"
| "gtpack_files dir ((name, DirEntry ds) # es) = gtpack_files dir es"

fun entries_weight :: "(string \<times> dir_entry) list \<Rightarrow> nat"
  and entry_weight :: "dir_entry \<Rightarrow> nat" where
  "entries_weight [] = 0"
| "entries_weight ((n, e) # es) = entry_weight e + entries_weight es"
| "entry_weight FileEntry = 0"
| "entry_weight (DirEntry ds) = Suc (entries_weight ds)"

lemma subdirs_weight:
  "(\<Sum>(d, es) \<leftarrow> subdirs dir es. Suc (entries_weight es)) = entries_weight es"
  by (induction dir es rule: subdirs.induct) auto

text \<open>The work list is a stack: the directories found last are read first.\<close>

function collect_stack :: "(path \<times> (string \<times> dir_entry) list) list \<Rightarrow> path list" where
  "collect_stack [] = []"
| "collect_stack ((dir, es) # stack) =
     gtpack_files dir es @ collect_stack (rev (subdirs dir es) @ stack)"
  by pat_completeness auto
termination
proof (relation "measure (\<lambda>stack. \<Sum>(d, es) \<leftarrow> stack. Suc (entries_weight es))")
  fix dir :: path and es :: "(string \<times> dir_entry) list" and stack
  show "(rev (subdirs dir es) @ stack, (dir, es) # stack)
      \<in> measure (\<lambda>stack. \<Sum>(d, es) \<leftarrow> stack. Suc (entries_weight es))"
    using subdirs_weight [of dir es] by (simp add: rev_map [symmetric] sum_list_rev)
qed simp

definition collect_gtpacks :: "path \<Rightarrow> (string \<times> dir_entry) list \<Rightarrow> path list" where
  "collect_gtpacks root es = collect_stack [(root, es)]"

text \<open>\<open>append_pack\<close> keeps the packs read so far and the set of paths seen.\<close>

definition append_pack ::
  "(path \<Rightarrow> ('e, pack_manifest) result) \<Rightarrow> path \<Rightarrow> provider_pack list \<times> path set
     \<Rightarrow> ('e discovery_error, provider_pack list \<times> path set) result" where
  "append_pack read_manifest p st =
     (let (packs, seen) = st in
      if p \<in> seen then Inr (packs, seen)
      else
        rbind (ok_or (InvalidPackFileName p) (file_name p)) (\<lambda>name.
        rbind (map_err ManifestFailed (read_manifest p)) (\<lambda>m.
        rbind (ok_or (PackMetaMissing p) (mf_meta m)) (\<lambda>meta.
          Inr (packs @ [\<lparr>pp_pack_id = meta_pack_id meta, pp_file_name = name, pp_path = p,
                          pp_entry_flows = meta_entry_flows meta\<rparr>], insert p seen)))))"

fun append_packs ::
  "(path \<Rightarrow> ('e, pack_manifest) result) \<Rightarrow> path list \<Rightarrow> provider_pack list \<times> path set
     \<Rightarrow> ('e discovery_error, provider_pack list \<times> path set) result" where
  "append_packs read_manifest [] st = Inr st"
| "append_packs read_manifest (p # ps) st =
     rbind (append_pack read_manifest p st) (\<lambda>st'. append_packs read_manifest ps st')"

text \<open>\<open>tree d\<close> is the content of directory \<open>d\<close>, \<open>None\<close> when it does not exist.\<close>

definition append_packs_from_root ::
  "(path \<Rightarrow> (string \<times> dir_entry) list option) \<Rightarrow> (path \<Rightarrow> ('e, pack_manifest) result) \<Rightarrow> path
     \<Rightarrow> provider_pack list \<times> path set \<Rightarrow> ('e discovery_error, provider_pack list \<times> path set) result" where
  "append_packs_from_root tree read_manifest root st =
     (case tree root of None \<Rightarrow> Inr st
      | Some es \<Rightarrow> append_packs read_manifest (collect_gtpacks root es) st)"

definition discover_provider_packs ::
  "(path \<Rightarrow> (string \<times> dir_entry) list option) \<Rightarrow> (path \<Rightarrow> ('e, pack_manifest) result) \<Rightarrow> path \<Rightarrow> domain
     \<Rightarrow> ('e discovery_error, provider_pack list) result" where
  "discover_provider_packs tree read_manifest root d =
     rbind (append_packs_from_root tree read_manifest (path_join root (providers_dir (config d))) ([], {})) (\<lambda>st.
     rbind (append_packs_from_root tree read_manifest (path_join root ''packs'') st) (\<lambda>(packs, seen).
       Inr (sort_key pp_file_name packs)))"

section \<open>Planning runs\<close>

record planned_run =
  pr_pack :: provider_pack
  pr_flow_id :: string

datatype plan_error = MissingRequiredFlow string string

definition action_flows :: "domain \<Rightarrow> domain_action \<Rightarrow> string list" where
  "action_flows d a =
     (case a of Setup \<Rightarrow> [setup_flow (config d)]
      | Diagnostics \<Rightarrow> [diagnostics_flow (config d)]
      | Verify \<Rightarrow> verify_flows (config d))"

definition pack_selected :: "string option \<Rightarrow> provider_pack \<Rightarrow> bool" where
  "pack_selected provider_filter p =
     (case provider_filter of
        None \<Rightarrow> True
      | Some f \<Rightarrow>
          (let stem = opt_unwrap_or (strip_suffix ''.gtpack'' (pp_file_name p)) (pp_file_name p)
           in pp_pack_id p = f \<or> pp_file_name p = f \<or> stem = f
              \<or> contains_str f (pp_pack_id p) \<or> contains_str f (pp_file_name p) \<or> contains_str f stem))"

fun plan_flows ::
  "domain_action \<Rightarrow> bool \<Rightarrow> provider_pack \<Rightarrow> string list \<Rightarrow> (plan_error, planned_run list) result" where
  "plan_flows action allow_missing p [] = Inr []"
| "plan_flows action allow_missing p (f # fs) =
     (if f \<notin> set (pp_entry_flows p)
      then if action = Setup \<and> \<not> allow_missing
           then Inl (MissingRequiredFlow f (pp_file_name p))
           else plan_flows action allow_missing p fs
      else rbind (plan_flows action allow_missing p fs) (\<lambda>plan.
             Inr (\<lparr>pr_pack = p, pr_flow_id = f\<rparr> # plan)))"

fun plan_packs ::
  "domain_action \<Rightarrow> bool \<Rightarrow> string option \<Rightarrow> string list \<Rightarrow> provider_pack list
     \<Rightarrow> (plan_error, planned_run list) result" where
  "plan_packs action allow_missing flt flows [] = Inr []"
| "plan_packs action allow_missing flt flows (p # ps) =
     (if \<not> pack_selected flt p then plan_packs action allow_missing flt flows ps
      else rbind (plan_flows action allow_missing p flows) (\<lambda>here.
           rbind (plan_packs action allow_missing flt flows ps) (\<lambda>rest. Inr (here @ rest))))"

definition plan_runs ::
  "domain \<Rightarrow> domain_action \<Rightarrow> provider_pack list \<Rightarrow> string option \<Rightarrow> bool
     \<Rightarrow> (plan_error, planned_run list) result" where
  "plan_runs d action packs provider_filter allow_missing_setup =
     plan_packs action allow_missing_setup provider_filter (action_flows d action) packs"

section \<open>Decoding agrees with the type check\<close>

text \<open>The decoding errors that are not about a value of the wrong type.\<close>

fun missing_error :: "manifest_error \<Rightarrow> bool" where
  "missing_error NotAMap = True"
| "missing_error PackIdMissing = True"
| "missing_error (FlowIdMissing _) = True"
| "missing_error _ = False"

lemma string_or_symbol_cases:
  "value_is_string_or_symbol v symbols key \<Longrightarrow> (\<exists>t. v = CText t) \<or> (\<exists>i. v = CInteger i)"
  by (cases v) (auto simp: value_is_string_or_symbol_def)

lemma string_or_symbol_resolves:
  "value_is_string_or_symbol v symbols key \<Longrightarrow> \<exists>t. resolve_string_symbol (Some v) symbols key' = Inr (Some t)"
  by (auto dest!: string_or_symbol_cases simp: resolve_string_symbol_def
      split: option.split cbor.split)

lemma good_string_resolves:
  assumes "\<not> bad_string v symbols key"
  shows "\<exists>t. resolve_string_symbol v symbols key = Inr t"
proof (cases v)
  case None
  then show ?thesis by (simp add: resolve_string_symbol_def)
next
  case (Some w)
  then have "value_is_string_or_symbol w symbols key" using assms by (simp add: bad_string_def)
  from string_or_symbol_resolves [OF this, of key] show ?thesis using Some by auto
qed

lemma first_mismatch_None:
  "first_mismatch idx vs symbols key = None \<longleftrightarrow> (\<forall>v \<in> set vs. value_is_string_or_symbol v symbols key)"
  by (induction idx vs symbols key rule: first_mismatch.induct) auto

lemma resolve_strings_total:
  "(\<forall>v \<in> set vs. value_is_string_or_symbol v symbols key) \<Longrightarrow>
   \<exists>ts. resolve_strings idx vs symbols key' fb = Inr ts"
proof (induction vs arbitrary: idx)
  case Nil
  then show ?case by simp
next
  case (Cons v vs)
  then obtain t where t: "resolve_string_symbol (Some v) symbols key' = Inr (Some t)"
    using string_or_symbol_resolves [of v symbols key key'] by auto
  obtain ts where "resolve_strings (idx + 1) vs symbols key' fb = Inr ts"
    using Cons.IH [of "idx + 1"] Cons.prems by auto
  with t show ?case by simp
qed

lemma array_mismatch_None:
  "array_mismatch at v symbols key = None \<Longrightarrow> \<exists>ts. resolve_string_array v symbols key fb = Inr ts"
  by (auto simp: array_mismatch_def resolve_string_array_def first_mismatch_None
      intro: resolve_strings_total split: option.splits cbor.splits)

lemma meta_mismatch_None:
  "meta_mismatch m symbols = None \<Longrightarrow> \<exists>x. decode_meta m symbols = Inr x"
  by (auto simp: meta_mismatch_def decode_meta_def result_iff
      dest!: good_string_resolves array_mismatch_None [where fb = "Some ''entrypoints''"]
      split: option.splits cbor.splits if_splits)

lemma flows_mismatch_None:
  "flows_mismatch idx vs symbols = None \<Longrightarrow> decode_flows idx vs symbols = Inl e \<Longrightarrow> missing_error e"
proof (induction idx vs symbols arbitrary: e rule: decode_flows.induct)
  case (1 idx symbols)
  then show ?case by simp
next
  case (2 idx v rest symbols)
  then obtain flow where v: "v = CMap flow" by (cases v) auto
  then have id: "\<not> bad_string (map_get flow ''id'') symbols ''flow_ids''"
    and eps: "array_mismatch (''flows'' @ index_text idx @ ''.entrypoints'')
        (map_get flow ''entrypoints'') symbols ''entrypoints'' = None"
    and rest: "flows_mismatch (idx + 1) rest symbols = None"
    using "2.prems"(1) by (auto split: if_splits option.splits)
  obtain x where x: "resolve_string_symbol (map_get flow ''id'') symbols ''flow_ids'' = Inr x"
    using good_string_resolves [OF id] by blast
  obtain ts where ts: "resolve_string_array (map_get flow ''entrypoints'') symbols ''entrypoints'' None = Inr ts"
    using array_mismatch_None [OF eps] by blast
  show ?case
  proof (cases x)
    case None
    then show ?thesis using "2.prems"(2) v x by auto
  next
    case (Some id)
    then have "decode_flows (idx + 1) rest symbols = Inl e"
      using "2.prems"(2) v x ts by (auto simp: result_iff)
    then show ?thesis using "2.IH" [OF v rest] by simp
  qed
qed

section \<open>Locations in a manifest\<close>

text \<open>
  A location is a list of steps into maps and arrays. The manifest format says what the value
  at a location must be; a location offends when the manifest has a value of another kind there.
\<close>

datatype manifest_step = Member string | Item nat

datatype manifest_kind = MapKind | ArrayKind | StringKind string

fun value_at :: "cbor \<Rightarrow> manifest_step list \<Rightarrow> cbor option" where
  "value_at v [] = Some v"
| "value_at v (Member k # steps) =
     (case v of CMap m \<Rightarrow> Option.bind (map_get m k) (\<lambda>w. value_at w steps) | _ \<Rightarrow> None)"
| "value_at v (Item i # steps) =
     (case v of CArray vals \<Rightarrow> if i < length vals then value_at (vals ! i) steps else None | _ \<Rightarrow> None)"

text \<open>The format: the names on the way to a location, \<open>None\<close> for an item, and the kind expected there.\<close>

definition manifest_format :: "(string option list \<times> manifest_kind) list" where
  "manifest_format =
     [([Some ''pack_id''], StringKind ''pack_ids''),
      ([Some ''meta''], MapKind),
      ([Some ''meta'', Some ''pack_id''], StringKind ''pack_ids''),
      ([Some ''meta'', Some ''entry_flows''], ArrayKind),
      ([Some ''meta'', Some ''entry_flows'', None], StringKind ''flow_ids''),
      ([Some ''flows''], ArrayKind),
      ([Some ''flows'', None], MapKind),
      ([Some ''flows'', None, Some ''id''], StringKind ''flow_ids''),
      ([Some ''flows'', None, Some ''entrypoints''], ArrayKind),
      ([Some ''flows'', None, Some ''entrypoints'', None], StringKind ''entrypoints'')]"

fun step_name :: "manifest_step \<Rightarrow> string option" where
  "step_name (Member k) = Some k"
| "step_name (Item i) = None"

definition expected_kind :: "manifest_step list \<Rightarrow> manifest_kind option" where
  "expected_kind loc = map_of manifest_format (map step_name loc)"

fun has_kind :: "cbor_map option \<Rightarrow> manifest_kind \<Rightarrow> cbor \<Rightarrow> bool" where
  "has_kind symbols MapKind v = (case v of CMap _ \<Rightarrow> True | _ \<Rightarrow> False)"
| "has_kind symbols ArrayKind v = (case v of CArray _ \<Rightarrow> True | _ \<Rightarrow> False)"
| "has_kind symbols (StringKind key) v = value_is_string_or_symbol v symbols key"

definition offends :: "cbor \<Rightarrow> manifest_step list \<Rightarrow> bool" where
  "offends v loc =
     (case v of
        CMap m \<Rightarrow> (case (expected_kind loc, value_at v loc) of
                     (Some k, Some w) \<Rightarrow> \<not> has_kind (symbols_map m) k w | _ \<Rightarrow> False)
      | _ \<Rightarrow> False)"

text \<open>How a location is written, and the order in which the format lists locations.\<close>

fun show_steps :: "manifest_step list \<Rightarrow> string" where
  "show_steps [] = []"
| "show_steps (Member k # steps) = CHR ''.'' # k @ show_steps steps"
| "show_steps (Item i # steps) = CHR ''['' # show_nat i @ CHR '']'' # show_steps steps"

definition show_location :: "manifest_step list \<Rightarrow> string" where
  "show_location loc = tl (show_steps loc)"

definition step_rank :: "manifest_step \<Rightarrow> nat" where
  "step_rank s =
     (case s of Item i \<Rightarrow> i
      | Member k \<Rightarrow> (if k \<in> {''pack_id'', ''id''} then 0 else if k \<in> {''meta'', ''entry_flows'', ''entrypoints''} then 1 else 2))"

definition location_key :: "manifest_step list \<Rightarrow> nat list" where
  "location_key loc = map step_rank loc"

definition first_offence :: "cbor \<Rightarrow> manifest_step list \<Rightarrow> bool" where
  "first_offence v loc \<longleftrightarrow> offends v loc \<and> (\<forall>loc'. offends v loc' \<longrightarrow> location_key loc \<le> location_key loc')"

lemma value_at_iff:
  "value_at v (Member k # steps) = Some w \<longleftrightarrow> (\<exists>m x. v = CMap m \<and> map_get m k = Some x \<and> value_at x steps = Some w)"
  "value_at v (Item i # steps) = Some w \<longleftrightarrow> (\<exists>vs. v = CArray vs \<and> i < length vs \<and> value_at (vs ! i) steps = Some w)"
  by (auto simp: bind_eq_Some_conv split: cbor.split)

subsection \<open>The type check finds the first offence\<close>

text \<open>A report \<open>r\<close> is right for a set of locations when it is the first of them, or says there is none.\<close>

definition located :: "(manifest_step list \<Rightarrow> bool) \<Rightarrow> string option \<Rightarrow> bool" where
  "located P r \<longleftrightarrow>
     (case r of None \<Rightarrow> \<forall>loc. \<not> P loc
      | Some p \<Rightarrow> \<exists>loc. P loc \<and> p = show_location loc \<and> (\<forall>loc'. P loc' \<longrightarrow> location_key loc \<le> location_key loc'))"

lemma located_none: "located (\<lambda>loc. False) None"
  by (simp add: located_def)

lemma located_if: "located (\<lambda>loc. loc = l \<and> B) (if B then Some (show_location l) else None)"
  by (auto simp: located_def)

lemma located_or:
  assumes "located P r" "located Q r'" "\<And>l l'. P l \<Longrightarrow> Q l' \<Longrightarrow> location_key l \<le> location_key l'"
  shows "located (\<lambda>loc. P loc \<or> Q loc) (case r of Some p \<Rightarrow> Some p | None \<Rightarrow> r')"
proof (cases r)
  case None
  then show ?thesis using assms(1,2) by (auto simp: located_def)
next
  case (Some p)
  then obtain loc where "P loc" "p = show_location loc" "\<forall>loc'. P loc' \<longrightarrow> location_key loc \<le> location_key loc'"
    using assms(1) by (auto simp: located_def)
  then show ?thesis using Some assms(3) by (auto simp: located_def)
qed

lemma located_indexed:
  assumes "\<And>i. i < length vs \<Longrightarrow> located (P (n + i) (vs ! i)) (f (n + i) (vs ! i))"
    and "\<And>i j l l' x y. i < j \<Longrightarrow> P i x l \<Longrightarrow> P j y l' \<Longrightarrow> location_key l \<le> location_key l'"
    and "g n [] = None"
    and "\<And>n v vs. g n (v # vs) = (case f n v of Some p \<Rightarrow> Some p | None \<Rightarrow> g (n + 1) vs)"
    and "\<And>n. g n [] = None"
  shows "located (\<lambda>loc. \<exists>i < length vs. P (n + i) (vs ! i) loc) (g n vs)"
  using assms(1)
proof (induction vs arbitrary: n)
  case Nil
  then show ?case by (simp add: assms(5) located_none)
next
  case (Cons v vs)
  have rest: "located (\<lambda>loc. \<exists>i < length vs. P (n + 1 + i) (vs ! i) loc) (g (n + 1) vs)"
    by (rule Cons.IH) (use Cons.prems [of "Suc i" for i] in auto)
  have here: "located (P n v) (f n v)" using Cons.prems [of 0] by simp
  have "located (\<lambda>loc. P n v loc \<or> (\<exists>i < length vs. P (n + 1 + i) (vs ! i) loc)) (g n (v # vs))"
    unfolding assms(4)
  proof (rule located_or [OF here rest])
    fix l l'
    assume "P n v l" "\<exists>i < length vs. P (n + 1 + i) (vs ! i) l'"
    then obtain i where "P n v l" "P (n + 1 + i) (vs ! i) l'" by blast
    then show "location_key l \<le> location_key l'" by (rule assms(2) [rotated]) simp
  qed
  moreover have "(\<exists>i < length (v # vs). P (n + i) ((v # vs) ! i) loc)
      \<longleftrightarrow> P n v loc \<or> (\<exists>i < length vs. P (n + 1 + i) (vs ! i) loc)" for loc
    by (auto simp: less_Suc_eq_0_disj)
  ultimately show ?case by simp
qed

text \<open>The offences in an optional array of strings and in one flow.\<close>

definition array_offends ::
  "manifest_step list \<Rightarrow> cbor option \<Rightarrow> cbor_map option \<Rightarrow> string \<Rightarrow> manifest_step list \<Rightarrow> bool" where
  "array_offends at v sy key loc \<longleftrightarrow>
     (\<exists>vals. v = Some (CArray vals) \<and> (\<exists>i < length vals. loc = at @ [Item i] \<and> \<not> value_is_string_or_symbol (vals ! i) sy key))
     \<or> (\<exists>w. v = Some w \<and> \<not> has_kind sy ArrayKind w \<and> loc = at)"

lemma array_offends_below: "array_offends at v sy key loc \<Longrightarrow> \<exists>rest. loc = at @ rest"
  by (auto simp: array_offends_def)

definition flow_offends :: "nat \<Rightarrow> cbor \<Rightarrow> cbor_map option \<Rightarrow> manifest_step list \<Rightarrow> bool" where
  "flow_offends n v sy loc \<longleftrightarrow>
     (\<exists>flow. v = CMap flow
        \<and> (loc = [Member ''flows'', Item n, Member ''id''] \<and> bad_string (map_get flow ''id'') sy ''flow_ids''
          \<or> array_offends [Member ''flows'', Item n, Member ''entrypoints''] (map_get flow ''entrypoints'') sy ''entrypoints'' loc))
     \<or> \<not> has_kind sy MapKind v \<and> loc = [Member ''flows'', Item n]"

lemma show_steps_append: "show_steps (xs @ ys) = show_steps xs @ show_steps ys"
  by (induction xs rule: show_steps.induct) auto

lemma show_location_item: "xs \<noteq> [] \<Longrightarrow> show_location (xs @ [Item i]) = show_location xs @ index_text i"
  by (cases xs rule: show_steps.cases) (auto simp: show_location_def show_steps_append index_text_def)

lemma append_le_iff: "(xs @ ys \<le> xs @ zs) = (ys \<le> (zs :: nat list))"
  by (induction xs) simp_all

lemma first_mismatch_located:
  assumes "at \<noteq> []"
  shows "located (\<lambda>loc. \<exists>i < length vs. loc = at @ [Item (n + i)] \<and> \<not> value_is_string_or_symbol (vs ! i) sy key)
     (map_option (\<lambda>i. show_location at @ index_text i) (first_mismatch n vs sy key))"
proof (rule located_indexed [where P = "\<lambda>i v loc. loc = at @ [Item i] \<and> \<not> value_is_string_or_symbol v sy key"
      and f = "\<lambda>i v. if \<not> value_is_string_or_symbol v sy key then Some (show_location (at @ [Item i])) else None"
      and g = "\<lambda>n vs. map_option (\<lambda>i. show_location at @ index_text i) (first_mismatch n vs sy key)"])
  fix i j l l' x y
  assume "i < (j :: nat)" "l = at @ [Item i] \<and> \<not> value_is_string_or_symbol x sy key"
    "l' = at @ [Item j] \<and> \<not> value_is_string_or_symbol y sy key"
  then show "location_key l \<le> location_key l'"
    by (simp add: location_key_def append_le_iff) (simp add: step_rank_def)
qed (auto simp: located_if show_location_item [OF assms])

lemma array_mismatch_located:
  assumes "at \<noteq> []"
  shows "located (array_offends at v sy key) (array_mismatch (show_location at) v sy key)"
proof (cases "\<exists>vals. v = Some (CArray vals)")
  case True
  then show ?thesis using first_mismatch_located [OF assms, of _ 0 sy key]
    by (auto simp: array_offends_def [abs_def] array_mismatch_def)
next
  case False
  then show ?thesis
    by (auto simp: array_offends_def array_mismatch_def located_def split: option.split cbor.split)
qed

definition flow_mismatch :: "nat \<Rightarrow> cbor \<Rightarrow> cbor_map option \<Rightarrow> string option" where
  "flow_mismatch n v sy = flows_mismatch n [v] sy"

lemma flows_mismatch_Cons:
  "flows_mismatch n (v # vs) sy = (case flow_mismatch n v sy of Some p \<Rightarrow> Some p | None \<Rightarrow> flows_mismatch (n + 1) vs sy)"
  by (cases v) (auto simp: flow_mismatch_def split: option.split)

lemma flow_mismatch_located: "located (flow_offends n v sy) (flow_mismatch n v sy)"
proof (cases "\<exists>flow. v = CMap flow")
  case True
  then obtain flow where v: "v = CMap flow" by blast
  let ?at = "[Member ''flows'', Item n, Member ''entrypoints'']"
  let ?id = "[Member ''flows'', Item n, Member ''id'']"
  have shown: "show_location ?at = ''flows'' @ index_text n @ ''.entrypoints''" "show_location ?id = ''flows'' @ index_text n @ ''.id''"
    by (simp_all add: show_location_def index_text_def)
  let ?bad = "bad_string (map_get flow ''id'') sy ''flow_ids''"
  let ?rest = "array_mismatch (show_location ?at) (map_get flow ''entrypoints'') sy ''entrypoints''"
  have "located (\<lambda>loc. (loc = ?id \<and> ?bad) \<or> array_offends ?at (map_get flow ''entrypoints'') sy ''entrypoints'' loc)
      (case (if ?bad then Some (show_location ?id) else None) of Some p \<Rightarrow> Some p | None \<Rightarrow> ?rest)"
  proof (rule located_or [OF located_if array_mismatch_located])
    fix l l'
    assume "l = ?id \<and> ?bad" "array_offends ?at (map_get flow ''entrypoints'') sy ''entrypoints'' l'"
    then show "location_key l \<le> location_key l'"
      by (auto dest!: array_offends_below simp: location_key_def step_rank_def)
  qed simp
  moreover have "flow_mismatch n v sy
      = (case (if ?bad then Some (show_location ?id) else None) of Some p \<Rightarrow> Some p | None \<Rightarrow> ?rest)"
    by (simp add: flow_mismatch_def v shown del: append_Cons split: option.split)
  ultimately show ?thesis by (simp add: flow_offends_def [abs_def] v)
next
  case False
  then have "flow_mismatch n v sy = Some (show_location [Member ''flows'', Item n])"
    by (cases v) (auto simp: flow_mismatch_def show_location_def index_text_def)
  moreover have "flow_offends n v sy loc \<longleftrightarrow> loc = [Member ''flows'', Item n]" for loc
    using False by (cases v) (auto simp: flow_offends_def)
  ultimately show ?thesis by (simp add: located_def)
qed

text \<open>Every offence in a flow is below the flow.\<close>

lemma flow_offends_below: "flow_offends n v sy loc \<Longrightarrow> \<exists>rest. loc = Member ''flows'' # Item n # rest"
  unfolding flow_offends_def by (auto dest: array_offends_below)

lemma flows_mismatch_located:
  "located (\<lambda>loc. \<exists>i < length vs. flow_offends (n + i) (vs ! i) sy loc) (flows_mismatch n vs sy)"
proof (rule located_indexed [where f = "\<lambda>n v. flow_mismatch n v sy" and P = "\<lambda>n v. flow_offends n v sy"
      and g = "\<lambda>n vs. flows_mismatch n vs sy"])
  fix i j l l' x y
  assume "i < (j :: nat)" "flow_offends i x sy l" "flow_offends j y sy l'"
  then show "location_key l \<le> location_key l'"
    by (auto dest!: flow_offends_below simp: location_key_def step_rank_def)
qed (simp_all add: flow_mismatch_located flows_mismatch_Cons del: flows_mismatch.simps(2))

definition meta_offends :: "cbor_map \<Rightarrow> cbor_map option \<Rightarrow> manifest_step list \<Rightarrow> bool" where
  "meta_offends m sy loc \<longleftrightarrow>
     (\<exists>mm. map_get m ''meta'' = Some (CMap mm)
        \<and> (loc = [Member ''meta'', Member ''pack_id''] \<and> bad_string (map_get mm ''pack_id'') sy ''pack_ids''
          \<or> array_offends [Member ''meta'', Member ''entry_flows''] (map_get mm ''entry_flows'') sy ''flow_ids'' loc))
     \<or> (\<exists>w. map_get m ''meta'' = Some w \<and> \<not> has_kind sy MapKind w \<and> loc = [Member ''meta''])"

definition flows_offends :: "cbor_map \<Rightarrow> cbor_map option \<Rightarrow> manifest_step list \<Rightarrow> bool" where
  "flows_offends m sy loc \<longleftrightarrow>
     (\<exists>vals. map_get m ''flows'' = Some (CArray vals) \<and> (\<exists>i < length vals. flow_offends i (vals ! i) sy loc))
     \<or> (\<exists>w. map_get m ''flows'' = Some w \<and> \<not> has_kind sy ArrayKind w \<and> loc = [Member ''flows''])"

lemma meta_mismatch_located: "located (meta_offends m sy) (meta_mismatch m sy)"
proof (cases "\<exists>mm. map_get m ''meta'' = Some (CMap mm)")
  case True
  then obtain mm where mm: "map_get m ''meta'' = Some (CMap mm)" by blast
  let ?at = "[Member ''meta'', Member ''entry_flows'']" and ?id = "[Member ''meta'', Member ''pack_id'']"
  have shown: "show_location ?at = ''meta.entry_flows''" "show_location ?id = ''meta.pack_id''"
    by (simp_all add: show_location_def)
  let ?bad = "bad_string (map_get mm ''pack_id'') sy ''pack_ids''"
  let ?rest = "array_mismatch (show_location ?at) (map_get mm ''entry_flows'') sy ''flow_ids''"
  have "located (\<lambda>loc. (loc = ?id \<and> ?bad) \<or> array_offends ?at (map_get mm ''entry_flows'') sy ''flow_ids'' loc)
      (case (if ?bad then Some (show_location ?id) else None) of Some p \<Rightarrow> Some p | None \<Rightarrow> ?rest)"
  proof (rule located_or [OF located_if array_mismatch_located])
    fix l l'
    assume "l = ?id \<and> ?bad" "array_offends ?at (map_get mm ''entry_flows'') sy ''flow_ids'' l'"
    then show "location_key l \<le> location_key l'"
      by (auto dest!: array_offends_below simp: location_key_def step_rank_def)
  qed simp
  moreover have "meta_mismatch m sy
      = (case (if ?bad then Some (show_location ?id) else None) of Some p \<Rightarrow> Some p | None \<Rightarrow> ?rest)"
    by (simp add: meta_mismatch_def mm shown)
  ultimately show ?thesis by (simp add: meta_offends_def [abs_def] mm)
next
  case False
  then show ?thesis
    by (auto simp: meta_offends_def meta_mismatch_def located_def show_location_def split: option.split cbor.split)
qed

lemma flows_located:
  "located (flows_offends m sy)
     (case map_get m ''flows'' of None \<Rightarrow> None
      | Some (CArray vals) \<Rightarrow> flows_mismatch 0 vals sy
      | Some _ \<Rightarrow> Some ''flows'')"
proof (cases "\<exists>vals. map_get m ''flows'' = Some (CArray vals)")
  case True
  then show ?thesis using flows_mismatch_located [of _ 0 sy] by (auto simp: flows_offends_def [abs_def])
next
  case False
  then show ?thesis
    by (auto simp: flows_offends_def located_def show_location_def split: option.split cbor.split)
qed

lemma offends_below:
  "meta_offends m sy loc \<Longrightarrow> \<exists>rest. loc = Member ''meta'' # rest"
  "flows_offends m sy loc \<Longrightarrow> \<exists>rest. loc = Member ''flows'' # rest"
  by (auto simp: meta_offends_def flows_offends_def dest!: flow_offends_below array_offends_below)

text \<open>The offences of a manifest, part by part.\<close>

lemma step_name_iff: "step_name s = Some k \<longleftrightarrow> s = Member k" "step_name s = None \<longleftrightarrow> (\<exists>i. s = Item i)"
  by (cases s; auto)+

lemma step_names:
  "map step_name loc = [Some a] \<longleftrightarrow> loc = [Member a]"
  "map step_name loc = [Some a, Some b] \<longleftrightarrow> loc = [Member a, Member b]"
  "map step_name loc = [Some a, Some b, None] \<longleftrightarrow> (\<exists>i. loc = [Member a, Member b, Item i])"
  "map step_name loc = [Some a, None] \<longleftrightarrow> (\<exists>i. loc = [Member a, Item i])"
  "map step_name loc = [Some a, None, Some b] \<longleftrightarrow> (\<exists>i. loc = [Member a, Item i, Member b])"
  "map step_name loc = [Some a, None, Some b, None] \<longleftrightarrow> (\<exists>i j. loc = [Member a, Item i, Member b, Item j])"
  by (auto simp: map_eq_Cons_conv step_name_iff)

lemma expected_kind_cases:
  assumes "expected_kind loc = Some k"
  obtains "loc = [Member ''pack_id'']" "k = StringKind ''pack_ids''"
  | "loc = [Member ''meta'']" "k = MapKind"
  | "loc = [Member ''flows'']" "k = ArrayKind"
  | "loc = [Member ''meta'', Member ''pack_id'']" "k = StringKind ''pack_ids''"
  | "loc = [Member ''meta'', Member ''entry_flows'']" "k = ArrayKind"
  | i where "loc = [Member ''meta'', Member ''entry_flows'', Item i]" "k = StringKind ''flow_ids''"
  | i where "loc = [Member ''flows'', Item i]" "k = MapKind"
  | i where "loc = [Member ''flows'', Item i, Member ''id'']" "k = StringKind ''flow_ids''"
  | i where "loc = [Member ''flows'', Item i, Member ''entrypoints'']" "k = ArrayKind"
  | i j where "loc = [Member ''flows'', Item i, Member ''entrypoints'', Item j]" "k = StringKind ''entrypoints''"
proof -
  have "(map step_name loc, k) \<in> set manifest_format"
    using assms by (simp add: expected_kind_def map_of_SomeD)
  then show thesis
    unfolding manifest_format_def set_simps insert_iff empty_iff prod.inject step_names
    by (elim disjE conjE exE FalseE) (rule that, assumption, assumption)+
qed

lemma expected_kind_simps [simp]:
  "expected_kind [Member ''pack_id''] = Some (StringKind ''pack_ids'')"
  "expected_kind [Member ''meta''] = Some MapKind"
  "expected_kind [Member ''flows''] = Some ArrayKind"
  "expected_kind [Member ''meta'', Member ''pack_id''] = Some (StringKind ''pack_ids'')"
  "expected_kind [Member ''meta'', Member ''entry_flows''] = Some ArrayKind"
  "expected_kind [Member ''meta'', Member ''entry_flows'', Item i] = Some (StringKind ''flow_ids'')"
  "expected_kind [Member ''flows'', Item i] = Some MapKind"
  "expected_kind [Member ''flows'', Item i, Member ''id''] = Some (StringKind ''flow_ids'')"
  "expected_kind [Member ''flows'', Item i, Member ''entrypoints''] = Some ArrayKind"
  "expected_kind [Member ''flows'', Item i, Member ''entrypoints'', Item j] = Some (StringKind ''entrypoints'')"
  by (simp_all add: expected_kind_def manifest_format_def)

lemma flow_offends_intro:
  assumes "expected_kind (Member ''flows'' # Item i # steps) = Some k" "value_at v steps = Some w" "\<not> has_kind sy k w"
  shows "flow_offends i v sy (Member ''flows'' # Item i # steps)"
  using assms(1)
  by (cases rule: expected_kind_cases)
    (use assms(2,3) in \<open>auto simp: flow_offends_def array_offends_def bad_string_def value_at_iff
      simp del: value_at.simps(2,3) has_kind.simps(1,2)\<close>)

lemma offends_parts:
  "offends (CMap m) loc \<longleftrightarrow>
     loc = [Member ''pack_id''] \<and> bad_string (map_get m ''pack_id'') (symbols_map m) ''pack_ids''
     \<or> meta_offends m (symbols_map m) loc \<or> flows_offends m (symbols_map m) loc"
proof
  assume "offends (CMap m) loc"
  then obtain k w where k: "expected_kind loc = Some k" and w: "value_at (CMap m) loc = Some w"
    and n: "\<not> has_kind (symbols_map m) k w"
    by (auto simp: offends_def split: option.splits)
  have below: "flows_offends m (symbols_map m) loc" if at: "loc = Member ''flows'' # Item i # steps" for i steps
  proof -
    obtain vs where "map_get m ''flows'' = Some (CArray vs)" "i < length vs" "value_at (vs ! i) steps = Some w"
      using w at by (auto simp: value_at_iff simp del: value_at.simps(2,3))
    then show ?thesis using flow_offends_intro [of i steps k "vs ! i" w "symbols_map m"] k n at
      by (auto simp: flows_offends_def)
  qed
  from k show "loc = [Member ''pack_id''] \<and> bad_string (map_get m ''pack_id'') (symbols_map m) ''pack_ids''
     \<or> meta_offends m (symbols_map m) loc \<or> flows_offends m (symbols_map m) loc"
    by (cases rule: expected_kind_cases)
      (use w n below in \<open>auto simp: bad_string_def meta_offends_def flows_offends_def array_offends_def
        value_at_iff simp del: value_at.simps(2,3) has_kind.simps(1,2)\<close>)
next
  assume "loc = [Member ''pack_id''] \<and> bad_string (map_get m ''pack_id'') (symbols_map m) ''pack_ids''
     \<or> meta_offends m (symbols_map m) loc \<or> flows_offends m (symbols_map m) loc"
  then show "offends (CMap m) loc"
    by (auto simp: offends_def bad_string_def meta_offends_def flows_offends_def flow_offends_def array_offends_def
        split: option.splits)
qed

lemma mismatch_located:
  "case find_manifest_string_type_mismatch v of
     None \<Rightarrow> \<forall>loc. \<not> offends v loc
   | Some p \<Rightarrow> \<exists>loc. first_offence v loc \<and> p = show_location loc"
proof (cases "\<exists>m. v = CMap m")
  case True
  then obtain m where v: "v = CMap m" by blast
  let ?sy = "symbols_map m"
  let ?bad = "bad_string (map_get m ''pack_id'') ?sy ''pack_ids''"
  let ?flows = "case map_get m ''flows'' of None \<Rightarrow> None
      | Some (CArray vals) \<Rightarrow> flows_mismatch 0 vals ?sy | Some _ \<Rightarrow> Some ''flows''"
  have "located (\<lambda>loc. meta_offends m ?sy loc \<or> flows_offends m ?sy loc)
      (case meta_mismatch m ?sy of Some p \<Rightarrow> Some p | None \<Rightarrow> ?flows)"
    by (rule located_or [OF meta_mismatch_located flows_located])
      (auto dest!: offends_below simp: location_key_def step_rank_def)
  note rest = this
  have first: "location_key l \<le> location_key l'"
    if "l = [Member ''pack_id''] \<and> ?bad" "meta_offends m ?sy l' \<or> flows_offends m ?sy l'" for l l'
    using that by (auto dest!: offends_below simp: location_key_def step_rank_def)
  have "located (offends v) (case (if ?bad then Some (show_location [Member ''pack_id'']) else None) of
      Some p \<Rightarrow> Some p | None \<Rightarrow> (case meta_mismatch m ?sy of Some p \<Rightarrow> Some p | None \<Rightarrow> ?flows))"
    unfolding v offends_parts [abs_def] by (rule located_or [OF located_if rest first])
  moreover have "(case (if ?bad then Some (show_location [Member ''pack_id'']) else None) of
      Some p \<Rightarrow> Some p | None \<Rightarrow> (case meta_mismatch m ?sy of Some p \<Rightarrow> Some p | None \<Rightarrow> ?flows))
      = find_manifest_string_type_mismatch v"
    by (simp add: v find_manifest_string_type_mismatch_def show_location_def Let_def)
  ultimately have "located (offends v) (find_manifest_string_type_mismatch v)" by simp
  then show ?thesis by (auto simp: located_def first_offence_def split: option.splits)
next
  case False
  then show ?thesis by (cases v) (auto simp: find_manifest_string_type_mismatch_def offends_def)
qed

lemma decode_failure_without_mismatch:
  assumes "decode_manifest_lenient v = Inl e" and "find_manifest_string_type_mismatch v = None"
  shows "missing_error e"
proof (cases v)
  case (CMap m)
  let ?sy = "symbols_map m"
  have id: "\<not> bad_string (map_get m ''pack_id'') ?sy ''pack_ids''" and meta: "meta_mismatch m ?sy = None"
    and flows: "case map_get m ''flows'' of None \<Rightarrow> True
       | Some (CArray vals) \<Rightarrow> flows_mismatch 0 vals ?sy = None | Some _ \<Rightarrow> False"
    using assms(2) CMap
    by (auto simp: find_manifest_string_type_mismatch_def Let_def split: if_splits option.splits cbor.splits)
  obtain x where x: "resolve_string_symbol (map_get m ''pack_id'') ?sy ''pack_ids'' = Inr x"
    using good_string_resolves [OF id] by blast
  obtain i fl where y: "decode_meta m ?sy = Inr (i, fl)"
    using meta_mismatch_None [OF meta] by auto
  show ?thesis
    using assms(1) flows
    by (auto simp: CMap decode_manifest_lenient_def Let_def x y result_iff
        dest: flows_mismatch_None split: option.splits cbor.splits)
qed (use assms(1) in \<open>auto simp: decode_manifest_lenient_def\<close>)

text \<open>C33: a manifest that fails to decode is reported exactly. Either the report names the first
  location, in the order of the format, at which the manifest has a value of the wrong kind; or
  no location has one, and the manifest is not a map or lacks an identifier.\<close>

theorem decode_failure_is_located:
  assumes "from_slice bytes = Inr v" and "parse_manifest_cbor_bytes from_slice bytes = Inl e"
  shows "(\<exists>loc. first_offence v loc \<and> e = InvalidType (show_location loc))
     \<or> (\<forall>loc. \<not> offends v loc) \<and> (\<exists>e'. missing_error e' \<and> e = Undecodable e')"
proof -
  obtain e' where d: "decode_manifest_lenient v = Inl e'"
    and e: "e = (case find_manifest_string_type_mismatch v of Some p \<Rightarrow> InvalidType p | None \<Rightarrow> Undecodable e')"
    using assms by (auto simp: parse_manifest_cbor_bytes_def split: sum.splits option.splits)
  show ?thesis
    using mismatch_located [of v] decode_failure_without_mismatch [OF d] e by (auto split: option.splits)
qed

definition sample_bad_manifest :: cbor where
  "sample_bad_manifest = CMap [(CText ''pack_id'', CText ''p''),
     (CText ''flows'', CArray [CMap [(CText ''id'', CText ''a'')],
        CMap [(CText ''id'', CText ''b''), (CText ''entrypoints'', CArray [CText ''x'', CBool True])]])]"

theorem decode_failure_is_located_witness:
  "parse_manifest_cbor_bytes Inr sample_bad_manifest = Inl (InvalidType ''flows[1].entrypoints[1]'')
   \<and> (\<exists>loc. first_offence sample_bad_manifest loc \<and> show_location loc = ''flows[1].entrypoints[1]'')"
proof -
  have r: "parse_manifest_cbor_bytes Inr sample_bad_manifest = Inl (InvalidType ''flows[1].entrypoints[1]'')"
    by code_simp
  then show ?thesis using decode_failure_is_located [of Inr sample_bad_manifest, OF refl r] by auto
qed

section \<open>Discovery finds every pack once\<close>

text \<open>Reference: the packs of a tree by recursion over it.\<close>

fun tree_gtpacks :: "path \<Rightarrow> (string \<times> dir_entry) list \<Rightarrow> path list"
  and sub_gtpacks :: "path \<Rightarrow> dir_entry \<Rightarrow> path list" where
  "tree_gtpacks dir [] = []"
| "tree_gtpacks dir ((name, e) # es) = sub_gtpacks (path_join dir name) e @ tree_gtpacks dir es"
| "sub_gtpacks p FileEntry = (if extension p = Some ''gtpack'' then [p] else [])"
| "sub_gtpacks p (DirEntry ds) = tree_gtpacks p ds"

lemma tree_gtpacks_split:
  "mset (tree_gtpacks dir es) = mset (gtpack_files dir es)
     + (\<Sum>(d, ds) \<leftarrow> subdirs dir es. mset (tree_gtpacks d ds))"
  by (induction dir es rule: subdirs.induct) (auto simp: ac_simps)

lemma mset_collect_stack:
  "mset (collect_stack stack) = (\<Sum>(d, es) \<leftarrow> stack. mset (tree_gtpacks d es))"
proof (induction stack rule: collect_stack.induct)
  case 1
  then show ?case by simp
next
  case (2 dir es stack)
  then show ?case
    by (simp add: tree_gtpacks_split [of dir es] rev_map [symmetric] sum_list_rev ac_simps)
qed

lemma mset_collect_gtpacks: "mset (collect_gtpacks root es) = mset (tree_gtpacks root es)"
  by (simp only: collect_gtpacks_def mset_collect_stack) simp

lemma set_collect_gtpacks: "set (collect_gtpacks root es) = set (tree_gtpacks root es)"
  by (metis mset_collect_gtpacks set_mset_mset)

definition seen_inv :: "provider_pack list \<times> path set \<Rightarrow> bool" where
  "seen_inv st \<longleftrightarrow> distinct (map pp_path (fst st)) \<and> set (map pp_path (fst st)) = snd st"

lemma append_pack_inv:
  "append_pack rd p st = Inr st' \<Longrightarrow> seen_inv st \<Longrightarrow> seen_inv st' \<and> snd st' = insert p (snd st)"
  by (cases st) (auto simp: append_pack_def seen_inv_def result_iff split: if_splits)

lemma append_packs_inv:
  "append_packs rd ps st = Inr st' \<Longrightarrow> seen_inv st \<Longrightarrow> seen_inv st' \<and> snd st' = set ps \<union> snd st"
proof (induction rd ps st arbitrary: st' rule: append_packs.induct)
  case (1 rd st)
  then show ?case by simp
next
  case (2 rd p ps st)
  then obtain st1 where st1: "append_pack rd p st = Inr st1" "append_packs rd ps st1 = Inr st'"
    by (auto simp: result_iff)
  with 2 append_pack_inv [OF st1(1)] show ?case by simp
qed

definition root_packs :: "(path \<Rightarrow> (string \<times> dir_entry) list option) \<Rightarrow> path \<Rightarrow> path set" where
  "root_packs tree root = (case tree root of None \<Rightarrow> {} | Some es \<Rightarrow> set (tree_gtpacks root es))"

lemma append_root_inv:
  "append_packs_from_root tree rd root st = Inr st' \<Longrightarrow> seen_inv st \<Longrightarrow>
   seen_inv st' \<and> snd st' = root_packs tree root \<union> snd st"
  by (auto simp: append_packs_from_root_def root_packs_def set_collect_gtpacks
      dest: append_packs_inv split: option.splits)

text \<open>C31: when discovery of a domain's packs succeeds it returns every \<open>.gtpack\<close> file below
  the domain's provider directory and below \<open>packs\<close>, each path once, ordered by file name.\<close>

theorem discover_provider_packs_complete:
  assumes "discover_provider_packs tree rd root d = Inr packs"
  shows "distinct (map pp_path packs) \<and> sorted (map pp_file_name packs) \<and>
    set (map pp_path packs) =
      root_packs tree (path_join root (providers_dir (config d))) \<union> root_packs tree (path_join root ''packs'')"
proof -
  obtain st1 packs0 seen where st1: "append_packs_from_root tree rd (path_join root (providers_dir (config d))) ([], {}) = Inr st1"
    and st2: "append_packs_from_root tree rd (path_join root ''packs'') st1 = Inr (packs0, seen)"
    and packs: "packs = sort_key pp_file_name packs0"
    using assms by (auto simp: discover_provider_packs_def result_iff)
  have "seen_inv ([], {})" by (simp add: seen_inv_def)
  with append_root_inv [OF st1] append_root_inv [OF st2]
  have inv: "seen_inv (packs0, seen)"
    "seen = root_packs tree (path_join root (providers_dir (config d))) \<union> root_packs tree (path_join root ''packs'')"
    by auto
  then have "distinct (map pp_path packs)"
    by (simp add: packs seen_inv_def distinct_map)
  then show ?thesis using inv by (simp add: packs seen_inv_def)
qed

definition example_tree :: "path \<Rightarrow> (string \<times> dir_entry) list option" where
  "example_tree p =
     (if p = ''b/packs'' then Some [(''x'', DirEntry [(''b.gtpack'', FileEntry)]), (''a.gtpack'', FileEntry), (''n.txt'', FileEntry)]
      else None)"

definition example_manifest :: "path \<Rightarrow> (string, pack_manifest) result" where
  "example_manifest p = Inr \<lparr>mf_meta = Some (build_pack_meta \<lparr>mf_meta = None, mf_pack_id = None, mf_flows = []\<rparr> p),
     mf_pack_id = None, mf_flows = []\<rparr>"

theorem discover_provider_packs_complete_witness:
  "\<exists>packs. discover_provider_packs example_tree example_manifest ''b'' Messaging = Inr packs
     \<and> map pp_path packs = [''b/packs/a.gtpack'', ''b/packs/x/b.gtpack'']
     \<and> set (map pp_path packs) = root_packs example_tree ''b/providers/messaging'' \<union> root_packs example_tree ''b/packs''"
proof -
  let ?packs = "[\<lparr>pp_pack_id = ''a'', pp_file_name = ''a.gtpack'', pp_path = ''b/packs/a.gtpack'', pp_entry_flows = [''a'']\<rparr>,
    \<lparr>pp_pack_id = ''b'', pp_file_name = ''b.gtpack'', pp_path = ''b/packs/x/b.gtpack'', pp_entry_flows = [''b'']\<rparr>]"
  have ok: "discover_provider_packs example_tree example_manifest ''b'' Messaging = Inr ?packs"
    by code_simp
  have "path_join ''b'' (providers_dir (config Messaging)) = ''b/providers/messaging''"
    "path_join ''b'' ''packs'' = ''b/packs''"
    by code_simp+
  with ok discover_provider_packs_complete [OF ok] show ?thesis by (intro exI [of _ ?packs]) simp
qed

section \<open>The plan\<close>

lemma plan_flows_lenient:
  "\<not> (action = Setup \<and> \<not> allow) \<Longrightarrow> plan_flows action allow p fs =
     Inr (map (\<lambda>f. \<lparr>pr_pack = p, pr_flow_id = f\<rparr>) (filter (\<lambda>f. f \<in> set (pp_entry_flows p)) fs))"
  by (induction fs) auto

lemma plan_flows_present:
  "set fs \<subseteq> set (pp_entry_flows p) \<Longrightarrow> plan_flows action allow p fs =
     Inr (map (\<lambda>f. \<lparr>pr_pack = p, pr_flow_id = f\<rparr>) (filter (\<lambda>f. f \<in> set (pp_entry_flows p)) fs))"
  by (induction fs) auto

text \<open>The runs of one pack, and whether its required flow is missing.\<close>

definition pack_runs :: "string list \<Rightarrow> provider_pack \<Rightarrow> planned_run list" where
  "pack_runs flows p = map (\<lambda>f. \<lparr>pr_pack = p, pr_flow_id = f\<rparr>) (filter (\<lambda>f. f \<in> set (pp_entry_flows p)) flows)"

definition lacks_setup :: "domain \<Rightarrow> domain_action \<Rightarrow> bool \<Rightarrow> provider_pack \<Rightarrow> bool" where
  "lacks_setup d action allow p \<longleftrightarrow>
     action = Setup \<and> \<not> allow \<and> setup_flow (config d) \<notin> set (pp_entry_flows p)"

lemma plan_flows_action:
  "plan_flows action allow p (action_flows d action) =
     (if lacks_setup d action allow p then Inl (MissingRequiredFlow (setup_flow (config d)) (pp_file_name p))
      else Inr (pack_runs (action_flows d action) p))"
proof (cases "action = Setup \<and> \<not> allow")
  case True
  then show ?thesis by (simp add: action_flows_def lacks_setup_def pack_runs_def)
next
  case False
  with plan_flows_lenient [OF False, of p "action_flows d action"] show ?thesis
    by (auto simp: pack_runs_def lacks_setup_def)
qed

text \<open>C32: the plan of a domain action. It fails exactly when setup is required and some
  selected pack lacks the setup flow, naming the first such pack; otherwise it lists, pack
  by pack in order, the action's flows that the pack offers, and nothing else.\<close>

theorem plan_runs_characterised:
  "plan_runs d action packs flt allow =
     (case List.find (\<lambda>p. pack_selected flt p \<and> lacks_setup d action allow p) packs of
        Some p \<Rightarrow> Inl (MissingRequiredFlow (setup_flow (config d)) (pp_file_name p))
      | None \<Rightarrow> Inr (concat (map (pack_runs (action_flows d action)) (filter (pack_selected flt) packs))))"
  unfolding plan_runs_def
proof (induction packs)
  case Nil
  then show ?case by simp
next
  case (Cons p packs)
  then show ?case by (auto simp: plan_flows_action split: option.splits)
qed

end
