(* ===== verification/StaticRoutes.thy ===== *)
theory StaticRoutes
  imports OrdMap Json Domains
begin

text \<open>
  Static routes of provider packs (\<open>src/static_routes.rs\<close>): the reserved path space of the
  operator, normalisation of the routes a pack declares, validation of the plan made of all
  packs, and the active route table with its two matchers (unscoped routes, and routes of
  one deployment revision). Archives and the manifest decoder are parameters.
\<close>

section \<open>Data\<close>

text \<open>Deployment, bundle and revision identifiers come from another crate and are opaque.\<close>

record revision_scope =
  rs_deployment_id :: string
  rs_bundle_id :: string
  rs_revision_id :: string

datatype route_scope_segment = Literal string | Tenant | Team

datatype cache_strategy = NoCache | PublicMaxAge nat

record static_route_descriptor =
  sr_route_id :: string
  sr_pack_id :: string
  sr_pack_path :: path
  sr_public_path :: string
  sr_source_root :: string
  sr_index_file :: "string option"
  sr_spa_fallback :: "string option"
  sr_tenant_scoped :: bool
  sr_team_scoped :: bool
  sr_cache_strategy :: cache_strategy
  sr_route_segments :: "route_scope_segment list"
  sr_scope :: "revision_scope option"

datatype plan_failure =
    PackFailure string
  | ReservedConflict string string
  | DuplicatePath string string string
  | AmbiguousOverlap string string string string

record static_route_plan =
  plan_routes :: "static_route_descriptor list"
  plan_warnings :: "string list"
  plan_failures :: "plan_failure list"

record reserved_route_set =
  exact_paths :: "string set"
  prefix_paths :: "string set"

datatype route_error =
    PublicPathIsRoot
  | UnsupportedSegment string
  | TeamWithoutTenant
  | TeamBeforeTenant
  | TeamFlagWithoutTenant
  | InconsistentTenantFlag
  | InconsistentTeamFlag
  | InvalidSourceRoot string
  | InvalidAssetPath string
  | MaxAgeMissing
  | UnsupportedCacheStrategy string
  | ManifestUnreadable string
  | InlineMissing
  | InlineWrongType
  | PayloadInvalid string
  | UnsupportedSchemaVersion nat

section \<open>Path normalisation and prefixes\<close>

definition normalize_public_path :: "string \<Rightarrow> string" where
  "normalize_public_path p =
     (let trimmed = trim p;
          normalized = (if starts_with ''/'' trimmed then trimmed else ''/'' @ trimmed)
      in if length normalized > 1 then trim_end_matches (CHR ''/'') normalized else normalized)"

definition path_has_prefix :: "string \<Rightarrow> string \<Rightarrow> bool" where
  "path_has_prefix p pre =
     (if p = pre then True
      else
        let pre' = trim_end_matches (CHR ''/'') pre
        in (case strip_prefix pre' p of None \<Rightarrow> False | Some rest \<Rightarrow> starts_with ''/'' rest))"

definition paths_overlap :: "string \<Rightarrow> string \<Rightarrow> bool" where
  "paths_overlap l r \<longleftrightarrow> path_has_prefix l r \<or> path_has_prefix r l"

definition insert_exact :: "string \<Rightarrow> reserved_route_set \<Rightarrow> reserved_route_set" where
  "insert_exact p r = r\<lparr>exact_paths := insert (normalize_public_path p) (exact_paths r)\<rparr>"

definition insert_prefix :: "string \<Rightarrow> reserved_route_set \<Rightarrow> reserved_route_set" where
  "insert_prefix p r = r\<lparr>prefix_paths := insert (normalize_public_path p) (prefix_paths r)\<rparr>"

definition conflicts_with :: "reserved_route_set \<Rightarrow> string \<Rightarrow> bool" where
  "conflicts_with r public_path =
     (let normalized = normalize_public_path public_path
      in normalized \<in> exact_paths r \<or> (\<exists>pre \<in> prefix_paths r. path_has_prefix normalized pre))"

definition reserved_exact :: "string list" where
  "reserved_exact =
     [''/healthz'', ''/readyz'', ''/status'', ''/runtime/drain'', ''/runtime/resume'',
      ''/runtime/shutdown'', ''/deployments/stage'', ''/deployments/warm'',
      ''/deployments/activate'', ''/deployments/rollback'', ''/deployments/complete-drain'',
      ''/config/publish'', ''/cache/invalidate'', ''/observability/log-level'']"

definition reserved_prefixes :: "string list" where
  "reserved_prefixes =
     [''/api/onboard'', ''/runtime'', ''/deployments'', ''/config'', ''/cache'', ''/observability'']
     @ concat (map (\<lambda>d. [''/v1/'' @ domain_name d @ ''/ingress'', ''/'' @ domain_name d @ ''/ingress''])
         [Messaging, Events, Secrets, OAuth])"

definition operator_defaults :: reserved_route_set where
  "operator_defaults =
     fold insert_prefix reserved_prefixes
       (fold insert_exact reserved_exact \<lparr>exact_paths = {}, prefix_paths = {}\<rparr>)"

section \<open>Reading the routes of a pack\<close>

record static_route_cache_record =
  cr_strategy :: string
  cr_max_age_seconds :: "nat option"

record static_route_record =
  rr_id :: "string option"
  rr_public_path :: string
  rr_source_root :: string
  rr_index_file :: "string option"
  rr_spa_fallback :: "string option"
  rr_tenant :: bool
  rr_team :: bool
  rr_cache :: "static_route_cache_record option"

record static_routes_extension =
  ext_schema_version :: nat
  ext_routes :: "static_route_record list"

fun parse_segments :: "string list \<Rightarrow> (route_error, route_scope_segment list) result" where
  "parse_segments [] = Inr []"
| "parse_segments (seg # segs) =
     (if seg = ''{tenant}'' then rbind (parse_segments segs) (\<lambda>r. Inr (Tenant # r))
      else if seg = ''{team}'' then rbind (parse_segments segs) (\<lambda>r. Inr (Team # r))
      else if CHR ''{'' \<in> set seg \<or> CHR ''}'' \<in> set seg then Inl (UnsupportedSegment seg)
      else rbind (parse_segments segs) (\<lambda>r. Inr (Literal seg # r)))"

fun position :: "('a \<Rightarrow> bool) \<Rightarrow> 'a list \<Rightarrow> nat option" where
  "position p [] = None"
| "position p (x # xs) = (if p x then Some 0 else map_option Suc (position p xs))"

text \<open>The nonempty segments of a path, leading separators removed.\<close>

definition path_segments :: "string \<Rightarrow> string list" where
  "path_segments p =
     filter (\<lambda>seg. seg \<noteq> []) (split_on (CHR ''/'') (trim_start_matches (CHR ''/'') p))"

definition parse_route_segments :: "string \<Rightarrow> (route_error, route_scope_segment list) result" where
  "parse_route_segments p =
     (let segs = path_segments p in
      if segs = [] then Inl PublicPathIsRoot
      else rbind (parse_segments segs) (\<lambda>parsed.
        (case position (\<lambda>s. s = Team) parsed of
           None \<Rightarrow> Inr parsed
         | Some team_pos \<Rightarrow>
             (case position (\<lambda>s. s = Tenant) parsed of
                None \<Rightarrow> Inl TeamWithoutTenant
              | Some tenant_pos \<Rightarrow>
                  if team_pos \<le> tenant_pos then Inl TeamBeforeTenant else Inr parsed))))"

fun normal_segments :: "path_component list \<Rightarrow> string list option" where
  "normal_segments [] = Some []"
| "normal_segments (Normal s # cs) = map_option (\<lambda>ss. s # ss) (normal_segments cs)"
| "normal_segments (CurDir # cs) = normal_segments cs"
| "normal_segments (ParentDir # cs) = None"
| "normal_segments (RootDir # cs) = None"

definition normalize_relative_asset_path :: "string \<Rightarrow> string option" where
  "normalize_relative_asset_path p =
     (case normal_segments (path_components p) of
        None \<Rightarrow> None
      | Some segs \<Rightarrow> if segs = [] then None else Some (join ''/'' segs))"

definition normalize_optional_relative_asset_path ::
  "string option \<Rightarrow> (route_error, string option) result" where
  "normalize_optional_relative_asset_path v =
     (case v of
        Some p \<Rightarrow> ok_or (InvalidAssetPath p) (map_option Some (normalize_relative_asset_path p))
      | None \<Rightarrow> Inr None)"

definition normalize_cache_strategy ::
  "static_route_cache_record option \<Rightarrow> (route_error, cache_strategy) result" where
  "normalize_cache_strategy cache =
     (case cache of
        None \<Rightarrow> Inr NoCache
      | Some c \<Rightarrow>
          (let s = trim (cr_strategy c) in
           if s = [] \<or> s = ''none'' then Inr NoCache
           else if s = ''public-max-age''
           then rbind (ok_or MaxAgeMissing (cr_max_age_seconds c)) (\<lambda>n. Inr (PublicMaxAge n))
           else Inl (UnsupportedCacheStrategy s)))"

definition normalize_route_descriptor ::
  "string \<Rightarrow> path \<Rightarrow> nat \<Rightarrow> static_route_record \<Rightarrow> (route_error, static_route_descriptor) result" where
  "normalize_route_descriptor pack_id pack_path idx route =
     (if rr_team route \<and> \<not> rr_tenant route then Inl TeamFlagWithoutTenant
      else
        let public_path = normalize_public_path (rr_public_path route) in
        rbind (parse_route_segments public_path) (\<lambda>segs.
          if rr_tenant route \<noteq> (Tenant \<in> set segs) then Inl InconsistentTenantFlag
          else if rr_team route \<noteq> (Team \<in> set segs) then Inl InconsistentTeamFlag
          else
            rbind (ok_or (InvalidSourceRoot (rr_source_root route))
                     (normalize_relative_asset_path (rr_source_root route))) (\<lambda>source_root.
            rbind (normalize_optional_relative_asset_path (rr_index_file route)) (\<lambda>index_file.
            rbind (normalize_optional_relative_asset_path (rr_spa_fallback route)) (\<lambda>spa_fallback.
            rbind (normalize_cache_strategy (rr_cache route)) (\<lambda>cache.
              Inr \<lparr>sr_route_id = opt_unwrap_or (rr_id route) (pack_id @ ''::'' @ show_nat idx),
                   sr_pack_id = pack_id, sr_pack_path = pack_path, sr_public_path = public_path,
                   sr_source_root = source_root, sr_index_file = index_file,
                   sr_spa_fallback = spa_fallback, sr_tenant_scoped = rr_tenant route,
                   sr_team_scoped = rr_team route, sr_cache_strategy = cache,
                   sr_route_segments = segs, sr_scope = None\<rparr>))))))"

text \<open>A decoded manifest as this module sees it: the pack id and the inline payload of the
  static-routes extension (absent extension, extension without payload, typed payload, or
  a JSON value).\<close>

datatype inline_payload = InlineAbsent | InlineTyped | InlineOther json

record routes_manifest =
  rm_pack_id :: string
  rm_extension :: "inline_payload option"

fun normalize_routes ::
  "string \<Rightarrow> path \<Rightarrow> nat \<Rightarrow> static_route_record list \<Rightarrow> (route_error, static_route_descriptor list) result" where
  "normalize_routes pack_id pack_path idx [] = Inr []"
| "normalize_routes pack_id pack_path idx (r # rs) =
     rbind (normalize_route_descriptor pack_id pack_path idx r) (\<lambda>d.
     rbind (normalize_routes pack_id pack_path (idx + 1) rs) (\<lambda>ds. Inr (d # ds)))"

definition read_pack_static_routes ::
  "(path \<Rightarrow> (string, routes_manifest) result) \<Rightarrow> (json \<Rightarrow> (string, static_routes_extension) result)
     \<Rightarrow> path \<Rightarrow> (route_error, static_route_descriptor list option) result" where
  "read_pack_static_routes read_manifest from_value pack_path =
     rbind (map_err ManifestUnreadable (read_manifest pack_path)) (\<lambda>m.
       (case rm_extension m of
          None \<Rightarrow> Inr None
        | Some InlineAbsent \<Rightarrow> Inl InlineMissing
        | Some InlineTyped \<Rightarrow> Inl InlineWrongType
        | Some (InlineOther v) \<Rightarrow>
            rbind (map_err PayloadInvalid (from_value v)) (\<lambda>decoded.
              if ext_schema_version decoded \<noteq> 1
              then Inl (UnsupportedSchemaVersion (ext_schema_version decoded))
              else rbind (normalize_routes (rm_pack_id m) pack_path 0 (ext_routes decoded))
                     (\<lambda>routes. Inr (Some routes)))))"

section \<open>The plan\<close>

fun route_failures ::
  "reserved_route_set \<Rightarrow> static_route_descriptor list \<Rightarrow> (string \<rightharpoonup> string) \<Rightarrow> plan_failure list" where
  "route_failures reserved [] seen = []"
| "route_failures reserved (r # rs) seen =
     (if conflicts_with reserved (sr_public_path r)
      then [ReservedConflict (sr_route_id r) (sr_public_path r)] else [])
     @ (case seen (sr_public_path r) of
          None \<Rightarrow> []
        | Some existing \<Rightarrow> [DuplicatePath (sr_route_id r) (sr_public_path r) existing])
     @ route_failures reserved rs (seen(sr_public_path r \<mapsto> sr_route_id r))"

fun overlap_failures :: "static_route_descriptor list \<Rightarrow> plan_failure list" where
  "overlap_failures [] = []"
| "overlap_failures (l # rs) =
     map (\<lambda>r. AmbiguousOverlap (sr_route_id l) (sr_public_path l) (sr_route_id r) (sr_public_path r))
       (filter (\<lambda>r. paths_overlap (sr_public_path l) (sr_public_path r)) rs)
     @ overlap_failures rs"

definition validate_plan :: "reserved_route_set \<Rightarrow> static_route_plan \<Rightarrow> static_route_plan" where
  "validate_plan reserved plan =
     plan\<lparr>plan_failures := plan_failures plan
        @ route_failures reserved (plan_routes plan) (\<lambda>_. None)
        @ overlap_failures (plan_routes plan)\<rparr>"

text \<open>The map is keyed by \<open>PathBuf\<close>, which is compared by its components.\<close>

fun collect_domain_packs ::
  "(domain \<Rightarrow> ('e, provider_pack list) result) \<Rightarrow> domain list \<Rightarrow> (path_component list, path) btree
     \<Rightarrow> ('e, (path_component list, path) btree) result" where
  "collect_domain_packs discover [] m = Inr m"
| "collect_domain_packs discover (d # ds) m =
     rbind (discover d) (\<lambda>packs.
       collect_domain_packs discover ds (fold (\<lambda>p. bt_or_insert (path_components (pp_path p)) (pp_path p)) packs m))"

definition collect_runtime_pack_paths ::
  "bool \<Rightarrow> (domain \<Rightarrow> ('e, provider_pack list) result) \<Rightarrow> (domain \<Rightarrow> ('e, provider_pack list) result)
     \<Rightarrow> ('e, path list) result" where
  "collect_runtime_pack_paths demo_bundle discover_cbor_only discover =
     rbind (collect_domain_packs (if demo_bundle then discover_cbor_only else discover)
              [Messaging, Events, Secrets, OAuth] []) (\<lambda>m. Inr (bt_values m))"

fun gather_routes ::
  "(path \<Rightarrow> (route_error, static_route_descriptor list option) result) \<Rightarrow> (route_error \<Rightarrow> string)
     \<Rightarrow> path list \<Rightarrow> static_route_plan \<Rightarrow> static_route_plan" where
  "gather_routes read_routes show_err [] plan = plan"
| "gather_routes read_routes show_err (p # ps) plan =
     gather_routes read_routes show_err ps
       (case read_routes p of
          Inr (Some ds) \<Rightarrow> plan\<lparr>plan_routes := plan_routes plan @ ds\<rparr>
        | Inr None \<Rightarrow> plan
        | Inl e \<Rightarrow> plan\<lparr>plan_failures := plan_failures plan @ [PackFailure (show_err e)]\<rparr>)"

definition discover_from_bundle ::
  "(path \<Rightarrow> (route_error, static_route_descriptor list option) result) \<Rightarrow> (route_error \<Rightarrow> string)
     \<Rightarrow> ('e, path list) result \<Rightarrow> reserved_route_set \<Rightarrow> ('e, static_route_plan) result" where
  "discover_from_bundle read_routes show_err pack_paths reserved =
     rbind pack_paths (\<lambda>paths.
       Inr (validate_plan reserved
         (gather_routes read_routes show_err paths
           \<lparr>plan_routes = [], plan_warnings = [], plan_failures = []\<rparr>)))"

section \<open>The active route table\<close>

record static_route_match =
  rmatch_descriptor :: static_route_descriptor
  rmatch_asset_path :: string
  rmatch_is_directory :: bool

text \<open>\<open>from_plan\<close> sorts (stably) by falling number of segments, then by public path.\<close>

definition table_key :: "static_route_descriptor \<Rightarrow> int \<times> string" where
  "table_key d = (- int (length (sr_route_segments d)), sr_public_path d)"

definition from_plan :: "static_route_plan \<Rightarrow> static_route_descriptor list" where
  "from_plan plan = sort_key table_key (plan_routes plan)"

fun segments_match :: "route_scope_segment list \<Rightarrow> string list \<Rightarrow> bool" where
  "segments_match (Literal e # rs) (q # qs) = (e = q \<and> segments_match rs qs)"
| "segments_match (_ # rs) (q # qs) = segments_match rs qs"
| "segments_match _ _ = True"

fun match_loop ::
  "(static_route_descriptor \<Rightarrow> bool) \<Rightarrow> string list \<Rightarrow> bool \<Rightarrow> static_route_descriptor list
     \<Rightarrow> static_route_match option" where
  "match_loop accept normalized is_dir [] = None"
| "match_loop accept normalized is_dir (d # ds) =
     (if \<not> accept d then match_loop accept normalized is_dir ds
      else if length normalized < length (sr_route_segments d) then match_loop accept normalized is_dir ds
      else if \<not> segments_match (sr_route_segments d) normalized then match_loop accept normalized is_dir ds
      else Some \<lparr>rmatch_descriptor = d,
                 rmatch_asset_path = join ''/'' (drop (length (sr_route_segments d)) normalized),
                 rmatch_is_directory = is_dir\<rparr>)"

definition match_first ::
  "static_route_descriptor list \<Rightarrow> string \<Rightarrow> (static_route_descriptor \<Rightarrow> bool) \<Rightarrow> static_route_match option" where
  "match_first routes request_path accept =
     match_loop accept (path_segments request_path) (ends_with ''/'' request_path) routes"

definition match_request :: "static_route_descriptor list \<Rightarrow> string \<Rightarrow> static_route_match option" where
  "match_request routes request_path = match_first routes request_path (\<lambda>d. sr_scope d = None)"

definition match_request_for_revision ::
  "static_route_descriptor list \<Rightarrow> string \<Rightarrow> revision_scope \<Rightarrow> static_route_match option" where
  "match_request_for_revision routes request_path scope =
     match_first routes request_path (\<lambda>d.
       (case sr_scope d of
          None \<Rightarrow> False
        | Some s \<Rightarrow> rs_deployment_id s = rs_deployment_id scope
            \<and> rs_bundle_id s = rs_bundle_id scope
            \<and> rs_revision_id s = rs_revision_id scope))"

definition resolve_asset_path :: "static_route_match \<Rightarrow> string option" where
  "resolve_asset_path m =
     (if rmatch_asset_path m = [] \<or> rmatch_is_directory m
      then sr_index_file (rmatch_descriptor m) else Some (rmatch_asset_path m))"

definition fallback_asset_path :: "static_route_match \<Rightarrow> string option" where
  "fallback_asset_path m = sr_spa_fallback (rmatch_descriptor m)"

definition cache_control_value :: "cache_strategy \<Rightarrow> string option" where
  "cache_control_value s =
     (case s of NoCache \<Rightarrow> None | PublicMaxAge n \<Rightarrow> Some (''public, max-age='' @ show_nat n))"

section \<open>Asset paths are safe\<close>

text \<open>A safe relative path: nonempty, with no empty, current or parent segment.\<close>

definition safe_segment :: "string \<Rightarrow> bool" where
  "safe_segment s \<longleftrightarrow> plain_segment s \<and> s \<noteq> ''.'' \<and> s \<noteq> ''..''"

definition safe_relative :: "string \<Rightarrow> bool" where
  "safe_relative p \<longleftrightarrow> (\<forall>s \<in> set (split_on (CHR ''/'') p). safe_segment s)"

lemma normal_segments_map:
  "normal_segments (map segment_component segs) = (if ''..'' \<in> set segs then None else Some segs)"
  by (induction segs) (auto simp: segment_component_def)

lemma normal_segments_path:
  "normal_segments (path_components p) =
     (let segs = filter (\<lambda>s. s \<noteq> [] \<and> s \<noteq> ''.'') (split_on (CHR ''/'') p)
      in if starts_with ''/'' p \<or> ''..'' \<in> set segs then None else Some segs)"
  by (simp add: path_components_def Let_def normal_segments_map)

lemma normalize_relative_Some:
  assumes "normalize_relative_asset_path p = Some q"
  obtains segs where "q = join ''/'' segs" "segs \<noteq> []" "\<And>s. s \<in> set segs \<Longrightarrow> safe_segment s"
proof -
  let ?segs = "filter (\<lambda>s. s \<noteq> [] \<and> s \<noteq> ''.'') (split_on (CHR ''/'') p)"
  have "q = join ''/'' ?segs" "?segs \<noteq> []" "''..'' \<notin> set ?segs"
    using assms
    by (auto simp: normalize_relative_asset_path_def normal_segments_path Let_def split: if_splits)
  moreover have "safe_segment s" if "s \<in> set ?segs" "''..'' \<notin> set ?segs" for s
    using that by (auto simp: safe_segment_def plain_segment_def dest: split_on_no_sep)
  ultimately show ?thesis using that by blast
qed

lemma split_on_join_safe:
  "segs \<noteq> [] \<Longrightarrow> (\<And>s. s \<in> set segs \<Longrightarrow> safe_segment s) \<Longrightarrow> split_on (CHR ''/'') (join ''/'' segs) = segs"
  by (rule split_on_join) (auto simp: safe_segment_def plain_segment_def)

lemma normalize_relative_safe: "normalize_relative_asset_path p = Some q \<Longrightarrow> safe_relative q"
  by (erule normalize_relative_Some) (simp add: safe_relative_def split_on_join_safe)

lemma safe_relative_no_slash:
  assumes "safe_relative q"
  shows "\<not> starts_with ''/'' q"
proof
  assume "starts_with ''/'' q"
  then obtain cs where q: "q = CHR ''/'' # cs"
    by (cases q) (auto simp: starts_with_def)
  have "[] \<in> set (split_on (CHR ''/'') q)" unfolding q by simp
  then have "safe_segment []" using assms unfolding safe_relative_def by blast
  then show False by (simp add: safe_segment_def plain_segment_def)
qed

lemma normalize_relative_id:
  assumes "safe_relative q"
  shows "normalize_relative_asset_path q = Some q"
proof -
  let ?segs = "split_on (CHR ''/'') q"
  have safe: "\<forall>s \<in> set ?segs. safe_segment s" using assms by (simp add: safe_relative_def)
  then have "filter (\<lambda>s. s \<noteq> [] \<and> s \<noteq> ''.'') ?segs = ?segs"
    by (intro filter_True) (auto simp: safe_segment_def plain_segment_def)
  moreover have "''..'' \<notin> set ?segs" using safe by (auto simp: safe_segment_def)
  ultimately show ?thesis
    using safe_relative_no_slash [OF assms]
    by (simp add: normalize_relative_asset_path_def normal_segments_path Let_def)
qed

lemma split_on_append_sep:
  "split_on d (p @ d # q) = split_on d p @ split_on d q"
proof (induction p)
  case (Cons c p)
  then show ?case by (cases "split_on d p") (simp_all)
qed simp

lemma safe_relative_append:
  assumes "safe_relative p" "safe_relative q"
  shows "safe_relative (p @ ''/'' @ q)"
proof -
  have "split_on (CHR ''/'') (p @ ''/'' @ q) = split_on (CHR ''/'') p @ split_on (CHR ''/'') q"
    using split_on_append_sep [of "CHR ''/''" p q] by (simp only: append.simps)
  then show ?thesis using assms unfolding safe_relative_def by (simp only: set_append ball_Un)
qed

section \<open>What a normalised route satisfies\<close>

lemma position_None: "position p xs = None \<longleftrightarrow> (\<forall>x \<in> set xs. \<not> p x)"
  by (induction xs) auto

lemma position_Some: "position p xs = Some i \<Longrightarrow> i < length xs \<and> p (xs ! i) \<and> (\<forall>j < i. \<not> p (xs ! j))"
proof (induction xs arbitrary: i)
  case (Cons x xs)
  then show ?case by (cases i) (auto simp: less_Suc_eq_0_disj split: if_splits)
qed simp

definition team_after_tenant :: "route_scope_segment list \<Rightarrow> bool" where
  "team_after_tenant segs \<longleftrightarrow>
     (Team \<in> set segs \<longrightarrow> (\<exists>i j. i < j \<and> j < length segs \<and> segs ! i = Tenant \<and> segs ! j = Team
        \<and> (\<forall>k < j. segs ! k \<noteq> Team)))"

lemma parse_route_segments_team: "parse_route_segments p = Inr segs \<Longrightarrow> team_after_tenant segs \<and> segs \<noteq> []"
proof -
  assume a: "parse_route_segments p = Inr segs"
  have parsed: "parse_segments (path_segments p) = Inr segs" and ne: "path_segments p \<noteq> []"
    using a by (auto simp: parse_route_segments_def Let_def result_iff split: if_splits option.splits)
  have "length ws = length rs" if "parse_segments ws = Inr rs" for ws rs
    using that by (induction ws arbitrary: rs) (auto simp: result_iff split: if_splits)
  from this [OF parsed] have "segs \<noteq> []" using ne by auto
  moreover have "team_after_tenant segs"
  proof (cases "position (\<lambda>s. s = Team) segs")
    case None
    then show ?thesis by (auto simp: position_None team_after_tenant_def)
  next
    case (Some j)
    then obtain i where i: "position (\<lambda>s. s = Tenant) segs = Some i" "i < j"
      using a parsed ne by (auto simp: parse_route_segments_def Let_def split: option.splits if_splits)
    with position_Some [OF i(1)] position_Some [OF Some] show ?thesis
      by (auto simp: team_after_tenant_def)
  qed
  ultimately show ?thesis by simp
qed

definition opt_safe :: "string option \<Rightarrow> bool" where
  "opt_safe x \<longleftrightarrow> (case x of None \<Rightarrow> True | Some p \<Rightarrow> safe_relative p)"

lemma normalize_optional_safe: "normalize_optional_relative_asset_path v = Inr w \<Longrightarrow> opt_safe w"
  by (auto simp: normalize_optional_relative_asset_path_def opt_safe_def result_iff
      dest: normalize_relative_safe split: option.splits)

text \<open>A descriptor as the module accepts it.\<close>

definition route_ok :: "static_route_descriptor \<Rightarrow> bool" where
  "route_ok d \<longleftrightarrow>
     safe_relative (sr_source_root d) \<and> opt_safe (sr_index_file d) \<and> opt_safe (sr_spa_fallback d)
     \<and> (sr_tenant_scoped d \<longleftrightarrow> Tenant \<in> set (sr_route_segments d))
     \<and> (sr_team_scoped d \<longleftrightarrow> Team \<in> set (sr_route_segments d))
     \<and> team_after_tenant (sr_route_segments d) \<and> sr_route_segments d \<noteq> []
     \<and> parse_route_segments (sr_public_path d) = Inr (sr_route_segments d) \<and> sr_scope d = None"

lemma normalize_route_ok: "normalize_route_descriptor pid pp idx r = Inr d \<Longrightarrow> route_ok d"
  by (auto simp: normalize_route_descriptor_def Let_def result_iff route_ok_def
      dest: normalize_relative_safe normalize_optional_safe parse_route_segments_team split: if_splits)

lemma normalize_routes_ok: "normalize_routes pid pp idx rs = Inr ds \<Longrightarrow> d \<in> set ds \<Longrightarrow> route_ok d"
  by (induction pid pp idx rs arbitrary: ds rule: normalize_routes.induct)
    (auto simp: result_iff dest: normalize_route_ok)

lemma read_pack_routes_ok:
  "read_pack_static_routes rd fv p = Inr (Some ds) \<Longrightarrow> d \<in> set ds \<Longrightarrow> route_ok d"
  by (auto simp: read_pack_static_routes_def rbind_def map_err_def
      dest: normalize_routes_ok split: option.splits inline_payload.splits if_splits sum.splits)

lemma gather_routes_ok:
  "\<forall>d \<in> set (plan_routes plan). route_ok d \<Longrightarrow>
   \<forall>d \<in> set (plan_routes (gather_routes (read_pack_static_routes rd fv) sh ps plan)). route_ok d"
proof (induction ps arbitrary: plan)
  case (Cons p ps)
  let ?plan = "case read_pack_static_routes rd fv p of
      Inr (Some ds) \<Rightarrow> plan\<lparr>plan_routes := plan_routes plan @ ds\<rparr> | Inr None \<Rightarrow> plan
    | Inl e \<Rightarrow> plan\<lparr>plan_failures := plan_failures plan @ [PackFailure (sh e)]\<rparr>"
  have "\<forall>d \<in> set (plan_routes ?plan). route_ok d"
    using Cons.prems by (auto dest: read_pack_routes_ok split: sum.split option.split)
  then have "\<forall>d \<in> set (plan_routes (gather_routes (read_pack_static_routes rd fv) sh ps ?plan)). route_ok d"
    by (rule Cons.IH)
  then show ?case by simp
qed simp

section \<open>Matching\<close>

text \<open>The segments of a route admit a request that is at least as long and agrees on the
  literals.\<close>

definition admits :: "route_scope_segment list \<Rightarrow> string list \<Rightarrow> bool" where
  "admits segs req \<longleftrightarrow> length segs \<le> length req
     \<and> (\<forall>i < length segs. \<forall>e. segs ! i = Literal e \<longrightarrow> req ! i = e)"

definition serves :: "(static_route_descriptor \<Rightarrow> bool) \<Rightarrow> string \<Rightarrow> static_route_descriptor \<Rightarrow> bool" where
  "serves accept p d \<longleftrightarrow> accept d \<and> admits (sr_route_segments d) (path_segments p)"

lemma segments_match_iff:
  "length segs \<le> length req \<Longrightarrow>
   segments_match segs req \<longleftrightarrow> (\<forall>i < length segs. \<forall>e. segs ! i = Literal e \<longrightarrow> req ! i = e)"
proof (induction segs req rule: segments_match.induct)
  case (1 e rs q qs)
  then show ?case by (auto simp: less_Suc_eq_0_disj)
qed (auto simp: less_Suc_eq_0_disj)

lemma admits_iff: "admits segs req \<longleftrightarrow> length segs \<le> length req \<and> segments_match segs req"
  using segments_match_iff by (auto simp: admits_def)

definition mk_match :: "string \<Rightarrow> static_route_descriptor \<Rightarrow> static_route_match" where
  "mk_match p d =
     \<lparr>rmatch_descriptor = d,
      rmatch_asset_path = join ''/'' (drop (length (sr_route_segments d)) (path_segments p)),
      rmatch_is_directory = ends_with ''/'' p\<rparr>"

lemma match_loop_find:
  "match_loop accept (path_segments p) (ends_with ''/'' p) ds
     = map_option (mk_match p) (List.find (serves accept p) ds)"
  by (induction ds) (auto simp: serves_def admits_iff mk_match_def not_less)

lemma match_first_find:
  "match_first ds p accept = map_option (mk_match p) (List.find (serves accept p) ds)"
  by (simp add: match_first_def match_loop_find)

lemma match_first_from_plan:
  "match_first (from_plan plan) p accept = Some m \<longleftrightarrow>
     (\<exists>d. List.find (serves accept p) (from_plan plan) = Some d \<and> m = mk_match p d)"
  by (auto simp: match_first_find)

lemma match_first_filter:
  "match_first ds p accept = match_first (filter accept ds) p accept"
proof -
  have "List.find (serves accept p) ds = List.find (serves accept p) (filter accept ds)"
    by (induction ds) (auto simp: serves_def)
  then show ?thesis by (simp add: match_first_find)
qed

lemma set_from_plan [simp]: "set (from_plan plan) = set (plan_routes plan)"
  by (simp add: from_plan_def)

lemma match_first_Some:
  assumes "match_first (from_plan plan) p accept = Some m"
  shows "rmatch_descriptor m \<in> set (plan_routes plan)" "serves accept p (rmatch_descriptor m)"
    "\<And>d. d \<in> set (plan_routes plan) \<Longrightarrow> serves accept p d \<Longrightarrow> table_key (rmatch_descriptor m) \<le> table_key d"
proof -
  obtain d0 where d0: "List.find (serves accept p) (from_plan plan) = Some d0" "m = mk_match p d0"
    using assms by (auto simp: match_first_from_plan)
  then show "rmatch_descriptor m \<in> set (plan_routes plan)" "serves accept p (rmatch_descriptor m)"
    using find_Some_in [OF d0(1)] by (simp_all add: mk_match_def)
  fix d assume "d \<in> set (plan_routes plan)" "serves accept p d"
  then have "table_key d0 \<le> table_key d"
    using find_sorted_least [of table_key "from_plan plan" "serves accept p" d0 d] d0(1)
    by (simp add: from_plan_def)
  then show "table_key (rmatch_descriptor m) \<le> table_key d" using d0(2) by (simp add: mk_match_def)
qed

lemma match_first_None:
  "match_first (from_plan plan) p accept = None \<longleftrightarrow>
     (\<forall>d \<in> set (plan_routes plan). \<not> serves accept p d)"
  by (auto simp: match_first_find find_None_iff)

lemma table_key_le: "table_key d \<le> table_key d' \<Longrightarrow> length (sr_route_segments d') \<le> length (sr_route_segments d)"
  by (auto simp: table_key_def less_eq_prod_def)

text \<open>The routes of one revision.\<close>

definition of_revision :: "revision_scope \<Rightarrow> static_route_descriptor \<Rightarrow> bool" where
  "of_revision scope d \<longleftrightarrow> sr_scope d = Some scope"

lemma match_request_for_revision_first:
  "match_request_for_revision routes p scope = match_first routes p (of_revision scope)"
proof -
  have "(\<lambda>d. case sr_scope d of None \<Rightarrow> False
          | Some s \<Rightarrow> rs_deployment_id s = rs_deployment_id scope
              \<and> rs_bundle_id s = rs_bundle_id scope \<and> rs_revision_id s = rs_revision_id scope)
        = of_revision scope"
    by (rule ext) (auto simp: of_revision_def split: option.splits)
  then show ?thesis by (simp add: match_request_for_revision_def)
qed

section \<open>The plan\<close>

lemma route_failures_Nil:
  "route_failures reserved rs seen = [] \<longleftrightarrow>
     (\<forall>r \<in> set rs. \<not> conflicts_with reserved (sr_public_path r) \<and> seen (sr_public_path r) = None)
     \<and> distinct (map sr_public_path rs)"
proof (induction rs arbitrary: seen)
  case (Cons r rs)
  have "r' \<in> set rs \<Longrightarrow> sr_public_path r' = sr_public_path r \<Longrightarrow> sr_public_path r \<in> sr_public_path ` set rs" for r'
    by (metis imageI)
  then show ?case using Cons by (auto split: option.splits)
qed simp

definition disjoint_routes :: "static_route_descriptor list \<Rightarrow> bool" where
  "disjoint_routes rs \<longleftrightarrow> sorted_wrt (\<lambda>l r. \<not> paths_overlap (sr_public_path l) (sr_public_path r)) rs"

lemma overlap_failures_Nil: "overlap_failures rs = [] \<longleftrightarrow> disjoint_routes rs"
  by (induction rs) (auto simp: disjoint_routes_def filter_empty_conv)

lemma path_has_prefix_refl [simp]: "path_has_prefix p p"
  by (simp add: path_has_prefix_def)

lemma disjoint_routes_distinct: "disjoint_routes rs \<Longrightarrow> distinct (map sr_public_path rs)"
proof (induction rs)
  case (Cons r rs)
  moreover have "sr_public_path r \<noteq> sr_public_path s" if "s \<in> set rs" for s
  proof
    assume "sr_public_path r = sr_public_path s"
    then have "paths_overlap (sr_public_path r) (sr_public_path s)" by (simp add: paths_overlap_def)
    then show False using Cons.prems that by (simp add: disjoint_routes_def)
  qed
  ultimately show ?case by (auto simp: disjoint_routes_def)
qed simp

lemma validate_plan_Nil:
  "plan_failures (validate_plan reserved plan) = [] \<longleftrightarrow>
     plan_failures plan = [] \<and> disjoint_routes (plan_routes plan)
     \<and> (\<forall>d \<in> set (plan_routes plan). \<not> conflicts_with reserved (sr_public_path d))"
  by (auto simp: validate_plan_def route_failures_Nil overlap_failures_Nil disjoint_routes_distinct)

lemma disjoint_routes_pair:
  assumes "disjoint_routes rs" "a \<in> set rs" "b \<in> set rs" "a \<noteq> b"
  shows "\<not> paths_overlap (sr_public_path a) (sr_public_path b)"
  using assms by (induction rs) (auto simp: disjoint_routes_def paths_overlap_def)

section \<open>Literal routes\<close>

text \<open>A canonical literal route: its public path spells its (literal) segments.\<close>

definition literal_route :: "static_route_descriptor \<Rightarrow> string list \<Rightarrow> bool" where
  "literal_route d es \<longleftrightarrow> sr_route_segments d = map Literal es \<and> es \<noteq> []
     \<and> sr_public_path d = ''/'' @ join ''/'' es \<and> (\<forall>e \<in> set es. plain_segment e)"

lemma admits_literals: "admits (map Literal es) req \<longleftrightarrow> take (length es) req = es"
  by (auto simp: admits_def list_eq_iff_nth_eq)

lemma trim_end_matches_id: "s = [] \<or> last s \<noteq> c \<Longrightarrow> trim_end_matches c s = s"
  by (auto simp: trim_end_matches_def dropWhile_hd_id hd_rev)

lemma last_join_plain:
  "es \<noteq> [] \<Longrightarrow> \<forall>e \<in> set es. plain_segment e \<Longrightarrow> join sep es \<noteq> [] \<and> last (join sep es) = last (last es)"
  by (induction sep es rule: join.induct) (auto simp: plain_segment_def)

lemma path_has_prefix_join:
  assumes "es \<noteq> []" "\<forall>e \<in> set es. plain_segment e"
  shows "path_has_prefix (''/'' @ join ''/'' (es @ fs)) (''/'' @ join ''/'' es)"
proof (cases "fs = []")
  case False
  let ?pre = "''/'' @ join ''/'' es"
  have l: "join ''/'' es \<noteq> []" "last (join ''/'' es) = last (last es)"
    using last_join_plain [OF assms] by auto
  have "plain_segment (last es)" using assms by simp
  then have "last (last es) \<noteq> CHR ''/''" by (auto simp: plain_segment_def dest: last_in_set)
  then have t: "trim_end_matches (CHR ''/'') ?pre = ?pre"
    using l by (intro trim_end_matches_id) simp
  have j: "''/'' @ join ''/'' (es @ fs) = ?pre @ (''/'' @ join ''/'' fs)"
    using join_append [OF assms(1) False, of "''/''"] by (simp only: append_assoc)
  show ?thesis
    unfolding path_has_prefix_def strip_prefix_def Let_def t j
    by (simp only: starts_with_append append_eq_conv_conj drop_append) (simp add: starts_with_def)
qed simp

lemma take_eq_prefix:
  assumes "take (length xs) zs = xs" "take (length ys) zs = ys" "length xs \<le> length ys"
  shows "\<exists>fs. ys = xs @ fs"
proof -
  have "take (length xs) ys = xs" using assms by (metis min.absorb1 take_take)
  then show ?thesis by (metis append_take_drop_id)
qed

lemma literal_overlap:
  assumes "literal_route a es" "literal_route b fs"
    "admits (sr_route_segments a) req" "admits (sr_route_segments b) req"
  shows "paths_overlap (sr_public_path a) (sr_public_path b)"
proof -
  have t: "take (length es) req = es" "take (length fs) req = fs"
    using assms by (auto simp: literal_route_def admits_literals)
  consider "length es \<le> length fs" | "length fs \<le> length es" by linarith
  then show ?thesis
  proof cases
    case 1
    then obtain gs where "fs = es @ gs" using take_eq_prefix [OF t] by blast
    then show ?thesis using assms(1,2) path_has_prefix_join [of es gs]
      by (simp add: literal_route_def paths_overlap_def)
  next
    case 2
    then obtain gs where "es = fs @ gs" using take_eq_prefix [OF t(2,1)] by blast
    then show ?thesis using assms(1,2) path_has_prefix_join [of fs gs]
      by (simp add: literal_route_def paths_overlap_def)
  qed
qed

section \<open>Properties\<close>

text \<open>A descriptor for the concrete instances below.\<close>

definition sample_route :: "string \<Rightarrow> route_scope_segment list \<Rightarrow> revision_scope option \<Rightarrow> static_route_descriptor" where
  "sample_route p segs scope =
     \<lparr>sr_route_id = p, sr_pack_id = ''web'', sr_pack_path = ''packs/web.gtpack'',
      sr_public_path = p, sr_source_root = ''assets'', sr_index_file = None, sr_spa_fallback = None,
      sr_tenant_scoped = Tenant \<in> set segs, sr_team_scoped = Team \<in> set segs,
      sr_cache_strategy = NoCache, sr_route_segments = segs, sr_scope = scope\<rparr>"

definition sample_plan :: "static_route_descriptor list \<Rightarrow> static_route_plan" where
  "sample_plan ds = \<lparr>plan_routes = ds, plan_warnings = [], plan_failures = []\<rparr>"

definition sample_manifest :: "path \<Rightarrow> (string, routes_manifest) result" where
  "sample_manifest p = Inr \<lparr>rm_pack_id = ''web'', rm_extension = Some (InlineOther JNull)\<rparr>"

definition sample_extension :: "json \<Rightarrow> (string, static_routes_extension) result" where
  "sample_extension v = Inr \<lparr>ext_schema_version = 1, ext_routes =
     [\<lparr>rr_id = None, rr_public_path = ''v1/web/docs/'', rr_source_root = ''./assets/docs'',
       rr_index_file = Some ''index.html'', rr_spa_fallback = None, rr_tenant = False,
       rr_team = False, rr_cache = None\<rparr>]\<rparr>"

text \<open>
  C10: every route of a plan built by \<open>discover_from_bundle\<close> is well formed: its source root,
  index file and fallback are relative paths without empty, \<open>.\<close> or \<open>..\<close> segments, so they
  stay inside the pack; its tenant and team flags agree with its segments; a team segment
  comes after a tenant segment; its segments are the parse of its public path, and it is not
  bound to a revision.
\<close>

theorem discovered_routes_sound:
  assumes "discover_from_bundle (read_pack_static_routes rd fv) sh paths reserved = Inr plan"
    and "d \<in> set (plan_routes plan)"
  shows "route_ok d"
proof -
  obtain ps where "paths = Inr ps" and
    plan: "plan = validate_plan reserved (gather_routes (read_pack_static_routes rd fv) sh ps
      \<lparr>plan_routes = [], plan_warnings = [], plan_failures = []\<rparr>)"
    using assms(1) by (auto simp: discover_from_bundle_def rbind_def split: sum.splits)
  then show ?thesis
    using assms(2) gather_routes_ok [of "\<lparr>plan_routes = [], plan_warnings = [], plan_failures = []\<rparr>" rd fv sh ps]
    by (simp add: validate_plan_def)
qed

theorem discovered_routes_sound_witness:
  "route_ok (sample_route ''/v1/web/docs'' [Literal ''v1'', Literal ''web'', Literal ''docs''] None
     \<lparr>sr_route_id := ''web::0'', sr_source_root := ''assets/docs'', sr_index_file := Some ''index.html''\<rparr>)"
proof (rule discovered_routes_sound [of sample_manifest sample_extension "\<lambda>_. []"
    "Inr [''packs/web.gtpack''] :: (string, path list) result" operator_defaults])
  show "discover_from_bundle (read_pack_static_routes sample_manifest sample_extension) (\<lambda>_. [])
      (Inr [''packs/web.gtpack''] :: (string, path list) result) operator_defaults =
    Inr (sample_plan [sample_route ''/v1/web/docs'' [Literal ''v1'', Literal ''web'', Literal ''docs''] None
     \<lparr>sr_route_id := ''web::0'', sr_source_root := ''assets/docs'', sr_index_file := Some ''index.html''\<rparr>])"
    by code_simp
qed (simp add: sample_plan_def)

text \<open>
  C11: \<open>validate_plan\<close> accepts a plan exactly when nothing failed before, no route lies in the
  reserved space, and no two routes have overlapping public paths (which subsumes duplicates).
\<close>

theorem plan_accepted_iff:
  "plan_failures (validate_plan reserved plan) = [] \<longleftrightarrow>
     plan_failures plan = []
     \<and> (\<forall>d \<in> set (plan_routes plan). \<not> conflicts_with reserved (sr_public_path d))
     \<and> (\<forall>i j. i < j \<and> j < length (plan_routes plan) \<longrightarrow>
          \<not> paths_overlap (sr_public_path (plan_routes plan ! i)) (sr_public_path (plan_routes plan ! j)))"
  by (auto simp: validate_plan_Nil disjoint_routes_def sorted_wrt_iff_nth_less)

theorem plan_accepted_iff_witness:
  "\<not> paths_overlap (sr_public_path (plan_routes (sample_plan
       [sample_route ''/docs'' [Literal ''docs''] None, sample_route ''/chat'' [Literal ''chat''] None]) ! 0))
     (sr_public_path (plan_routes (sample_plan
       [sample_route ''/docs'' [Literal ''docs''] None, sample_route ''/chat'' [Literal ''chat''] None]) ! 1))"
proof -
  have "plan_failures (validate_plan operator_defaults (sample_plan
       [sample_route ''/docs'' [Literal ''docs''] None, sample_route ''/chat'' [Literal ''chat''] None])) = []"
    by code_simp
  from this [unfolded plan_accepted_iff] show ?thesis
    by (elim conjE allE [of _ 0] allE [of _ 1]) (simp add: sample_plan_def)
qed

text \<open>
  C12: in an accepted plan no request is served by two different canonical literal routes, so
  the order of the table does not matter for them.
\<close>

theorem literal_routes_unambiguous:
  assumes "plan_failures (validate_plan reserved plan) = []"
    and "a \<in> set (plan_routes plan)" "b \<in> set (plan_routes plan)"
    and "literal_route a es" "literal_route b fs"
    and "serves accept p a" "serves accept p b"
  shows "a = b"
proof (rule ccontr)
  assume "a \<noteq> b"
  then have "\<not> paths_overlap (sr_public_path a) (sr_public_path b)"
    using assms(1-3) by (intro disjoint_routes_pair) (simp_all add: validate_plan_Nil)
  then show False using literal_overlap assms(4-7) by (auto simp: serves_def)
qed

theorem literal_routes_unambiguous_witness:
  "\<not> serves (\<lambda>d. sr_scope d = None) ''/docs/a.html'' (sample_route ''/chat'' [Literal ''chat''] None)"
proof
  let ?docs = "sample_route ''/docs'' [Literal ''docs''] None"
  let ?chat = "sample_route ''/chat'' [Literal ''chat''] None"
  assume c: "serves (\<lambda>d. sr_scope d = None) ''/docs/a.html'' ?chat"
  have ok: "plan_failures (validate_plan operator_defaults (sample_plan [?docs, ?chat])) = []"
    by code_simp
  have s: "serves (\<lambda>d. sr_scope d = None) ''/docs/a.html'' ?docs"
    by (simp add: serves_def admits_def sample_route_def path_segments_def trim_start_matches_def)
  have l: "literal_route ?docs [''docs'']" "literal_route ?chat [''chat'']"
    by (simp_all add: literal_route_def sample_route_def plain_segment_def)
  have m: "?docs \<in> set (plan_routes (sample_plan [?docs, ?chat]))"
    "?chat \<in> set (plan_routes (sample_plan [?docs, ?chat]))"
    by (simp_all add: sample_plan_def)
  have "?chat = ?docs" by (rule literal_routes_unambiguous [OF ok m(2) m(1) l(2) l(1) c s])
  then show False by (simp add: sample_route_def)
qed

text \<open>
  C8: the route chosen for a revision belongs to that very deployment, bundle and revision,
  admits the request, and has at least as many segments as every other route of the revision
  that admits it; when none is chosen, none admits the request.
\<close>

theorem revision_match_most_specific:
  "case match_request_for_revision (from_plan plan) p scope of
     None \<Rightarrow> \<forall>d \<in> set (plan_routes plan). \<not> serves (of_revision scope) p d
   | Some m \<Rightarrow>
       rmatch_descriptor m \<in> set (plan_routes plan)
       \<and> sr_scope (rmatch_descriptor m) = Some scope
       \<and> admits (sr_route_segments (rmatch_descriptor m)) (path_segments p)
       \<and> (\<forall>d \<in> set (plan_routes plan). serves (of_revision scope) p d \<longrightarrow>
            length (sr_route_segments d) \<le> length (sr_route_segments (rmatch_descriptor m)))"
proof (cases "match_first (from_plan plan) p (of_revision scope)")
  case None
  then have "\<forall>d \<in> set (plan_routes plan). \<not> serves (of_revision scope) p d"
    by (simp only: match_first_None)
  with None show ?thesis by (simp add: match_request_for_revision_first)
next
  case (Some m)
  note facts = match_first_Some [OF Some]
  have "serves (of_revision scope) p (rmatch_descriptor m)" by (rule facts(2))
  then have "sr_scope (rmatch_descriptor m) = Some scope"
    "admits (sr_route_segments (rmatch_descriptor m)) (path_segments p)"
    by (auto simp: serves_def of_revision_def)
  then show ?thesis
    using facts(1) table_key_le [OF facts(3)] Some by (simp add: match_request_for_revision_first)
qed

theorem revision_match_most_specific_witness:
  "\<not> serves (of_revision \<lparr>rs_deployment_id = ''d1'', rs_bundle_id = ''b2'', rs_revision_id = ''r1''\<rparr>)
     ''/docs/a'' (sample_route ''/docs'' [Literal ''docs'']
       (Some \<lparr>rs_deployment_id = ''d1'', rs_bundle_id = ''b1'', rs_revision_id = ''r1''\<rparr>))"
proof -
  let ?d = "sample_route ''/docs'' [Literal ''docs'']
       (Some \<lparr>rs_deployment_id = ''d1'', rs_bundle_id = ''b1'', rs_revision_id = ''r1''\<rparr>)"
  let ?s = "\<lparr>rs_deployment_id = ''d1'', rs_bundle_id = ''b2'', rs_revision_id = ''r1''\<rparr>"
  have "match_request_for_revision (from_plan (sample_plan [?d])) ''/docs/a'' ?s = None"
    by code_simp
  then have "\<forall>d \<in> set (plan_routes (sample_plan [?d])). \<not> serves (of_revision ?s) ''/docs/a'' d"
    using revision_match_most_specific [where plan = "sample_plan [?d]" and p = "''/docs/a''" and scope = ?s] by simp
  then show ?thesis by (simp add: sample_plan_def)
qed

text \<open>
  C9: revisions are isolated from each other and from the unscoped routes: the answer for a
  revision depends on its own routes only, and the unscoped answer on the unscoped routes only.
\<close>

theorem route_scopes_isolated:
  "match_request_for_revision routes p scope
     = match_request_for_revision (filter (\<lambda>d. sr_scope d = Some scope) routes) p scope
   \<and> match_request routes p = match_request (filter (\<lambda>d. sr_scope d = None) routes) p"
proof
  show "match_request_for_revision routes p scope
     = match_request_for_revision (filter (\<lambda>d. sr_scope d = Some scope) routes) p scope"
    using match_first_filter [of routes p "of_revision scope"]
    by (simp only: match_request_for_revision_first of_revision_def [abs_def])
  show "match_request routes p = match_request (filter (\<lambda>d. sr_scope d = None) routes) p"
    unfolding match_request_def by (rule match_first_filter)
qed

text \<open>
  The reserved space is not protected against shorter or parameterised routes. The plan
  with the single route \<open>/{tenant}\<close> passes validation against the operator's defaults, and so
  does the one with the single route \<open>/v1\<close>; yet either route captures the ingress path
  \<open>/v1/messaging/ingress/telegram/acme\<close>, which lies in the reserved space.
\<close>

lemma reserved_space_shadowed:
  "plan_failures (validate_plan operator_defaults (sample_plan [sample_route ''/{tenant}'' [Tenant] None])) = []
   \<and> plan_failures (validate_plan operator_defaults (sample_plan [sample_route ''/v1'' [Literal ''v1''] None])) = []
   \<and> conflicts_with operator_defaults ''/v1/messaging/ingress/telegram/acme''
   \<and> match_request (from_plan (sample_plan [sample_route ''/{tenant}'' [Tenant] None]))
       ''/v1/messaging/ingress/telegram/acme'' \<noteq> None
   \<and> match_request (from_plan (sample_plan [sample_route ''/v1'' [Literal ''v1''] None]))
       ''/v1/messaging/ingress/telegram/acme'' \<noteq> None"
  by code_simp

end
