(* ===== verification/Offers.thy ===== *)
theory Offers
  imports OrdMap Json Domains Ranking
begin

text \<open>
  The offer registry (\<open>src/offers/registry.rs\<close>): the offers a pack manifest declares, their
  registration under \<open>pack::offer\<close> keys, the ranked selections of hooks and subscriptions,
  and the counts. Opening the archive and decoding CBOR to JSON is a parameter.
\<close>

section \<open>Data\<close>

datatype offer_kind = Hook | Subs | Capability

record offer =
  of_offer_key :: string
  of_pack_id :: string
  of_pack_ref :: path
  of_id :: string
  of_kind :: offer_kind
  of_priority :: int
  of_provider_op :: string
  of_stage :: "string option"
  of_contract :: "string option"

record pack_offer =
  po_id :: string
  po_kind :: offer_kind
  po_priority :: int
  po_provider_op :: string
  po_stage :: "string option"
  po_contract :: "string option"

record pack_offers =
  pk_pack_id :: string
  pk_pack_ref :: path
  pk_offers :: "pack_offer list"

record offer_registry =
  by_key :: "(string, offer) btree"
  pack_refs :: "(string, path) btree"

datatype offer_error =
    LoadFailed path string
  | OfferPackIdMissing path
  | OfferIdMissing path
  | DuplicateOfferId string path
  | OfferKindInvalid string path
  | ProviderOpMissing string path
  | DuplicatePackId string path path

definition kind_parse :: "string \<Rightarrow> offer_kind option" where
  "kind_parse raw =
     (let s = to_ascii_lowercase (trim raw) in
      if s = ''hook'' then Some Hook
      else if s = ''subs'' then Some Subs
      else if s = ''capability'' then Some Capability
      else None)"

definition kind_str :: "offer_kind \<Rightarrow> string" where
  "kind_str k = (case k of Hook \<Rightarrow> ''hook'' | Subs \<Rightarrow> ''subs'' | Capability \<Rightarrow> ''capability'')"

definition offer_key :: "string \<Rightarrow> string \<Rightarrow> string" where
  "offer_key pack_id offer_id = pack_id @ ''::'' @ offer_id"

text \<open>\<open>value as i32\<close> on an \<open>i64\<close>: the low 32 bits, as a signed number.\<close>

definition as_i32 :: "int \<Rightarrow> int" where
  "as_i32 i = (i + 2 ^ 31) mod 2 ^ 32 - 2 ^ 31"

section \<open>Reading a manifest\<close>

definition nonempty :: "string option \<Rightarrow> string option" where
  "nonempty x = opt_filter (\<lambda>v. v \<noteq> []) (map_option trim x)"

definition resolve_symbol_pack_id :: "json \<Rightarrow> string option" where
  "resolve_symbol_pack_id manifest =
     Option.bind
       (Option.bind (opt_or (Option.bind (json_get manifest ''meta'') (\<lambda>m. json_get m ''pack_id''))
                      (json_get manifest ''pack_id'')) as_u64)
       (\<lambda>idx. Option.bind (Option.bind (Option.bind (Option.bind
          (json_get manifest ''symbols'') (\<lambda>s. json_get s ''pack_ids'')) as_array)
          (\<lambda>arr. nth_opt arr idx)) as_str)"

definition manifest_pack_id :: "json \<Rightarrow> string option" where
  "manifest_pack_id manifest =
     opt_or
       (nonempty (opt_or
          (Option.bind (Option.bind (json_get manifest ''meta'') (\<lambda>v. json_get v ''pack_id'')) as_str)
          (Option.bind (json_get manifest ''pack_id'') as_str)))
       (resolve_symbol_pack_id manifest)"

definition array_at :: "json option \<Rightarrow> json list" where
  "array_at v = opt_unwrap_or (Option.bind v as_array) []"

definition raw_offers :: "json \<Rightarrow> json list" where
  "raw_offers manifest =
     array_at (json_get manifest ''offers'')
     @ (case Option.bind (json_get manifest ''extensions'') as_object of
          None \<Rightarrow> []
        | Some exts \<Rightarrow>
            concat (map (\<lambda>(_, ext).
              array_at (json_get ext ''offers'')
              @ array_at (Option.bind (json_get ext ''inline'') (\<lambda>v. json_get v ''offers''))) exts))"

definition has_key :: "(string \<times> json) list \<Rightarrow> string \<Rightarrow> bool" where
  "has_key obj k \<longleftrightarrow> map_of obj k \<noteq> None"

definition parse_offer ::
  "path \<Rightarrow> (string \<times> json) list \<Rightarrow> string set \<Rightarrow> (offer_error, pack_offer) result" where
  "parse_offer pack_ref obj seen =
     rbind (ok_or (OfferIdMissing pack_ref)
       (nonempty (Option.bind (opt_or (map_of obj ''id'') (map_of obj ''offer_id'')) as_str))) (\<lambda>id.
     if id \<in> seen then Inl (DuplicateOfferId id pack_ref)
     else
       rbind (ok_or (OfferKindInvalid id pack_ref)
         (opt_or (Option.bind (Option.bind (map_of obj ''kind'') as_str) kind_parse)
            (if has_key obj ''cap_id'' then Some Capability else None))) (\<lambda>kind.
       rbind (ok_or (ProviderOpMissing id pack_ref)
         (nonempty (Option.bind (Option.bind (map_of obj ''provider'') (\<lambda>v. json_get v ''op'')) as_str))) (\<lambda>op.
         Inr \<lparr>po_id = id, po_kind = kind,
              po_priority = opt_unwrap_or (map_option as_i32 (Option.bind (map_of obj ''priority'') as_i64)) 100,
              po_provider_op = op,
              po_stage = nonempty (Option.bind (map_of obj ''stage'') as_str),
              po_contract = nonempty (Option.bind (map_of obj ''contract'') as_str)\<rparr>)))"

definition offer_candidate :: "(string \<times> json) list \<Rightarrow> bool" where
  "offer_candidate obj \<longleftrightarrow>
     has_key obj ''id'' \<or> has_key obj ''offer_id'' \<or> has_key obj ''kind'' \<or> has_key obj ''cap_id''"

fun parse_offers_loop ::
  "path \<Rightarrow> json list \<Rightarrow> string set \<Rightarrow> (offer_error, pack_offer list) result" where
  "parse_offers_loop pack_ref [] seen = Inr []"
| "parse_offers_loop pack_ref (raw # rest) seen =
     (case as_object raw of
        None \<Rightarrow> parse_offers_loop pack_ref rest seen
      | Some obj \<Rightarrow>
          if \<not> offer_candidate obj then parse_offers_loop pack_ref rest seen
          else rbind (parse_offer pack_ref obj seen) (\<lambda>po.
               rbind (parse_offers_loop pack_ref rest (insert (po_id po) seen)) (\<lambda>pos. Inr (po # pos))))"

definition parse_pack_offers :: "json \<Rightarrow> path \<Rightarrow> (offer_error, pack_offer list) result" where
  "parse_pack_offers manifest pack_ref = parse_offers_loop pack_ref (raw_offers manifest) {}"

definition load_pack_offers ::
  "(path \<Rightarrow> (string, json) result) \<Rightarrow> path \<Rightarrow> (offer_error, pack_offers) result" where
  "load_pack_offers read_manifest pack_ref =
     rbind (map_err (LoadFailed pack_ref) (read_manifest pack_ref)) (\<lambda>manifest.
     rbind (ok_or (OfferPackIdMissing pack_ref) (manifest_pack_id manifest)) (\<lambda>pack_id.
     rbind (parse_pack_offers manifest pack_ref) (\<lambda>offers.
       Inr \<lparr>pk_pack_id = pack_id, pk_pack_ref = pack_ref, pk_offers = offers\<rparr>)))"

text \<open>The pack files of a directory that can be read, in the order of \<open>PathBuf\<close>: by components.\<close>

definition discover_gtpacks :: "path \<Rightarrow> (string \<times> dir_entry) list \<Rightarrow> path list" where
  "discover_gtpacks root es = sort_key path_components (collect_stack [(root, es)])"

section \<open>The registry\<close>

definition empty_registry :: offer_registry where
  "empty_registry = \<lparr>by_key = [], pack_refs = []\<rparr>"

definition mk_offer :: "string \<Rightarrow> path \<Rightarrow> pack_offer \<Rightarrow> offer" where
  "mk_offer pack_id pack_ref po =
     \<lparr>of_offer_key = offer_key pack_id (po_id po), of_pack_id = pack_id, of_pack_ref = pack_ref,
      of_id = po_id po, of_kind = po_kind po, of_priority = po_priority po,
      of_provider_op = po_provider_op po, of_stage = po_stage po, of_contract = po_contract po\<rparr>"

definition register_pack :: "pack_offers \<Rightarrow> offer_registry \<Rightarrow> (offer_error, offer_registry) result" where
  "register_pack pk reg =
     (case bt_get (pack_refs reg) (pk_pack_id pk) of
        Some existing_ref \<Rightarrow>
          if existing_ref \<noteq> pk_pack_ref pk
          then Inl (DuplicatePackId (pk_pack_id pk) existing_ref (pk_pack_ref pk))
          else Inr (reg\<lparr>by_key := fold (\<lambda>po. bt_insert (offer_key (pk_pack_id pk) (po_id po))
                                          (mk_offer (pk_pack_id pk) (pk_pack_ref pk) po))
                                   (pk_offers pk) (by_key reg)\<rparr>)
      | None \<Rightarrow>
          Inr \<lparr>by_key = fold (\<lambda>po. bt_insert (offer_key (pk_pack_id pk) (po_id po))
                                 (mk_offer (pk_pack_id pk) (pk_pack_ref pk) po))
                          (pk_offers pk) (by_key reg),
               pack_refs = bt_insert (pk_pack_id pk) (pk_pack_ref pk) (pack_refs reg)\<rparr>)"

fun register_refs ::
  "(path \<Rightarrow> (string, json) result) \<Rightarrow> path list \<Rightarrow> offer_registry \<Rightarrow> (offer_error, offer_registry) result" where
  "register_refs read_manifest [] reg = Inr reg"
| "register_refs read_manifest (p # ps) reg =
     rbind (load_pack_offers read_manifest p) (\<lambda>parsed.
     rbind (register_pack parsed reg) (\<lambda>reg'. register_refs read_manifest ps reg'))"

definition from_pack_refs ::
  "(path \<Rightarrow> (string, json) result) \<Rightarrow> path list \<Rightarrow> (offer_error, offer_registry) result" where
  "from_pack_refs read_manifest refs = register_refs read_manifest refs empty_registry"

definition offers_total :: "offer_registry \<Rightarrow> nat" where
  "offers_total reg = length (by_key reg)"

definition packs_total :: "offer_registry \<Rightarrow> nat" where
  "packs_total reg = length (pack_refs reg)"

definition kind_counts :: "offer_registry \<Rightarrow> (string, nat) btree" where
  "kind_counts reg = fold (\<lambda>off. bt_count (kind_str (of_kind off))) (bt_values (by_key reg)) []"

definition hook_counts_by_stage_contract :: "offer_registry \<Rightarrow> (string \<times> string \<times> nat) list" where
  "hook_counts_by_stage_contract reg =
     map (\<lambda>((stage, contract), n). (stage, contract, n))
       (fold (\<lambda>off counts.
          if of_kind off \<noteq> Hook then counts
          else (case of_stage off of None \<Rightarrow> counts
                | Some stage \<Rightarrow>
                    (case of_contract off of None \<Rightarrow> counts
                     | Some contract \<Rightarrow> bt_count (stage, contract) counts)))
          (bt_values (by_key reg)) [])"

definition subs_counts_by_contract :: "offer_registry \<Rightarrow> (string, nat) btree" where
  "subs_counts_by_contract reg =
     fold (\<lambda>off counts.
        if of_kind off \<noteq> Subs then counts
        else bt_count (opt_unwrap_or (of_contract off) ''<none>'') counts)
       (bt_values (by_key reg)) []"

text \<open>Both selections sort by priority and then by offer key.\<close>

definition offer_rank :: "offer \<Rightarrow> int \<times> string" where
  "offer_rank off = (of_priority off, of_offer_key off)"

definition select_hooks :: "offer_registry \<Rightarrow> string \<Rightarrow> string \<Rightarrow> offer list" where
  "select_hooks reg stage contract =
     sort_key offer_rank (filter (\<lambda>off.
        of_kind off = Hook \<and> of_stage off = Some stage \<and> of_contract off = Some contract)
        (bt_values (by_key reg)))"

definition select_subs :: "offer_registry \<Rightarrow> string option \<Rightarrow> offer list" where
  "select_subs reg contract =
     sort_key offer_rank (filter (\<lambda>off.
        of_kind off = Subs \<and> (case contract of None \<Rightarrow> True | Some c \<Rightarrow> of_contract off = Some c))
        (bt_values (by_key reg)))"

section \<open>The registry invariant\<close>

text \<open>Every entry is stored under the key made of its pack and its id, and its pack is
  registered with the archive it came from.\<close>

definition registry_inv :: "offer_registry \<Rightarrow> bool" where
  "registry_inv reg \<longleftrightarrow> bt_wf (by_key reg) \<and> bt_wf (pack_refs reg)
     \<and> (\<forall>k off. bt_get (by_key reg) k = Some off \<longrightarrow>
          of_offer_key off = k \<and> k = offer_key (of_pack_id off) (of_id off)
          \<and> bt_get (pack_refs reg) (of_pack_id off) = Some (of_pack_ref off))"

lemma mk_offer_simps [simp]:
  "of_offer_key (mk_offer p r po) = offer_key p (po_id po)" "of_pack_id (mk_offer p r po) = p"
  "of_pack_ref (mk_offer p r po) = r" "of_id (mk_offer p r po) = po_id po"
  by (simp_all add: mk_offer_def)

lemma empty_registry_inv: "registry_inv empty_registry"
  by (simp add: registry_inv_def empty_registry_def bt.get_empty)

text \<open>What registration does to lookup.\<close>

definition pack_lookup :: "pack_offers \<Rightarrow> string \<Rightarrow> offer option" where
  "pack_lookup pk k =
     map_option (mk_offer (pk_pack_id pk) (pk_pack_ref pk))
       (List.find (\<lambda>po. offer_key (pk_pack_id pk) (po_id po) = k) (rev (pk_offers pk)))"

lemma register_pack_spec:
  assumes "registry_inv reg" "register_pack pk reg = Inr reg'"
  shows "bt_wf (by_key reg')" "bt_wf (pack_refs reg')"
    "bt_get (by_key reg') k = opt_or (pack_lookup pk k) (bt_get (by_key reg) k)"
    "bt_get (pack_refs reg') p = (if p = pk_pack_id pk then Some (pk_pack_ref pk) else bt_get (pack_refs reg) p)"
    "bt_get (pack_refs reg) p = Some r \<Longrightarrow> bt_get (pack_refs reg') p = Some r"
proof -
  let ?fold = "fold (\<lambda>po. bt_insert (offer_key (pk_pack_id pk) (po_id po))
      (mk_offer (pk_pack_id pk) (pk_pack_ref pk) po)) (pk_offers pk) (by_key reg)"
  have wf: "bt_wf (by_key reg)" "bt_wf (pack_refs reg)"
    using assms(1) by (simp_all add: registry_inv_def)
  have key: "by_key reg' = ?fold"
    using assms(2) by (auto simp: register_pack_def split: option.splits if_splits)
  show "bt_wf (by_key reg')" unfolding key by (rule bt.wf_fold_put [OF wf(1)])
  show "bt_get (by_key reg') k = opt_or (pack_lookup pk k) (bt_get (by_key reg) k)"
    unfolding key bt.get_fold_put [OF wf(1)] pack_lookup_def opt_or_def
    by (simp split: option.split)
  show "bt_wf (pack_refs reg')"
    using assms(2) wf by (auto simp: register_pack_def split: option.splits if_splits)
  show "bt_get (pack_refs reg') p =
      (if p = pk_pack_id pk then Some (pk_pack_ref pk) else bt_get (pack_refs reg) p)"
    using assms(2) wf by (auto simp: register_pack_def bt_get_insert split: option.splits if_splits)
  show "bt_get (pack_refs reg) p = Some r \<Longrightarrow> bt_get (pack_refs reg') p = Some r"
    using assms(2) wf by (auto simp: register_pack_def bt_get_insert split: option.splits if_splits)
qed

lemma register_pack_inv:
  assumes "registry_inv reg" "register_pack pk reg = Inr reg'"
  shows "registry_inv reg'"
proof -
  note spec = register_pack_spec [OF assms]
  have "of_offer_key off = k \<and> k = offer_key (of_pack_id off) (of_id off)
      \<and> bt_get (pack_refs reg') (of_pack_id off) = Some (of_pack_ref off)"
    if "bt_get (by_key reg') k = Some off" for k off
  proof (cases "pack_lookup pk k")
    case None
    then have "bt_get (by_key reg) k = Some off" using that spec(3) by simp
    then show ?thesis using assms(1) spec(5) by (auto simp: registry_inv_def)
  next
    case (Some off')
    then have "off' = off" using that spec(3) by simp
    with Some show ?thesis using spec(4)
      by (auto simp: pack_lookup_def dest: find_Some_in)
  qed
  then show ?thesis using spec(1,2) by (simp add: registry_inv_def)
qed

lemma register_refs_inv:
  "registry_inv reg \<Longrightarrow> register_refs rm ps reg = Inr reg' \<Longrightarrow> registry_inv reg'"
  by (induction ps arbitrary: reg) (auto simp: result_iff intro: register_pack_inv)

lemma from_pack_refs_inv: "from_pack_refs rm ps = Inr reg \<Longrightarrow> registry_inv reg"
  unfolding from_pack_refs_def by (rule register_refs_inv [OF empty_registry_inv])

section \<open>Selection\<close>

lemma registry_ranks_distinct:
  assumes "registry_inv reg"
  shows "distinct (map offer_rank (bt_values (by_key reg)))"
proof -
  have wf: "bt_wf (by_key reg)" using assms by (simp add: registry_inv_def)
  have "of_offer_key off = k" if "(k, off) \<in> set (by_key reg)" for k off
  proof -
    have "bt_get (by_key reg) k = Some off" using that bt.entries_get [OF wf] by blast
    then show ?thesis using assms by (simp add: registry_inv_def)
  qed
  then have keys: "map of_offer_key (bt_values (by_key reg)) = map fst (by_key reg)"
    by (auto simp: bt_values_def)
  have "distinct (map of_offer_key (bt_values (by_key reg)))"
    unfolding keys by (rule bt.entries_distinct [OF wf])
  then have "distinct (map (snd \<circ> offer_rank) (bt_values (by_key reg)))"
    by (simp add: offer_rank_def comp_def)
  then show ?thesis by (metis distinct_map map_map)
qed

interpretation offers: ranked_pool offer_rank "\<lambda>reg. bt_values (by_key reg)" registry_inv
  by unfold_locales (rule registry_ranks_distinct)

lemma registry_values:
  "registry_inv reg \<Longrightarrow> set (bt_values (by_key reg)) = {off. bt_get (by_key reg) (of_offer_key off) = Some off}"
proof -
  assume inv: "registry_inv reg"
  then have wf: "bt_wf (by_key reg)" by (simp add: registry_inv_def)
  show ?thesis
  proof (rule set_eqI)
    fix off
    show "off \<in> set (bt_values (by_key reg)) \<longleftrightarrow> off \<in> {off. bt_get (by_key reg) (of_offer_key off) = Some off}"
      using inv bt.entries_values [OF wf, of off] by (auto simp: bt_values_def registry_inv_def)
  qed
qed

section \<open>Parsing\<close>

lemma nonempty_Some: "nonempty x = Some s \<Longrightarrow> s \<noteq> [] \<and> trimmed s"
  by (auto simp: nonempty_def)

definition offer_ok :: "pack_offer \<Rightarrow> bool" where
  "offer_ok po \<longleftrightarrow> po_id po \<noteq> [] \<and> trimmed (po_id po) \<and> po_provider_op po \<noteq> []
     \<and> trimmed (po_provider_op po) \<and> - (2 ^ 31) \<le> po_priority po \<and> po_priority po < 2 ^ 31
     \<and> po_stage po \<noteq> Some [] \<and> po_contract po \<noteq> Some []"

lemma as_i32_range: "- (2 ^ 31) \<le> as_i32 i \<and> as_i32 i < 2 ^ 31"
  by (simp add: as_i32_def algebra_simps)

lemma as_i32_id: "- (2 ^ 31) \<le> i \<Longrightarrow> i < 2 ^ 31 \<Longrightarrow> as_i32 i = i"
  by (simp add: as_i32_def mod_pos_pos_trivial)

lemma parse_offer_ok:
  assumes "parse_offer p obj seen = Inr po"
  shows "offer_ok po \<and> po_id po \<notin> seen"
proof -
  have "- (2 ^ 31) \<le> opt_unwrap_or (map_option as_i32 x) 100
      \<and> opt_unwrap_or (map_option as_i32 x) 100 < 2 ^ 31" for x
    using as_i32_range by (cases x) simp_all
  then show ?thesis using assms
    by (auto simp: parse_offer_def result_iff offer_ok_def dest: nonempty_Some split: if_splits)
qed

lemma parse_offers_loop_ok:
  "parse_offers_loop p raws seen = Inr pos \<Longrightarrow>
     list_all offer_ok pos \<and> distinct (map po_id pos) \<and> po_id ` set pos \<inter> seen = {}"
proof (induction p raws seen arbitrary: pos rule: parse_offers_loop.induct)
  case (2 p raw rest seen)
  show ?case
  proof (cases "as_object raw")
    case None
    then show ?thesis using 2 by simp
  next
    case (Some obj)
    show ?thesis
    proof (cases "offer_candidate obj")
      case False
      then show ?thesis using 2 Some by simp
    next
      case True
      then obtain po ps where h: "parse_offer p obj seen = Inr po"
        "parse_offers_loop p rest (insert (po_id po) seen) = Inr ps" "pos = po # ps"
        using 2 Some by (auto simp: result_iff)
      then have ih: "list_all offer_ok ps \<and> distinct (map po_id ps) \<and> po_id ` set ps \<inter> insert (po_id po) seen = {}"
        using "2.IH"(3) [OF Some] True by simp
      then show ?thesis using parse_offer_ok [OF h(1)] h(3) by auto
    qed
  qed
qed simp

section \<open>What a sequence of packs declares\<close>

definition declared :: "pack_offers list \<Rightarrow> offer list" where
  "declared pks = concat (map (\<lambda>pk. map (mk_offer (pk_pack_id pk) (pk_pack_ref pk)) (pk_offers pk)) pks)"

lemma find_map: "List.find p (map f xs) = map_option f (List.find (\<lambda>x. p (f x)) xs)"
  by (induction xs) auto

lemma pack_lookup_declared:
  "pack_lookup pk k = List.find (\<lambda>off. of_offer_key off = k) (rev (declared [pk]))"
  by (simp add: pack_lookup_def declared_def rev_map find_map)

lemma opt_or_find: "opt_or (List.find p xs) (List.find p ys) = List.find p (xs @ ys)"
  by (simp add: find_append opt_or_def split: option.split)

lemma opt_or_assoc: "opt_or (opt_or x y) z = opt_or x (opt_or y z)"
  by (cases x) auto

lemma register_refs_spec:
  assumes "registry_inv reg" "register_refs rm ps reg = Inr reg'"
  obtains pks where "collect_results (load_pack_offers rm) ps = Inr pks"
    "\<And>k. bt_get (by_key reg') k =
       opt_or (List.find (\<lambda>off. of_offer_key off = k) (rev (declared pks))) (bt_get (by_key reg) k)"
    "\<And>pk. pk \<in> set pks \<Longrightarrow> bt_get (pack_refs reg') (pk_pack_id pk) = Some (pk_pack_ref pk)"
    "\<And>p r. bt_get (pack_refs reg) p = Some r \<Longrightarrow> bt_get (pack_refs reg') p = Some r"
  using assms
proof (induction ps arbitrary: reg thesis)
  case Nil
  show ?case by (rule Nil.prems(1) [of "[]"]) (use Nil.prems in \<open>simp_all add: declared_def\<close>)
next
  case (Cons q qs)
  obtain pk mid where load: "load_pack_offers rm q = Inr pk" and reg: "register_pack pk reg = Inr mid"
    and rest: "register_refs rm qs mid = Inr reg'"
    using Cons.prems(3) by (auto simp: result_iff)
  note spec = register_pack_spec [OF Cons.prems(2) reg]
  obtain pks where pks: "collect_results (load_pack_offers rm) qs = Inr pks"
    "\<And>k. bt_get (by_key reg') k =
       opt_or (List.find (\<lambda>off. of_offer_key off = k) (rev (declared pks))) (bt_get (by_key mid) k)"
    "\<And>pk. pk \<in> set pks \<Longrightarrow> bt_get (pack_refs reg') (pk_pack_id pk) = Some (pk_pack_ref pk)"
    "\<And>p r. bt_get (pack_refs mid) p = Some r \<Longrightarrow> bt_get (pack_refs reg') p = Some r"
    using Cons.IH [OF _ register_pack_inv [OF Cons.prems(2) reg] rest] by blast
  show ?case
  proof (rule Cons.prems(1) [of "pk # pks"])
    show "collect_results (load_pack_offers rm) (q # qs) = Inr (pk # pks)"
      using load pks(1) by simp
    have "rev (declared (pk # pks)) = rev (declared pks) @ rev (declared [pk])"
      by (simp add: declared_def)
    then show "bt_get (by_key reg') k =
       opt_or (List.find (\<lambda>off. of_offer_key off = k) (rev (declared (pk # pks)))) (bt_get (by_key reg) k)" for k
      unfolding pks(2) spec(3) pack_lookup_declared by (simp only: opt_or_find [symmetric] opt_or_assoc)
    show "bt_get (pack_refs reg') (pk_pack_id pk') = Some (pk_pack_ref pk')" if "pk' \<in> set (pk # pks)" for pk'
      using that pks(3,4) spec(4) by auto
    show "bt_get (pack_refs reg') p = Some r" if "bt_get (pack_refs reg) p = Some r" for p r
      using that pks(4) spec(5) by blast
  qed
qed

lemma from_pack_refs_spec:
  assumes "from_pack_refs rm ps = Inr reg"
  obtains pks where "collect_results (load_pack_offers rm) ps = Inr pks"
    "\<And>k. bt_get (by_key reg) k = List.find (\<lambda>off. of_offer_key off = k) (rev (declared pks))"
    "\<And>pk. pk \<in> set pks \<Longrightarrow> bt_get (pack_refs reg) (pk_pack_id pk) = Some (pk_pack_ref pk)"
  using register_refs_spec [OF empty_registry_inv assms [unfolded from_pack_refs_def]]
  by (auto simp: empty_registry_def bt.get_empty)

lemma find_key_inj:
  "inj_on f (set xs) \<Longrightarrow> x \<in> set xs \<Longrightarrow> List.find (\<lambda>y. f y = f x) xs = Some x"
  by (induction xs) (auto simp: inj_on_def)

lemma registry_values_declared:
  assumes reg: "from_pack_refs rm ps = Inr reg"
    and pks: "collect_results (load_pack_offers rm) ps = Inr pks"
    and inj: "inj_on of_offer_key (set (declared pks))"
  shows "set (bt_values (by_key reg)) = set (declared pks)"
proof -
  have look: "\<And>k. bt_get (by_key reg) k = List.find (\<lambda>off. of_offer_key off = k) (rev (declared pks))"
    using from_pack_refs_spec [OF reg] pks by (metis sum.inject(2))
  have "off \<in> set (declared pks)" if "bt_get (by_key reg) (of_offer_key off) = Some off" for off
    using that find_Some_in by (fastforce simp: look)
  moreover have "bt_get (by_key reg) (of_offer_key off) = Some off" if "off \<in> set (declared pks)" for off
    unfolding look using find_key_inj [of of_offer_key "rev (declared pks)" off] inj that by simp
  ultimately show ?thesis
    unfolding registry_values [OF from_pack_refs_inv [OF reg]] by blast
qed

lemma collect_results_set:
  assumes "collect_results f xs = Inr ys"
  shows "set ys = {y. \<exists>x \<in> set xs. f x = Inr y}"
proof -
  have "list_all2 (\<lambda>x y. f x = Inr y) xs ys" using assms by (simp add: collect_results_Inr)
  then show ?thesis by (induction rule: list_all2_induct) auto
qed

section \<open>Properties\<close>

definition sample_offer :: "string \<Rightarrow> int \<Rightarrow> json" where
  "sample_offer i prio =
     JObj [(''id'', JStr i), (''kind'', JStr ''hook''), (''provider'', JObj [(''op'', JStr ''run'')]),
           (''priority'', JInt prio), (''stage'', JStr ''post_ingress''), (''contract'', JStr ''c1'')]"

definition sample_offers_pack :: "string \<Rightarrow> json list \<Rightarrow> json" where
  "sample_offers_pack i offers = JObj [(''pack_id'', JStr i), (''offers'', JArr offers)]"

definition sample_load :: "path \<Rightarrow> (string, json) result" where
  "sample_load p =
     (if p = ''a.gtpack'' then Inr (sample_offers_pack ''a'' [sample_offer ''late'' 100, sample_offer ''soon'' 10])
      else if p = ''b.gtpack'' then Inr (sample_offers_pack ''b'' [sample_offer ''mid'' 50])
      else if p = ''c.gtpack'' then Inr (sample_offers_pack ''a'' [sample_offer ''other'' 1])
      else if p = ''d.gtpack'' then Inr (sample_offers_pack ''a::b'' [sample_offer ''c'' 1])
      else if p = ''e.gtpack'' then Inr (sample_offers_pack ''a'' [sample_offer ''b::c'' 2])
      else Inl ''not a pack'')"

definition sample_registry :: "path list \<Rightarrow> offer_registry" where
  "sample_registry ps = opt_unwrap_or (ok_opt (from_pack_refs sample_load ps)) empty_registry"

lemma sample_registry_ab:
  "from_pack_refs sample_load [''a.gtpack'', ''b.gtpack''] = Inr (sample_registry [''a.gtpack'', ''b.gtpack''])"
  "from_pack_refs sample_load [''b.gtpack'', ''a.gtpack''] = Inr (sample_registry [''b.gtpack'', ''a.gtpack''])"
  by code_simp+

text \<open>
  C19: a registry built from packs answers every key with the last offer declared under it,
  in the order the packs are given; all packs load, and two packs with one id are one archive.
\<close>

theorem registry_lookup_last:
  assumes "from_pack_refs rm ps = Inr reg"
  shows "\<exists>pks. collect_results (load_pack_offers rm) ps = Inr pks
     \<and> (\<forall>k. bt_get (by_key reg) k = List.find (\<lambda>off. of_offer_key off = k) (rev (declared pks)))
     \<and> (\<forall>p q. p \<in> set pks \<and> q \<in> set pks \<and> pk_pack_id p = pk_pack_id q \<longrightarrow> pk_pack_ref p = pk_pack_ref q)"
proof -
  obtain pks where pks: "collect_results (load_pack_offers rm) ps = Inr pks"
    "\<And>k. bt_get (by_key reg) k = List.find (\<lambda>off. of_offer_key off = k) (rev (declared pks))"
    "\<And>pk. pk \<in> set pks \<Longrightarrow> bt_get (pack_refs reg) (pk_pack_id pk) = Some (pk_pack_ref pk)"
    using from_pack_refs_spec [OF assms] by blast
  have "pk_pack_ref p = pk_pack_ref q"
    if "p \<in> set pks" "q \<in> set pks" "pk_pack_id p = pk_pack_id q" for p q
    using pks(3) [OF that(1)] pks(3) [OF that(2)] that(3) by simp
  then show ?thesis using pks(1,2) by blast
qed

theorem registry_lookup_last_witness:
  "\<exists>pks. collect_results (load_pack_offers sample_load) [''a.gtpack'', ''b.gtpack''] = Inr pks
     \<and> List.find (\<lambda>off. of_offer_key off = ''b::mid'') (rev (declared pks)) \<noteq> None"
proof -
  have "bt_get (by_key (sample_registry [''a.gtpack'', ''b.gtpack''])) ''b::mid'' \<noteq> None" by code_simp
  then show ?thesis using registry_lookup_last [OF sample_registry_ab(1)] by metis
qed

text \<open>
  C20: \<open>select_hooks\<close> returns exactly the registered hooks of the stage and contract, each
  once, strictly ordered by priority and then by offer key; \<open>select_subs\<close> does the same for
  subscriptions, with an optional contract.
\<close>

theorem select_ranked:
  assumes "from_pack_refs rm ps = Inr reg"
  shows "sorted_wrt (<) (map offer_rank (select_hooks reg stage contract))
     \<and> sorted_wrt (<) (map offer_rank (select_subs reg c))
     \<and> set (select_hooks reg stage contract) = {off. bt_get (by_key reg) (of_offer_key off) = Some off
          \<and> of_kind off = Hook \<and> of_stage off = Some stage \<and> of_contract off = Some contract}
     \<and> set (select_subs reg c) = {off. bt_get (by_key reg) (of_offer_key off) = Some off
          \<and> of_kind off = Subs \<and> (c \<noteq> None \<longrightarrow> of_contract off = c)}"
proof -
  have inv: "registry_inv reg" by (rule from_pack_refs_inv [OF assms])
  show ?thesis
    unfolding select_hooks_def select_subs_def offers.select_set registry_values [OF inv]
    using offers.select_strict [OF inv] by (auto split: option.splits)
qed

theorem select_ranked_witness:
  "sorted_wrt (<) (map offer_rank (select_hooks (sample_registry [''a.gtpack'', ''b.gtpack'']) ''post_ingress'' ''c1''))
   \<and> map of_offer_key (select_hooks (sample_registry [''a.gtpack'', ''b.gtpack'']) ''post_ingress'' ''c1'')
        = [''a::soon'', ''b::mid'', ''a::late'']"
proof
  show "sorted_wrt (<) (map offer_rank (select_hooks (sample_registry [''a.gtpack'', ''b.gtpack'']) ''post_ingress'' ''c1''))"
    using select_ranked [OF sample_registry_ab(1)] by (rule conjunct1)
qed code_simp

text \<open>
  C21: the hook chain does not depend on the order in which the packs are loaded, as long as
  no two declared offers share a key.
\<close>

theorem hook_chain_order_independent:
  assumes "from_pack_refs rm ps = Inr reg" "from_pack_refs rm qs = Inr reg'" "set ps = set qs"
    and "collect_results (load_pack_offers rm) ps = Inr pks" "inj_on of_offer_key (set (declared pks))"
  shows "select_hooks reg stage contract = select_hooks reg' stage contract"
proof -
  obtain pks' where pks': "collect_results (load_pack_offers rm) qs = Inr pks'"
    using from_pack_refs_spec [OF assms(2)] by blast
  have "set pks = set pks'"
    using collect_results_set [OF assms(4)] collect_results_set [OF pks'] assms(3) by simp
  then have same: "set (declared pks) = set (declared pks')" by (simp add: declared_def)
  have "set (bt_values (by_key reg)) = set (bt_values (by_key reg'))"
    using registry_values_declared [OF assms(1,4,5)] registry_values_declared [OF assms(2) pks'] assms(5) same
    by simp
  from offers.select_determined [OF from_pack_refs_inv [OF assms(1)] from_pack_refs_inv [OF assms(2)] this]
  show ?thesis by (simp add: select_hooks_def)
qed

theorem hook_chain_order_independent_witness:
  "select_hooks (sample_registry [''a.gtpack'', ''b.gtpack'']) ''post_ingress'' ''c1''
     = select_hooks (sample_registry [''b.gtpack'', ''a.gtpack'']) ''post_ingress'' ''c1''"
proof (rule hook_chain_order_independent [OF sample_registry_ab])
  let ?pks = "opt_unwrap_or (ok_opt (collect_results (load_pack_offers sample_load) [''a.gtpack'', ''b.gtpack''])) []"
  show "collect_results (load_pack_offers sample_load) [''a.gtpack'', ''b.gtpack''] = Inr ?pks"
    by code_simp
  have "distinct (map of_offer_key (declared ?pks))" by code_simp
  then show "inj_on of_offer_key (set (declared ?pks))" by (simp add: distinct_map)
qed auto

text \<open>
  C22: the offers a manifest yields have pairwise different ids; ids and operations are
  nonempty and trimmed, stages and contracts are absent or nonempty, priorities fit 32 bits.
\<close>

theorem parsed_offers_ok:
  assumes "parse_pack_offers manifest pack_ref = Inr pos"
  shows "list_all offer_ok pos \<and> distinct (map po_id pos)"
  using assms parse_offers_loop_ok unfolding parse_pack_offers_def by blast

theorem parsed_offers_ok_witness:
  "\<exists>pos. length pos = 2
     \<and> parse_pack_offers (sample_offers_pack ''a'' [sample_offer '' x '' 7, JNull, sample_offer ''y'' 8]) ''a.gtpack'' = Inr pos
     \<and> distinct (map po_id pos)"
proof -
  let ?m = "sample_offers_pack ''a'' [sample_offer '' x '' 7, JNull, sample_offer ''y'' 8]"
  let ?pos = "opt_unwrap_or (ok_opt (parse_pack_offers ?m ''a.gtpack'')) []"
  have r: "parse_pack_offers ?m ''a.gtpack'' = Inr ?pos" by code_simp
  have "length ?pos = 2" by code_simp
  then show ?thesis using parsed_offers_ok [OF r] r by (intro exI [of _ ?pos]) simp
qed

text \<open>
  A key does not determine its pack: the pack \<open>a\<close> with the offer \<open>b::c\<close> and the pack
  \<open>a::b\<close> with the offer \<open>c\<close> both load, and the registry keeps one of the two offers, the one
  loaded last, without an error.
\<close>

lemma offer_keys_collide:
  "offer_key ''a'' ''b::c'' = offer_key ''a::b'' ''c''
   \<and> map_err (\<lambda>_. ()) (rbind (from_pack_refs sample_load [''d.gtpack'', ''e.gtpack''])
       (\<lambda>reg. Inr (packs_total reg, map of_pack_id (select_hooks reg ''post_ingress'' ''c1''))))
     = Inr (2, [''a''])
   \<and> map_err (\<lambda>_. ()) (rbind (from_pack_refs sample_load [''e.gtpack'', ''d.gtpack''])
       (\<lambda>reg. Inr (packs_total reg, map of_pack_id (select_hooks reg ''post_ingress'' ''c1''))))
     = Inr (2, [''a::b''])"
  by code_simp

text \<open>
  The counts per kind add up: for every kind, \<open>kind_counts\<close> holds the number of
  registered offers of that kind.
\<close>

lemma kind_counts_exact:
  "opt_unwrap_or (bt_get (kind_counts reg) (kind_str k)) 0
     = length (filter (\<lambda>off. of_kind off = k) (bt_values (by_key reg)))"
proof -
  have "kind_str a = kind_str b \<longleftrightarrow> a = b" for a b
    by (cases a; cases b) (simp_all add: kind_str_def)
  then show ?thesis
    using bt_get_fold_count [of "[]" "\<lambda>off. kind_str (of_kind off)" "bt_values (by_key reg)" "kind_str k"]
    by (simp add: kind_counts_def bt.get_empty)
qed

end
