(* ===== verification/Hooks.thy ===== *)
theory Hooks
  imports Offers "HOL-Library.Word"
begin

text \<open>
  Post-ingress hooks (\<open>src/ingress/control_directive.rs\<close>, \<open>src/hooks/runner.rs\<close>): parsing of
  the control directive a hook answers with, the chain of hooks run after a provider has
  handled an ingress request, and the effect of the first decisive directive on the
  response. Invoking a component, running a flow, the file system, CBOR, base64 and the
  environment variables are parameters, gathered in \<open>hook_env\<close>; \<open>'w\<close> is the state of
  the world that components and flows change.
\<close>

section \<open>Data\<close>

type_synonym bytes = "8 word list"

text \<open>UTF-8 of the code points below 256.\<close>

definition utf8 :: "string \<Rightarrow> bytes" where
  "utf8 s = concat (map (\<lambda>c. let n = (of_char c :: nat) in
     if n < 128 then [of_nat n] else [of_nat (192 + n div 64), of_nat (128 + n mod 64)]) s)"

record dispatch_target =
  dt_tenant :: string
  dt_team :: "string option"
  dt_pack :: string
  dt_flow :: "string option"
  dt_node :: "string option"

record ingress_reply =
  ir_text :: "string option"
  ir_card :: "json option"
  ir_status :: "16 word option"
  ir_reason_code :: "string option"

datatype control_directive =
    Continue
  | Dispatch dispatch_target
  | Respond ingress_reply
  | Deny ingress_reply

record operator_context =
  oc_tenant :: string
  oc_team :: "string option"
  oc_correlation_id :: "string option"

record hook_body =
  hb_request :: json
  hb_status :: "16 word"
  hb_headers :: "(string \<times> string) list"
  hb_body :: "bytes option"
  hb_events :: "json list"

record op_outcome =
  oo_success :: bool
  oo_output :: "json option"
  oo_error :: "string option"

record run_request =
  rq_root :: path
  rq_domain :: domain
  rq_pack_path :: path
  rq_pack_label :: string
  rq_flow_id :: string
  rq_tenant :: string
  rq_team :: "string option"
  rq_input :: json

datatype hook_error =
    ReadDirFailed path
  | RegistryFailed offer_error
  | EncodeFailed string
  | InvalidOfferFile path
  | InvokeFailed string
  | InvalidTenant string
  | InvalidTeam string
  | InvalidPack string
  | InvalidFlow string
  | InvalidNode string
  | TargetPackNotFound string path
  | PackMetaFailed string
  | NoEntryFlows
  | FlowRunFailed path string
  | EventsInvalid string

text \<open>The audit lines the chain writes to the operator log.\<close>

datatype hook_audit =
    RegistryLoaded nat nat
  | HookInvoked string
  | HookFailed string
  | HookParseError string
  | HookApplied string string "dispatch_target option"

record 'w hook_env =
  he_var :: "string \<Rightarrow> string option"
  he_exists :: "path \<Rightarrow> bool"
  he_tree :: "path \<Rightarrow> (string \<times> dir_entry) list option"
  he_read_manifest :: "path \<Rightarrow> (string, json) result"
  he_read_meta :: "path \<Rightarrow> (string, pack_meta) result"
  he_b64_encode :: "bytes \<Rightarrow> string"
  he_b64_decode :: "string \<Rightarrow> bytes option"
  he_cbor_decode :: "bytes \<Rightarrow> json option"
  he_cbor_encode :: "json \<Rightarrow> (string, bytes) result"
  he_json_vec :: "json \<Rightarrow> bytes"
  he_invoke :: "domain \<Rightarrow> provider_pack \<Rightarrow> string \<Rightarrow> string \<Rightarrow> bytes \<Rightarrow> operator_context \<Rightarrow> 'w
                  \<Rightarrow> (string, op_outcome) result \<times> 'w"
  he_run_flow :: "run_request \<Rightarrow> 'w \<Rightarrow> (string, unit) result \<times> 'w"

text \<open>The state a hook chain changes: the body under construction, the world, the cache of
  offer registries (one per packs directory) and the audit trail.\<close>

record 'w hook_state =
  hs_body :: hook_body
  hs_world :: 'w
  hs_cache :: "(path, offer_registry) btree"
  hs_audit :: "hook_audit list"

definition audit :: "hook_audit \<Rightarrow> 'w hook_state \<Rightarrow> 'w hook_state" where
  "audit a st = st\<lparr>hs_audit := hs_audit st @ [a]\<rparr>"

section \<open>Control directives\<close>

definition trimmed_field :: "(string \<times> json) list \<Rightarrow> string \<Rightarrow> string option" where
  "trimmed_field obj k = nonempty (Option.bind (map_of obj k) as_str)"

definition parse_dispatch_target_string :: "string \<Rightarrow> dispatch_target option" where
  "parse_dispatch_target_string raw =
     (let segs = filter (\<lambda>v. v \<noteq> []) (map trim (split_on (CHR ''/'') raw)) in
      if length segs < 3 \<or> length segs > 5 then None
      else if segs ! 0 = [] \<or> segs ! 2 = [] then None
      else Some \<lparr>dt_tenant = segs ! 0, dt_team = opt_filter (\<lambda>v. v \<noteq> []) (Some (segs ! 1)),
                 dt_pack = segs ! 2, dt_flow = nth_opt segs 3, dt_node = nth_opt segs 4\<rparr>)"

definition parse_dispatch :: "json option \<Rightarrow> dispatch_target option" where
  "parse_dispatch raw =
     Option.bind raw (\<lambda>v.
       (case v of
          JStr target \<Rightarrow> parse_dispatch_target_string target
        | JObj obj \<Rightarrow>
            Option.bind (Option.bind (map_of obj ''tenant'') as_str) (\<lambda>tenant.
            Option.bind (Option.bind (map_of obj ''pack'') as_str) (\<lambda>pack.
              if trim tenant = [] \<or> trim pack = [] then None
              else Some \<lparr>dt_tenant = trim tenant, dt_team = trimmed_field obj ''team'', dt_pack = trim pack,
                         dt_flow = trimmed_field obj ''flow'', dt_node = trimmed_field obj ''node''\<rparr>))
        | _ \<Rightarrow> None))"

definition parse_reply :: "json \<Rightarrow> bool \<Rightarrow> ingress_reply" where
  "parse_reply decoded deny =
     \<lparr>ir_text = opt_or (Option.bind (json_get decoded ''response_text'') as_str)
                  (if deny then Option.bind (Option.bind (json_get decoded ''reason'') (\<lambda>v. json_get v ''text'')) as_str
                   else None),
      ir_card = json_get decoded ''response_card'',
      ir_status = opt_or (map_option of_nat (Option.bind (json_get decoded ''status_code'') as_u64))
                    (if deny then Some 403 else Some 200),
      ir_reason_code = opt_or (Option.bind (json_get decoded ''reason_code'') as_str)
                         (Option.bind (Option.bind (json_get decoded ''reason'') (\<lambda>v. json_get v ''code'')) as_str)\<rparr>"

fun first_decoded :: "'w hook_env \<Rightarrow> (string \<times> json) list \<Rightarrow> string list \<Rightarrow> json option" where
  "first_decoded env obj [] = None"
| "first_decoded env obj (k # ks) =
     (case Option.bind (map_of obj k) as_str of
        None \<Rightarrow> first_decoded env obj ks
      | Some raw \<Rightarrow>
          (case he_b64_decode env raw of
             None \<Rightarrow> first_decoded env obj ks
           | Some bs \<Rightarrow>
               (case he_cbor_decode env bs of
                  Some v \<Rightarrow> Some v
                | None \<Rightarrow> first_decoded env obj ks)))"

definition decode_directive_json :: "'w hook_env \<Rightarrow> json \<Rightarrow> json option" where
  "decode_directive_json env output =
     Option.bind (as_object output) (\<lambda>obj. first_decoded env obj
       [''hook_decision_cbor_b64'', ''cbor_b64'', ''hook_decision_cbor'', ''result_cbor_b64''])"

definition try_parse_control_directive :: "'w hook_env \<Rightarrow> json \<Rightarrow> control_directive option" where
  "try_parse_control_directive env output =
     (let decoded = opt_unwrap_or (decode_directive_json env output) output in
      Option.bind (Option.bind (json_get decoded ''action'') as_str) (\<lambda>raw.
        let action = to_ascii_lowercase (trim raw) in
        if action = ''continue'' then Some Continue
        else if action = ''dispatch'' then map_option Dispatch (parse_dispatch (json_get decoded ''target''))
        else if action = ''respond'' then Some (Respond (parse_reply decoded False))
        else if action = ''deny'' then Some (Deny (parse_reply decoded True))
        else None))"

section \<open>Applying a directive\<close>

definition is_safe_segment :: "string \<Rightarrow> bool" where
  "is_safe_segment v \<longleftrightarrow>
     \<not> (v = [] \<or> v = ''.'' \<or> v = ''..'')
     \<and> CHR ''/'' \<notin> set v \<and> CHR 0x5C \<notin> set v \<and> CHR 0x00 \<notin> set v \<and> CHR '':'' \<notin> set v
     \<and> \<not> starts_with ''.'' v"

definition unsafe_opt :: "string option \<Rightarrow> bool" where
  "unsafe_opt v = (case v of None \<Rightarrow> False | Some s \<Rightarrow> \<not> is_safe_segment s)"

definition ensure_dispatch_target_safe :: "dispatch_target \<Rightarrow> (hook_error, unit) result" where
  "ensure_dispatch_target_safe t =
     (if \<not> is_safe_segment (dt_tenant t) then Inl (InvalidTenant (dt_tenant t))
      else if unsafe_opt (dt_team t) then Inl (InvalidTeam (the (dt_team t)))
      else if \<not> is_safe_segment (dt_pack t) then Inl (InvalidPack (dt_pack t))
      else if unsafe_opt (dt_flow t) then Inl (InvalidFlow (the (dt_flow t)))
      else if unsafe_opt (dt_node t) then Inl (InvalidNode (the (dt_node t)))
      else Inr ())"

fun find_target_pack ::
  "'w hook_env \<Rightarrow> string \<Rightarrow> path list \<Rightarrow> path \<Rightarrow> (hook_error, path) result" where
  "find_target_pack env target [] packs_root = Inl (TargetPackNotFound target packs_root)"
| "find_target_pack env target (p # ps) packs_root =
     (if file_stem p = Some target then Inr p
      else rbind (map_err RegistryFailed (load_pack_offers (he_read_manifest env) p)) (\<lambda>parsed.
             if pk_pack_id parsed = target then Inr p
             else find_target_pack env target ps packs_root))"

definition gtpacks_under :: "'w hook_env \<Rightarrow> path \<Rightarrow> (hook_error, path list) result" where
  "gtpacks_under env root =
     (case he_tree env root of None \<Rightarrow> Inl (ReadDirFailed root) | Some es \<Rightarrow> Inr (discover_gtpacks root es))"

definition resolve_dispatch_pack_path :: "'w hook_env \<Rightarrow> path \<Rightarrow> string \<Rightarrow> (hook_error, path) result" where
  "resolve_dispatch_pack_path env bundle target =
     (let packs_root = path_join bundle ''packs'' in
      case List.find (he_exists env)
             [target, path_join packs_root target, path_join packs_root (target @ ''.gtpack'')] of
        Some p \<Rightarrow> Inr p
      | None \<Rightarrow> rbind (gtpacks_under env packs_root) (\<lambda>ps. find_target_pack env target ps packs_root))"

definition target_json :: "dispatch_target \<Rightarrow> json" where
  "target_json t =
     JObj [(''tenant'', JStr (dt_tenant t)), (''team'', opt_str (dt_team t)), (''pack'', JStr (dt_pack t)),
           (''flow'', opt_str (dt_flow t)), (''node'', opt_str (dt_node t))]"

definition response_json :: "'w hook_env \<Rightarrow> hook_body \<Rightarrow> json" where
  "response_json env b =
     JObj [(''status'', JInt (uint (hb_status b))),
           (''headers'', JArr (map (\<lambda>(n, v). JArr [JStr n, JStr v]) (hb_headers b))),
           (''body_b64'', opt_str (map_option (he_b64_encode env) (hb_body b)))]"

definition dispatch_to_target ::
  "'w hook_env \<Rightarrow> path \<Rightarrow> domain \<Rightarrow> hook_body \<Rightarrow> operator_context \<Rightarrow> dispatch_target \<Rightarrow> 'w
     \<Rightarrow> (hook_error, unit) result \<times> 'w" where
  "dispatch_to_target env bundle dm b ctx t w =
     (case rbind (ensure_dispatch_target_safe t) (\<lambda>_.
           rbind (resolve_dispatch_pack_path env bundle (dt_pack t)) (\<lambda>pack_path.
           rbind (map_err PackMetaFailed (he_read_meta env pack_path)) (\<lambda>meta.
           rbind (case dt_flow t of
                    Some flow \<Rightarrow> Inr flow
                  | None \<Rightarrow> ok_or NoEntryFlows (nth_opt (meta_entry_flows meta) 0)) (\<lambda>flow_id.
             Inr \<lparr>rq_root = bundle, rq_domain = dm, rq_pack_path = pack_path,
                  rq_pack_label = meta_pack_id meta, rq_flow_id = flow_id, rq_tenant = dt_tenant t,
                  rq_team = opt_or (dt_team t) (oc_team ctx),
                  rq_input = JObj [(''request'', hb_request b), (''response'', response_json env b),
                                   (''events'', JArr (hb_events b)), (''hook_dispatch'', target_json t)]\<rparr>)))) of
        Inl e \<Rightarrow> (Inl e, w)
      | Inr rq \<Rightarrow>
          (case he_run_flow env rq w of
             (Inl e, w') \<Rightarrow> (Inl (FlowRunFailed (rq_pack_path rq) e), w')
           | (Inr _, w') \<Rightarrow> (Inr (), w')))"

definition apply_reply :: "'w hook_env \<Rightarrow> hook_body \<Rightarrow> ingress_reply \<Rightarrow> bool \<Rightarrow> hook_body" where
  "apply_reply env b reply deny_default =
     (let headers = (case ir_reason_code reply of None \<Rightarrow> [] | Some code \<Rightarrow> [(''x-reason-code'', code)]);
          b' = b\<lparr>hb_status := opt_unwrap_or (ir_status reply) (if deny_default then 403 else 200),
                 hb_headers := headers, hb_events := []\<rparr>
      in case ir_card reply of
           Some crd \<Rightarrow>
             b'\<lparr>hb_headers := headers @ [(''content-type'', ''application/json'')],
                hb_body := Some (he_json_vec env
                  (case ir_text reply of
                     Some text \<Rightarrow> JObj [(''text'', JStr text), (''card'', crd)]
                   | None \<Rightarrow> JObj [(''card'', crd)]))\<rparr>
         | None \<Rightarrow>
             (case ir_text reply of
                Some text \<Rightarrow> b'\<lparr>hb_headers := headers @ [(''content-type'', ''text/plain'')],
                                hb_body := Some (utf8 text)\<rparr>
              | None \<Rightarrow> b'\<lparr>hb_body := None\<rparr>))"

definition dispatched_body :: "'w hook_env \<Rightarrow> hook_body \<Rightarrow> dispatch_target \<Rightarrow> hook_body" where
  "dispatched_body env b t =
     b\<lparr>hb_status := 202, hb_headers := [(''content-type'', ''application/json'')],
       hb_body := Some (he_json_vec env
         (JObj [(''ok'', JBool True), (''dispatched'', JBool True), (''target'', target_json t)])),
       hb_events := []\<rparr>"

text \<open>The result, with the body and the world afterwards; \<open>dispatch\<close> is \<open>dispatch_fn\<close>.\<close>

definition apply_control_directive_with_dispatcher ::
  "'w hook_env \<Rightarrow> (hook_body \<Rightarrow> dispatch_target \<Rightarrow> 'w \<Rightarrow> (hook_error, unit) result \<times> 'w)
     \<Rightarrow> hook_body \<Rightarrow> control_directive \<Rightarrow> 'w \<Rightarrow> (hook_error, unit) result \<times> hook_body \<times> 'w" where
  "apply_control_directive_with_dispatcher env dispatch b directive w =
     (case directive of
        Continue \<Rightarrow> (Inr (), b, w)
      | Respond reply \<Rightarrow> (Inr (), apply_reply env b reply False, w)
      | Deny reply \<Rightarrow> (Inr (), apply_reply env b reply True, w)
      | Dispatch t \<Rightarrow>
          (case dispatch b t w of
             (Inl e, w') \<Rightarrow> (Inl e, b, w')
           | (Inr _, w') \<Rightarrow> (Inr (), dispatched_body env b t, w')))"

definition apply_control_directive ::
  "'w hook_env \<Rightarrow> path \<Rightarrow> domain \<Rightarrow> operator_context \<Rightarrow> hook_body \<Rightarrow> control_directive \<Rightarrow> 'w
     \<Rightarrow> (hook_error, unit) result \<times> hook_body \<times> 'w" where
  "apply_control_directive env bundle dm ctx =
     apply_control_directive_with_dispatcher env
       (\<lambda>b t w. dispatch_to_target env bundle dm b ctx t w)"

section \<open>The chain\<close>

text \<open>\<open>Err\<close> of \<open>std::env::var\<close> is \<open>None\<close>.\<close>

definition hooks_enabled :: "'w hook_env \<Rightarrow> bool" where
  "hooks_enabled env =
     (case he_var env ''GREENTIC_OPERATOR_HOOKS_ENABLED'' of
        Some v \<Rightarrow> to_ascii_lowercase (trim v) \<notin> {''0'', ''false'', ''no'', ''off''}
      | None \<Rightarrow> True)"

definition event_hooks_enabled :: "'w hook_env \<Rightarrow> bool" where
  "event_hooks_enabled env =
     (case he_var env ''GREENTIC_OPERATOR_ENABLE_EVENT_HOOKS'' of
        Some v \<Rightarrow> to_ascii_lowercase (trim v) \<in> {''1'', ''true'', ''yes'', ''on''}
      | None \<Rightarrow> False)"

definition cached_offer_registry ::
  "'w hook_env \<Rightarrow> path \<Rightarrow> path list \<Rightarrow> (path, offer_registry) btree
     \<Rightarrow> (hook_error, offer_registry) result \<times> (path, offer_registry) btree" where
  "cached_offer_registry env packs_root refs cache =
     (case bt_get cache packs_root of
        Some reg \<Rightarrow> (Inr reg, cache)
      | None \<Rightarrow>
          (case from_pack_refs (he_read_manifest env) refs of
             Inl e \<Rightarrow> (Inl (RegistryFailed e), cache)
           | Inr reg \<Rightarrow> (Inr reg, bt_insert packs_root reg cache)))"

definition offer_pack :: "path \<Rightarrow> string \<Rightarrow> (hook_error, provider_pack) result" where
  "offer_pack p pack_id =
     rbind (ok_or (InvalidOfferFile p) (file_name p)) (\<lambda>name.
       Inr \<lparr>pp_pack_id = pack_id, pp_file_name = name, pp_path = p, pp_entry_flows = []\<rparr>)"

definition hook_stage :: string where "hook_stage = ''post_ingress''"
definition hook_contract :: string where "hook_contract = ''greentic.hook.control.v1''"

definition hook_payload :: "'w hook_env \<Rightarrow> string \<Rightarrow> operator_context \<Rightarrow> hook_body \<Rightarrow> json" where
  "hook_payload env provider ctx b =
     JObj [(''stage'', JStr hook_stage), (''contract'', JStr hook_contract), (''provider'', JStr provider),
           (''request'', hb_request b), (''response'', response_json env b), (''events'', JArr (hb_events b)),
           (''tenant'', JStr (oc_tenant ctx)), (''team'', opt_str (oc_team ctx)),
           (''correlation_id'', opt_str (oc_correlation_id ctx))]"

definition directive_action :: "control_directive \<Rightarrow> string" where
  "directive_action d =
     (case d of Continue \<Rightarrow> ''continue'' | Dispatch _ \<Rightarrow> ''dispatch'' | Respond _ \<Rightarrow> ''respond'' | Deny _ \<Rightarrow> ''deny'')"

definition directive_target_for_audit :: "control_directive \<Rightarrow> dispatch_target option" where
  "directive_target_for_audit d = (case d of Dispatch t \<Rightarrow> Some t | _ \<Rightarrow> None)"

text \<open>One hook: encode the payload, name the pack, invoke the component.\<close>

definition invoke_hook ::
  "'w hook_env \<Rightarrow> domain \<Rightarrow> string \<Rightarrow> operator_context \<Rightarrow> offer \<Rightarrow> 'w hook_state
     \<Rightarrow> (hook_error, op_outcome) result \<times> 'w hook_state" where
  "invoke_hook env dm provider ctx off st =
     (case rbind (map_err EncodeFailed (he_cbor_encode env (hook_payload env provider ctx (hs_body st)))) (\<lambda>payload.
           rbind (offer_pack (of_pack_ref off) (of_pack_id off)) (\<lambda>pack. Inr (payload, pack))) of
        Inl e \<Rightarrow> (Inl e, st)
      | Inr (payload, pack) \<Rightarrow>
          (case he_invoke env dm pack (of_pack_id off) (of_provider_op off) payload ctx (hs_world st) of
             (Inl e, w) \<Rightarrow> (Inl (InvokeFailed e), st\<lparr>hs_world := w\<rparr>)
           | (Inr out, w) \<Rightarrow> (Inr out, st\<lparr>hs_world := w\<rparr>)))"

fun run_hooks ::
  "'w hook_env \<Rightarrow> path \<Rightarrow> domain \<Rightarrow> string \<Rightarrow> operator_context \<Rightarrow> offer list \<Rightarrow> 'w hook_state
     \<Rightarrow> (hook_error, unit) result \<times> 'w hook_state" where
  "run_hooks env bundle dm provider ctx [] st = (Inr (), st)"
| "run_hooks env bundle dm provider ctx (off # offs) st =
     (case invoke_hook env dm provider ctx off (audit (HookInvoked (of_offer_key off)) st) of
        (Inl e, st) \<Rightarrow> (Inl e, st)
      | (Inr out, st) \<Rightarrow>
          if \<not> oo_success out
          then run_hooks env bundle dm provider ctx offs (audit (HookFailed (of_offer_key off)) st)
          else
            (case oo_output out of
               None \<Rightarrow> run_hooks env bundle dm provider ctx offs st
             | Some output \<Rightarrow>
                 (case try_parse_control_directive env output of
                    None \<Rightarrow> run_hooks env bundle dm provider ctx offs (audit (HookParseError (of_offer_key off)) st)
                  | Some Continue \<Rightarrow> run_hooks env bundle dm provider ctx offs st
                  | Some d \<Rightarrow>
                      (case apply_control_directive env bundle dm ctx (hs_body st) d (hs_world st) of
                         (Inr _, b, w) \<Rightarrow>
                           (Inr (), audit (HookApplied (of_offer_key off) (directive_action d)
                                      (directive_target_for_audit d))
                                    (st\<lparr>hs_body := b, hs_world := w\<rparr>))
                       | (Inl e, b, w) \<Rightarrow>
                           run_hooks env bundle dm provider ctx offs
                             (audit (HookParseError (of_offer_key off)) (st\<lparr>hs_body := b, hs_world := w\<rparr>))))))"

definition apply_post_ingress_hooks_json ::
  "'w hook_env \<Rightarrow> path \<Rightarrow> domain \<Rightarrow> string \<Rightarrow> operator_context \<Rightarrow> 'w hook_state
     \<Rightarrow> (hook_error, unit) result \<times> 'w hook_state" where
  "apply_post_ingress_hooks_json env bundle dm provider ctx st =
     (let packs_root = path_join bundle ''packs'' in
      if \<not> hooks_enabled env then (Inr (), st)
      else if \<not> he_exists env packs_root then (Inr (), st)
      else
        (case gtpacks_under env packs_root of
           Inl e \<Rightarrow> (Inl e, st)
         | Inr refs \<Rightarrow>
             if refs = [] then (Inr (), st)
             else
               (case cached_offer_registry env packs_root refs (hs_cache st) of
                  (Inl e, cache) \<Rightarrow> (Inl e, st\<lparr>hs_cache := cache\<rparr>)
                | (Inr reg, cache) \<Rightarrow>
                    run_hooks env bundle dm provider ctx (select_hooks reg hook_stage hook_contract)
                      (audit (RegistryLoaded (packs_total reg) (offers_total reg)) (st\<lparr>hs_cache := cache\<rparr>)))))"

section \<open>The entry points\<close>

record ingress_http_response =
  ih_status :: "16 word"
  ih_headers :: "(string \<times> string) list"
  ih_body :: "bytes option"

text \<open>Event envelopes and channel messages are types of other crates.\<close>

record ('ev, 'msg) ingress_dispatch_result =
  id_response :: ingress_http_response
  id_events :: "'ev list"
  id_envelopes :: "'msg list"

definition apply_post_ingress_hooks_dispatch ::
  "'w hook_env \<Rightarrow> ('ev \<Rightarrow> json) \<Rightarrow> (json \<Rightarrow> (string, 'ev) result) \<Rightarrow> path \<Rightarrow> domain \<Rightarrow> json \<Rightarrow> string
     \<Rightarrow> operator_context \<Rightarrow> ('ev, 'msg) ingress_dispatch_result \<Rightarrow> 'w hook_state
     \<Rightarrow> (hook_error, unit) result \<times> ('ev, 'msg) ingress_dispatch_result \<times> 'w hook_state" where
  "apply_post_ingress_hooks_dispatch env to_value from_value bundle dm request provider ctx res st =
     (if dm = Events \<and> \<not> event_hooks_enabled env then (Inr (), res, st)
      else
        let r = id_response res;
            b = \<lparr>hb_request = request, hb_status = ih_status r, hb_headers = ih_headers r,
                 hb_body = ih_body r, hb_events = map to_value (id_events res)\<rparr>
        in
          (case apply_post_ingress_hooks_json env bundle dm provider ctx (st\<lparr>hs_body := b\<rparr>) of
             (Inl e, st') \<Rightarrow> (Inl e, res, st')
           | (Inr _, st') \<Rightarrow>
               (let b' = hs_body st';
                    res' = res\<lparr>id_response := \<lparr>ih_status = hb_status b', ih_headers = hb_headers b',
                                              ih_body = hb_body b'\<rparr>\<rparr>
                in case map_err EventsInvalid (collect_results from_value (hb_events b')) of
                     Inl e \<Rightarrow> (Inl e, res', st')
                   | Inr evs \<Rightarrow> (Inr (), res'\<lparr>id_events := evs\<rparr>, st'))))"

record http_out =
  ho_status :: "16 word"
  ho_headers :: "(string \<times> string) list"
  ho_body_b64 :: "string option"
  ho_events :: "json list"

definition apply_post_ingress_hooks_http ::
  "'w hook_env \<Rightarrow> path \<Rightarrow> json \<Rightarrow> string \<Rightarrow> operator_context \<Rightarrow> http_out \<Rightarrow> 'w hook_state
     \<Rightarrow> (hook_error, unit) result \<times> http_out \<times> 'w hook_state" where
  "apply_post_ingress_hooks_http env bundle request provider ctx res st =
     (let b = \<lparr>hb_request = request, hb_status = ho_status res, hb_headers = ho_headers res,
               hb_body = Option.bind (ho_body_b64 res) (he_b64_decode env), hb_events = ho_events res\<rparr>
      in case apply_post_ingress_hooks_json env bundle Messaging provider ctx (st\<lparr>hs_body := b\<rparr>) of
           (Inl e, st') \<Rightarrow> (Inl e, res, st')
         | (Inr _, st') \<Rightarrow>
             (Inr (), res\<lparr>ho_status := hb_status (hs_body st'), ho_headers := hb_headers (hs_body st'),
                          ho_body_b64 := map_option (he_b64_encode env) (hb_body (hs_body st')),
                          ho_events := hb_events (hs_body st')\<rparr>, st'))"

section \<open>Dispatch targets\<close>

definition clean_segment :: "string \<Rightarrow> bool" where
  "clean_segment s \<longleftrightarrow> plain_segment s \<and> trimmed s"

definition target_segments :: "dispatch_target \<Rightarrow> string list" where
  "target_segments t =
     [dt_tenant t, opt_unwrap_or (dt_team t) [], dt_pack t]
     @ (case dt_flow t of None \<Rightarrow> [] | Some f \<Rightarrow> [f]) @ (case dt_node t of None \<Rightarrow> [] | Some n \<Rightarrow> [n])"

definition wf_target :: "dispatch_target \<Rightarrow> bool" where
  "wf_target t \<longleftrightarrow> dt_team t \<noteq> None \<and> (dt_flow t = None \<longrightarrow> dt_node t = None)
     \<and> list_all clean_segment (target_segments t)"

lemma clean_segments_parse:
  assumes "segs \<noteq> []" "list_all clean_segment segs"
  shows "filter (\<lambda>v. v \<noteq> []) (map trim (split_on (CHR ''/'') (join ''/'' segs))) = segs"
proof -
  have c: "clean_segment s" if "s \<in> set segs" for s using assms(2) that by (simp add: list_all_iff)
  have "split_on (CHR ''/'') (join ''/'' segs) = segs"
    using assms(1) c by (intro split_on_join) (auto simp: clean_segment_def plain_segment_def)
  moreover have "map trim segs = segs"
    using c by (intro map_idI) (simp add: clean_segment_def)
  moreover have "filter (\<lambda>v. v \<noteq> []) segs = segs"
    using c by (intro filter_True) (auto simp: clean_segment_def plain_segment_def)
  ultimately show ?thesis by simp
qed

lemma parsed_segments_clean:
  "list_all clean_segment (filter (\<lambda>v. v \<noteq> []) (map trim (split_on (CHR ''/'') raw)))"
proof -
  have "clean_segment (trim w)" if "w \<in> set (split_on (CHR ''/'') raw)" "trim w \<noteq> []" for w
    using split_on_no_sep [OF that(1)] set_trim [of w] that(2)
    by (auto simp: clean_segment_def plain_segment_def)
  then show ?thesis by (auto simp: list_all_iff)
qed

lemma list_length_cases_3_5:
  assumes "3 \<le> length xs" "length xs \<le> 5"
  obtains a b c where "xs = [a, b, c]" | a b c d where "xs = [a, b, c, d]"
    | a b c d e where "xs = [a, b, c, d, e]"
proof -
  obtain a b c ys where xs: "xs = a # b # c # ys"
    using assms(1) by (auto simp: eval_nat_numeral Suc_le_length_iff)
  then have "length ys \<le> 2" using assms(2) by simp
  then consider "ys = []" | d where "ys = [d]" | d e where "ys = [d, e]"
    by (cases ys; cases "tl ys"; cases "tl (tl ys)") auto
  then show thesis using that xs by cases auto
qed

section \<open>One decisive directive\<close>

definition applied :: "'w hook_env \<Rightarrow> path \<Rightarrow> domain \<Rightarrow> operator_context \<Rightarrow> hook_body \<Rightarrow> hook_body \<Rightarrow> bool" where
  "applied env bundle dm ctx b b' \<longleftrightarrow>
     (\<exists>d w w'. d \<noteq> Continue \<and> apply_control_directive env bundle dm ctx b d w = (Inr (), b', w'))"

fun is_applied :: "hook_audit \<Rightarrow> bool" where
  "is_applied (HookApplied k a t) = True"
| "is_applied _ = False"

lemma apply_directive_error:
  "apply_control_directive env bundle dm ctx b d w = (Inl e, b', w') \<Longrightarrow> b' = b"
  by (auto simp: apply_control_directive_def apply_control_directive_with_dispatcher_def
      split: control_directive.splits prod.splits sum.splits)

lemma apply_reply_clears:
  "hb_events (apply_reply env b r deny) = [] \<and> hb_request (apply_reply env b r deny) = hb_request b
   \<and> fst ` set (hb_headers (apply_reply env b r deny)) \<subseteq> {''x-reason-code'', ''content-type''}"
  by (auto simp: apply_reply_def Let_def split: option.splits)

lemma applied_clears:
  assumes "applied env bundle dm ctx b b'"
  shows "hb_events b' = [] \<and> hb_request b' = hb_request b
    \<and> fst ` set (hb_headers b') \<subseteq> {''x-reason-code'', ''content-type''}"
proof -
  obtain d w w' where d: "d \<noteq> Continue"
    and a: "apply_control_directive env bundle dm ctx b d w = (Inr (), b', w')"
    using assms by (auto simp: applied_def)
  show ?thesis
  proof (cases d)
    case (Dispatch t)
    then have "b' = dispatched_body env b t"
      using a by (auto simp: apply_control_directive_def apply_control_directive_with_dispatcher_def
          split: prod.splits sum.splits)
    then show ?thesis by (simp add: dispatched_body_def)
  next
    case (Respond r)
    then have "b' = apply_reply env b r False"
      using a by (simp add: apply_control_directive_def apply_control_directive_with_dispatcher_def)
    then show ?thesis using apply_reply_clears by simp
  next
    case (Deny r)
    then have "b' = apply_reply env b r True"
      using a by (simp add: apply_control_directive_def apply_control_directive_with_dispatcher_def)
    then show ?thesis using apply_reply_clears by simp
  qed (use d in simp)
qed

text \<open>What a chain may do to the state: nothing decisive, or one directive at the very end.\<close>

definition chain_effect ::
  "'w hook_env \<Rightarrow> path \<Rightarrow> domain \<Rightarrow> operator_context \<Rightarrow> 'w hook_state
     \<Rightarrow> (hook_error, unit) result \<Rightarrow> 'w hook_state \<Rightarrow> bool" where
  "chain_effect env bundle dm ctx st r st' \<longleftrightarrow>
     (\<exists>new. hs_audit st' = hs_audit st @ new \<and> hs_cache st' = hs_cache st
        \<and> ((hs_body st' = hs_body st \<and> list_all (\<lambda>a. \<not> is_applied a) new)
           \<or> (\<exists>pre a. new = pre @ [a] \<and> list_all (\<lambda>a. \<not> is_applied a) pre \<and> is_applied a
                \<and> r = Inr () \<and> applied env bundle dm ctx (hs_body st) (hs_body st'))))"

lemma chain_effect_prefix:
  assumes "chain_effect env bundle dm ctx mid r st'"
    and "hs_audit mid = hs_audit st @ new0" "list_all (\<lambda>a. \<not> is_applied a) new0"
    and "hs_body mid = hs_body st" "hs_cache mid = hs_cache st"
  shows "chain_effect env bundle dm ctx st r st'"
proof -
  obtain new where new: "hs_audit st' = hs_audit mid @ new" "hs_cache st' = hs_cache mid"
    and alt: "(hs_body st' = hs_body mid \<and> list_all (\<lambda>a. \<not> is_applied a) new)
           \<or> (\<exists>pre a. new = pre @ [a] \<and> list_all (\<lambda>a. \<not> is_applied a) pre \<and> is_applied a
                \<and> r = Inr () \<and> applied env bundle dm ctx (hs_body mid) (hs_body st'))"
    using assms(1) by (auto simp: chain_effect_def)
  from alt show ?thesis
  proof
    assume "hs_body st' = hs_body mid \<and> list_all (\<lambda>a. \<not> is_applied a) new"
    then show ?thesis unfolding chain_effect_def
      by (intro exI [of _ "new0 @ new"]) (use assms new in simp)
  next
    assume "\<exists>pre a. new = pre @ [a] \<and> list_all (\<lambda>a. \<not> is_applied a) pre \<and> is_applied a
                \<and> r = Inr () \<and> applied env bundle dm ctx (hs_body mid) (hs_body st')"
    then obtain pre a where p: "new = pre @ [a]" "list_all (\<lambda>a. \<not> is_applied a) pre" "is_applied a"
      "r = Inr ()" "applied env bundle dm ctx (hs_body mid) (hs_body st')" by blast
    show ?thesis unfolding chain_effect_def
      by (intro exI [of _ "new0 @ new"] conjI disjI2 exI [of _ "new0 @ pre"] exI [of _ a])
        (use assms new p in simp_all)
  qed
qed

lemma invoke_hook_frame:
  "invoke_hook env dm provider ctx off st = (r, st') \<Longrightarrow>
     hs_body st' = hs_body st \<and> hs_audit st' = hs_audit st \<and> hs_cache st' = hs_cache st"
  by (auto simp: invoke_hook_def split: sum.splits prod.splits)

lemma audit_simps [simp]:
  "hs_body (audit a st) = hs_body st" "hs_audit (audit a st) = hs_audit st @ [a]"
  "hs_cache (audit a st) = hs_cache st" "hs_world (audit a st) = hs_world st"
  by (simp_all add: audit_def)

text \<open>A chain that goes on after a step with no decisive effect.\<close>

lemma chain_effect_step:
  assumes "chain_effect env bundle dm ctx (audit a st1) r st'" "\<not> is_applied a"
    and "hs_body st1 = hs_body st" "hs_audit st1 = hs_audit st @ [b]" "\<not> is_applied b"
    and "hs_cache st1 = hs_cache st"
  shows "chain_effect env bundle dm ctx st r st'"
  by (rule chain_effect_prefix [OF assms(1), of st "[b, a]"]) (use assms in simp_all)

lemma chain_effect_skip:
  assumes "chain_effect env bundle dm ctx st1 r st'"
    and "hs_body st1 = hs_body st" "hs_audit st1 = hs_audit st @ [b]" "\<not> is_applied b"
    and "hs_cache st1 = hs_cache st"
  shows "chain_effect env bundle dm ctx st r st'"
  by (rule chain_effect_prefix [OF assms(1), of st "[b]"]) (use assms in simp_all)

lemma chain_effect_stop:
  assumes "hs_body st' = hs_body st" "hs_audit st' = hs_audit st @ [b]" "\<not> is_applied b"
    and "hs_cache st' = hs_cache st"
  shows "chain_effect env bundle dm ctx st r st'"
  unfolding chain_effect_def by (intro exI [of _ "[b]"]) (use assms in simp)

lemma chain_effect_applied:
  assumes "apply_control_directive env bundle dm ctx (hs_body st) d w = (Inr u, b', w')" "d \<noteq> Continue"
    and "hs_audit st' = hs_audit st @ [a0, HookApplied k x t]" "\<not> is_applied a0"
    and "hs_body st' = b'" "hs_cache st' = hs_cache st"
  shows "chain_effect env bundle dm ctx st (Inr ()) st'"
proof -
  have "applied env bundle dm ctx (hs_body st) (hs_body st')"
    using assms(1,2,5) by (auto simp: applied_def)
  then show ?thesis unfolding chain_effect_def
    by (intro exI [of _ "[a0, HookApplied k x t]"] conjI disjI2 exI [of _ "[a0]"] exI [of _ "HookApplied k x t"])
      (use assms in simp_all)
qed

text \<open>The step of one hook whose component answered: what the chain does next.\<close>

definition after_invoke ::
  "'w hook_env \<Rightarrow> path \<Rightarrow> domain \<Rightarrow> string \<Rightarrow> operator_context \<Rightarrow> offer \<Rightarrow> offer list \<Rightarrow> op_outcome
     \<Rightarrow> 'w hook_state \<Rightarrow> (hook_error, unit) result \<times> 'w hook_state" where
  "after_invoke env bundle dm provider ctx off offs out st =
     (if \<not> oo_success out
      then run_hooks env bundle dm provider ctx offs (audit (HookFailed (of_offer_key off)) st)
      else
        (case Option.bind (oo_output out) (\<lambda>v. Some (try_parse_control_directive env v)) of
           None \<Rightarrow> run_hooks env bundle dm provider ctx offs st
         | Some None \<Rightarrow> run_hooks env bundle dm provider ctx offs (audit (HookParseError (of_offer_key off)) st)
         | Some (Some d) \<Rightarrow>
             if d = Continue then run_hooks env bundle dm provider ctx offs st
             else
               (case apply_control_directive env bundle dm ctx (hs_body st) d (hs_world st) of
                  (Inr _, b, w) \<Rightarrow>
                    (Inr (), audit (HookApplied (of_offer_key off) (directive_action d) (directive_target_for_audit d))
                               (st\<lparr>hs_body := b, hs_world := w\<rparr>))
                | (Inl e, b, w) \<Rightarrow>
                    run_hooks env bundle dm provider ctx offs
                      (audit (HookParseError (of_offer_key off)) (st\<lparr>hs_body := b, hs_world := w\<rparr>)))))"

lemma run_hooks_Cons:
  "run_hooks env bundle dm provider ctx (off # offs) st =
     (case invoke_hook env dm provider ctx off (audit (HookInvoked (of_offer_key off)) st) of
        (Inl e, st1) \<Rightarrow> (Inl e, st1)
      | (Inr out, st1) \<Rightarrow> after_invoke env bundle dm provider ctx off offs out st1)"
  by (auto simp: after_invoke_def split: prod.split sum.split option.split control_directive.split)

lemma decisive_effect:
  assumes ih: "\<And>st1. run_hooks env bundle dm provider ctx offs st1 = (r, st') \<Longrightarrow> chain_effect env bundle dm ctx st1 r st'"
    and fr: "hs_body st1 = hs_body st" "hs_audit st1 = hs_audit st @ [HookInvoked k]" "hs_cache st1 = hs_cache st"
    and d: "d \<noteq> Continue"
    and run: "(case apply_control_directive env bundle dm ctx (hs_body st1) d (hs_world st1) of
          (Inr _, b, w) \<Rightarrow> (Inr (), audit (HookApplied k (directive_action d) (directive_target_for_audit d))
                               (st1\<lparr>hs_body := b, hs_world := w\<rparr>))
        | (Inl e, b, w) \<Rightarrow> run_hooks env bundle dm provider ctx offs
                             (audit (HookParseError k) (st1\<lparr>hs_body := b, hs_world := w\<rparr>))) = (r, st')"
  shows "chain_effect env bundle dm ctx st r st'"
proof -
  obtain x b w where ap: "apply_control_directive env bundle dm ctx (hs_body st1) d (hs_world st1) = (x, b, w)"
    by (metis prod.exhaust)
  show ?thesis
  proof (cases x)
    case (Inl e)
    have b: "b = hs_body st1" by (rule apply_directive_error [OF ap [unfolded Inl]])
    have "run_hooks env bundle dm provider ctx offs
        (audit (HookParseError k) (st1\<lparr>hs_body := b, hs_world := w\<rparr>)) = (r, st')"
      using run Inl ap by simp
    from chain_effect_step [OF ih [OF this]] fr b show ?thesis by simp
  next
    case (Inr u)
    then have "r = Inr ()" "st' = audit (HookApplied k (directive_action d) (directive_target_for_audit d))
        (st1\<lparr>hs_body := b, hs_world := w\<rparr>)"
      using run ap by simp_all
    then show ?thesis
      using chain_effect_applied [of env "bundle" dm ctx st d "hs_world st1" u b w st'] ap Inr fr d by simp
  qed
qed

lemma after_invoke_effect:
  assumes ih: "\<And>st1. run_hooks env bundle dm provider ctx offs st1 = (r, st') \<Longrightarrow> chain_effect env bundle dm ctx st1 r st'"
    and fr: "hs_body st1 = hs_body st" "hs_audit st1 = hs_audit st @ [HookInvoked (of_offer_key off)]"
      "hs_cache st1 = hs_cache st"
    and run: "after_invoke env bundle dm provider ctx off offs out st1 = (r, st')"
  shows "chain_effect env bundle dm ctx st r st'"
proof -
  let ?k = "of_offer_key off"
  let ?next = "\<lambda>st1. run_hooks env bundle dm provider ctx offs st1 = (r, st')"
  consider (failed) "?next (audit (HookFailed ?k) st1)" | (unparsed) "?next (audit (HookParseError ?k) st1)"
    | (neutral) "?next st1"
    | (decisive) d where "d \<noteq> Continue"
      "(case apply_control_directive env bundle dm ctx (hs_body st1) d (hs_world st1) of
          (Inr _, b, w) \<Rightarrow> (Inr (), audit (HookApplied ?k (directive_action d) (directive_target_for_audit d))
                               (st1\<lparr>hs_body := b, hs_world := w\<rparr>))
        | (Inl e, b, w) \<Rightarrow> run_hooks env bundle dm provider ctx offs
                             (audit (HookParseError ?k) (st1\<lparr>hs_body := b, hs_world := w\<rparr>))) = (r, st')"
    using run unfolding after_invoke_def
    by (simp only: split: if_splits option.splits)
  then show ?thesis
  proof cases
    case failed
    from chain_effect_step [OF ih [OF this]] fr show ?thesis by simp
  next
    case unparsed
    from chain_effect_step [OF ih [OF this]] fr show ?thesis by simp
  next
    case neutral
    from chain_effect_skip [OF ih [OF this]] fr show ?thesis by simp
  next
    case decisive
    from decisive_effect [OF ih fr this] show ?thesis .
  qed
qed

lemma run_hooks_effect:
  "run_hooks env bundle dm provider ctx offs st = (r, st') \<Longrightarrow> chain_effect env bundle dm ctx st r st'"
proof (induction offs arbitrary: st)
  case Nil
  then show ?case by (auto simp: chain_effect_def)
next
  case (Cons off offs)
  let ?k = "of_offer_key off"
  obtain res st1 where inv: "invoke_hook env dm provider ctx off (audit (HookInvoked ?k) st) = (res, st1)"
    by force
  have fr: "hs_body st1 = hs_body st" "hs_audit st1 = hs_audit st @ [HookInvoked ?k]" "hs_cache st1 = hs_cache st"
    using invoke_hook_frame [OF inv] by simp_all
  show ?case
  proof (cases res)
    case (Inl e)
    then have "st' = st1" using Cons.prems by (simp add: run_hooks_Cons inv del: run_hooks.simps)
    then show ?thesis using fr by (auto intro: chain_effect_stop)
  next
    case (Inr out)
    then have "after_invoke env bundle dm provider ctx off offs out st1 = (r, st')"
      using Cons.prems by (simp add: run_hooks_Cons inv del: run_hooks.simps)
    from after_invoke_effect [OF Cons.IH fr this] show ?thesis .
  qed
qed

section \<open>Properties\<close>

definition sample_hook_manifest :: "path \<Rightarrow> (string, json) result" where
  "sample_hook_manifest p = Inr (JObj [(''pack_id'', JStr ''guard''), (''offers'', JArr
     [JObj [(''id'', JStr ''gate''), (''kind'', JStr ''hook''), (''provider'', JObj [(''op'', JStr ''check'')]),
            (''stage'', JStr ''post_ingress''), (''contract'', JStr ''greentic.hook.control.v1'')]])])"

text \<open>An environment with one hook pack whose component always gives the same answer.\<close>

definition sample_env :: "json \<Rightarrow> (path \<Rightarrow> bool) \<Rightarrow> (path list) hook_env" where
  "sample_env answer existing =
     \<lparr>he_var = (\<lambda>_. None), he_exists = existing,
      he_tree = (\<lambda>_. Some [(''guard.gtpack'', FileEntry)]), he_read_manifest = sample_hook_manifest,
      he_read_meta = (\<lambda>p. Inr \<lparr>meta_pack_id = ''web'', meta_entry_flows = [''main'']\<rparr>),
      he_b64_encode = (\<lambda>_. []), he_b64_decode = (\<lambda>_. None), he_cbor_decode = (\<lambda>_. None),
      he_cbor_encode = (\<lambda>_. Inr []), he_json_vec = (\<lambda>_. [1]),
      he_invoke = (\<lambda>_ _ _ _ _ _ w. (Inr \<lparr>oo_success = True, oo_output = Some answer, oo_error = None\<rparr>, w)),
      he_run_flow = (\<lambda>rq w. (Inr (), w @ [rq_pack_path rq]))\<rparr>"

definition sample_ctx :: operator_context where
  "sample_ctx = \<lparr>oc_tenant = ''acme'', oc_team = None, oc_correlation_id = None\<rparr>"

definition sample_body :: hook_body where
  "sample_body = \<lparr>hb_request = JNull, hb_status = 200, hb_headers = [(''x'', ''y'')], hb_body = None,
     hb_events = [JStr ''hello'']\<rparr>"

definition sample_state :: "(path list) hook_state" where
  "sample_state = \<lparr>hs_body = sample_body, hs_world = [], hs_cache = [], hs_audit = []\<rparr>"

definition sample_result :: "(json, string) ingress_dispatch_result" where
  "sample_result = \<lparr>id_response = \<lparr>ih_status = 200, ih_headers = [], ih_body = None\<rparr>,
     id_events = [JStr ''hello''], id_envelopes = [''hello'']\<rparr>"

definition deny_answer :: json where
  "deny_answer = JObj [(''action'', JStr ''deny''), (''reason_code'', JStr ''blocked'')]"

text \<open>
  C2: a run of the hook chain has at most one decisive effect. Either the body is unchanged
  and nothing is reported as applied, or the chain succeeds, the last audit line is the only
  applied one, and the body is the result of applying one directive other than \<open>continue\<close> to
  the original body: its events are gone, its request is untouched, and no header of the
  provider survives.
\<close>

theorem hook_chain_single_effect:
  assumes "run_hooks env bundle dm provider ctx offs st = (r, st')"
  shows "\<exists>new. hs_audit st' = hs_audit st @ new \<and> hs_cache st' = hs_cache st
     \<and> ((hs_body st' = hs_body st \<and> filter is_applied new = [])
        \<or> (r = Inr () \<and> filter is_applied new = [last new] \<and> applied env bundle dm ctx (hs_body st) (hs_body st')
           \<and> hb_events (hs_body st') = [] \<and> hb_request (hs_body st') = hb_request (hs_body st)
           \<and> fst ` set (hb_headers (hs_body st')) \<subseteq> {''x-reason-code'', ''content-type''}))"
proof -
  have none: "filter is_applied xs = [] \<longleftrightarrow> list_all (\<lambda>a. \<not> is_applied a) xs" for xs
    by (simp add: filter_empty_conv list_all_iff)
  obtain new where new: "hs_audit st' = hs_audit st @ new" "hs_cache st' = hs_cache st"
    and alt: "(hs_body st' = hs_body st \<and> list_all (\<lambda>a. \<not> is_applied a) new)
           \<or> (\<exists>pre a. new = pre @ [a] \<and> list_all (\<lambda>a. \<not> is_applied a) pre \<and> is_applied a
                \<and> r = Inr () \<and> applied env bundle dm ctx (hs_body st) (hs_body st'))"
    using run_hooks_effect [OF assms] by (auto simp: chain_effect_def)
  show ?thesis
  proof (rule exI [of _ new])
    show "hs_audit st' = hs_audit st @ new \<and> hs_cache st' = hs_cache st
     \<and> ((hs_body st' = hs_body st \<and> filter is_applied new = [])
        \<or> (r = Inr () \<and> filter is_applied new = [last new] \<and> applied env bundle dm ctx (hs_body st) (hs_body st')
           \<and> hb_events (hs_body st') = [] \<and> hb_request (hs_body st') = hb_request (hs_body st)
           \<and> fst ` set (hb_headers (hs_body st')) \<subseteq> {''x-reason-code'', ''content-type''}))"
      using alt
    proof
      assume "\<exists>pre a. new = pre @ [a] \<and> list_all (\<lambda>a. \<not> is_applied a) pre \<and> is_applied a
                \<and> r = Inr () \<and> applied env bundle dm ctx (hs_body st) (hs_body st')"
      then obtain pre a where p: "new = pre @ [a]" "filter is_applied pre = []" "is_applied a" "r = Inr ()"
        and ap: "applied env bundle dm ctx (hs_body st) (hs_body st')" by (auto simp: none)
      show ?thesis using new p ap applied_clears [OF ap] by simp
    qed (use new none in simp)
  qed
qed

definition sample_run :: "json \<Rightarrow> (hook_error, unit) result \<times> (path list) hook_state" where
  "sample_run answer = run_hooks (sample_env answer (\<lambda>_. True)) ''b'' Messaging ''telegram'' sample_ctx
     [\<lparr>of_offer_key = ''guard::gate'', of_pack_id = ''guard'', of_pack_ref = ''b/packs/guard.gtpack'',
       of_id = ''gate'', of_kind = Hook, of_priority = 1, of_provider_op = ''check'', of_stage = None,
       of_contract = None\<rparr>] sample_state"

theorem hook_chain_single_effect_witness:
  "hb_events (hs_body (snd (sample_run deny_answer))) = [] \<and> hb_status (hs_body (snd (sample_run deny_answer))) = 403"
proof -
  have r: "run_hooks (sample_env deny_answer (\<lambda>_. True)) ''b'' Messaging ''telegram'' sample_ctx
     [\<lparr>of_offer_key = ''guard::gate'', of_pack_id = ''guard'', of_pack_ref = ''b/packs/guard.gtpack'',
       of_id = ''gate'', of_kind = Hook, of_priority = 1, of_provider_op = ''check'', of_stage = None,
       of_contract = None\<rparr>] sample_state = (fst (sample_run deny_answer), snd (sample_run deny_answer))"
    by (simp add: sample_run_def)
  have s: "hb_status (hs_body (snd (sample_run deny_answer))) = 403" by code_simp
  have t: "hb_status (hs_body sample_state) = 200" by code_simp
  have "hs_body (snd (sample_run deny_answer)) \<noteq> hs_body sample_state"
  proof
    assume "hs_body (snd (sample_run deny_answer)) = hs_body sample_state"
    then have "(403 :: 16 word) = 200" using s t by simp
    then show False by simp
  qed
  then show ?thesis using hook_chain_single_effect [OF r] s by blast
qed

text \<open>
  C29: a dispatch whose target has an unsafe tenant, team, pack, flow or node (empty, hidden,
  with a separator, a backslash, a colon or a NUL) is refused and runs nothing.
\<close>

theorem unsafe_dispatch_refused:
  assumes "\<not> (is_safe_segment (dt_tenant t) \<and> is_safe_segment (dt_pack t)
     \<and> (\<forall>s \<in> set_option (dt_team t) \<union> set_option (dt_flow t) \<union> set_option (dt_node t). is_safe_segment s))"
  shows "\<exists>e. dispatch_to_target env bundle dm b ctx t w = (Inl e, w)
     \<and> e \<in> {InvalidTenant (dt_tenant t), InvalidPack (dt_pack t)}
           \<union> InvalidTeam ` set_option (dt_team t) \<union> InvalidFlow ` set_option (dt_flow t)
           \<union> InvalidNode ` set_option (dt_node t)"
  using assms
  by (auto simp: dispatch_to_target_def ensure_dispatch_target_safe_def unsafe_opt_def split: option.splits)

definition sample_target :: "string \<Rightarrow> dispatch_target" where
  "sample_target p = \<lparr>dt_tenant = ''acme'', dt_team = None, dt_pack = p, dt_flow = None, dt_node = None\<rparr>"

theorem unsafe_dispatch_refused_witness:
  "\<exists>e. dispatch_to_target (sample_env JNull (\<lambda>_. True)) ''b'' Messaging sample_body sample_ctx
     (sample_target ''../web'') [] = (Inl e, [])"
proof -
  have "\<not> is_safe_segment (dt_pack (sample_target ''../web''))" by code_simp
  then show ?thesis
    using unsafe_dispatch_refused [of "sample_target ''../web''" "sample_env JNull (\<lambda>_. True)" "''b''" Messaging
        sample_body sample_ctx "[]"] by blast
qed

text \<open>
  C30: the string form of a dispatch target, \<open>tenant/team/pack[/flow[/node]]\<close>, is a round
  trip: a well-formed target is parsed back from its segments, and whatever the parser
  accepts is well formed.
\<close>

theorem dispatch_target_roundtrip:
  "(wf_target t \<longrightarrow> parse_dispatch_target_string (join ''/'' (target_segments t)) = Some t)
   \<and> (parse_dispatch_target_string raw = Some t \<longrightarrow> wf_target t)"
proof (intro conjI impI)
  assume wf: "wf_target t"
  then have segs: "filter (\<lambda>v. v \<noteq> []) (map trim (split_on (CHR ''/'') (join ''/'' (target_segments t))))
      = target_segments t"
    by (intro clean_segments_parse) (simp_all add: wf_target_def target_segments_def)
  have c: "s \<noteq> []" if "s \<in> set (target_segments t)" for s
    using wf that by (auto simp: wf_target_def list_all_iff clean_segment_def plain_segment_def)
  then have ne: "dt_tenant t \<noteq> []" "opt_unwrap_or (dt_team t) [] \<noteq> []" "dt_pack t \<noteq> []"
    by (auto simp: target_segments_def)
  show "parse_dispatch_target_string (join ''/'' (target_segments t)) = Some t"
    unfolding parse_dispatch_target_string_def segs Let_def using wf ne
    by (cases "dt_team t"; cases "dt_flow t"; cases "dt_node t")
      (simp_all add: wf_target_def target_segments_def eval_nat_numeral)
next
  assume "parse_dispatch_target_string raw = Some t"
  then obtain segs where s: "list_all clean_segment segs" "3 \<le> length segs" "length segs \<le> 5"
    and t: "t = \<lparr>dt_tenant = segs ! 0, dt_team = opt_filter (\<lambda>v. v \<noteq> []) (Some (segs ! 1)), dt_pack = segs ! 2,
      dt_flow = nth_opt segs 3, dt_node = nth_opt segs 4\<rparr>"
    using parsed_segments_clean [of raw]
    by (auto simp: parse_dispatch_target_string_def Let_def not_less split: if_splits)
  from s(2,3) show "wf_target t"
    by (rule list_length_cases_3_5)
      (use s(1) t in \<open>auto simp: wf_target_def target_segments_def clean_segment_def plain_segment_def eval_nat_numeral\<close>)
qed

theorem dispatch_target_roundtrip_witness:
  "parse_dispatch_target_string ''acme/default/pack-a/flow-x/node-y'' =
     Some \<lparr>dt_tenant = ''acme'', dt_team = Some ''default'', dt_pack = ''pack-a'', dt_flow = Some ''flow-x'',
           dt_node = Some ''node-y''\<rparr>"
proof -
  let ?t = "\<lparr>dt_tenant = ''acme'', dt_team = Some ''default'', dt_pack = ''pack-a'', dt_flow = Some ''flow-x'',
           dt_node = Some ''node-y''\<rparr>"
  have "wf_target ?t" by code_simp
  moreover have "join ''/'' (target_segments ?t) = ''acme/default/pack-a/flow-x/node-y''" by code_simp
  ultimately show ?thesis using dispatch_target_roundtrip [of ?t] by simp
qed

text \<open>
  C34: a hook that denies a messaging request clears the events and sets the response, but
  the channel messages the provider decoded from the same events stay in the dispatch result
  (whatever the hooks answer), so the caller still routes them to the application.
\<close>

theorem deny_keeps_messages:
  "(\<lambda>(r, res, st). (r, ih_status (id_response res), id_events res, id_envelopes res,
      map is_applied (hs_audit st)))
     (apply_post_ingress_hooks_dispatch (sample_env deny_answer (\<lambda>_. True)) (\<lambda>e. e) Inr ''b'' Messaging JNull
        ''telegram'' sample_ctx sample_result sample_state)
   = (Inr (), 403, [], [''hello''], [False, False, True])
   \<and> (\<lambda>(r, res', st'). id_envelopes res') (apply_post_ingress_hooks_dispatch env to_value from_value bundle dm
        request provider ctx res st) = id_envelopes res"
proof
  show "(\<lambda>(r, res, st). (r, ih_status (id_response res), id_events res, id_envelopes res,
      map is_applied (hs_audit st)))
     (apply_post_ingress_hooks_dispatch (sample_env deny_answer (\<lambda>_. True)) (\<lambda>e. e) Inr ''b'' Messaging JNull
        ''telegram'' sample_ctx sample_result sample_state)
   = (Inr (), 403, [], [''hello''], [False, False, True])" by code_simp
  show "(\<lambda>(r, res', st'). id_envelopes res') (apply_post_ingress_hooks_dispatch env to_value from_value bundle dm
        request provider ctx res st) = id_envelopes res"
    by (auto simp: apply_post_ingress_hooks_dispatch_def Let_def split: prod.split sum.split)
qed

text \<open>
  The pack of a dispatch is looked up in the working directory of the process before the
  packs of the bundle: when a file \<open>web\<close> exists there, a dispatch to the safe name \<open>web\<close> runs
  that file although the bundle holds \<open>packs/web.gtpack\<close>.
\<close>

lemma dispatch_prefers_working_directory:
  "is_safe_segment ''web''
   \<and> dispatch_to_target (sample_env JNull (\<lambda>p. p = ''web'' \<or> p = ''b/packs/web.gtpack'')) ''b'' Messaging
       sample_body sample_ctx (sample_target ''web'') [] = (Inr (), [''web''])
   \<and> dispatch_to_target (sample_env JNull (\<lambda>p. p = ''b/packs/web.gtpack'')) ''b'' Messaging
       sample_body sample_ctx (sample_target ''web'') [] = (Inr (), [''b/packs/web.gtpack''])"
  by (simp add: dispatch_to_target_def resolve_dispatch_pack_path_def sample_env_def sample_target_def
      ensure_dispatch_target_safe_def is_safe_segment_def unsafe_opt_def path_join_def starts_with_def Let_def)

text \<open>
  The status code of a directive is cut to 16 bits, so a hook that denies with the
  status \<open>65736\<close> makes the operator answer \<open>200\<close>.
\<close>

lemma deny_status_truncated:
  "map_option (\<lambda>d. case apply_control_directive env bundle dm ctx b d w of (r, b', w') \<Rightarrow> (r, hb_status b', w'))
     (try_parse_control_directive env (JObj [(''action'', JStr ''deny''), (''status_code'', JInt 65736)]))
   = Some (Inr (), 200, w)"
proof -
  have "to_ascii_lowercase (trim ''deny'') = ''deny''" by code_simp
  then show ?thesis
    by (simp add: try_parse_control_directive_def decode_directive_json_def as_object_def as_str_def
        apply_control_directive_def apply_control_directive_with_dispatcher_def apply_reply_def parse_reply_def
        as_u64_def Let_def split: option.split)
qed

end
