(* ===== verification/RecordStore.thy ===== *)
theory RecordStore
  imports Prelude
begin

text \<open>
  Records kept in files, one file per key: the contract under which a component that only
  names files (install records, subscription records) behaves as a map from keys to records.
  A file is what a path resolves to, so the law says that keys with valid names never share
  a file under any spelling of their paths.
\<close>

locale record_store =
  fixes path_of :: "'k \<Rightarrow> 'f"
    and valid :: "'k \<Rightarrow> bool"
  assumes path_inj: "valid k \<Longrightarrow> valid k' \<Longrightarrow> path_of k = path_of k' \<Longrightarrow> k = k'"
begin

lemma read_after_write:
  "valid k \<Longrightarrow> valid k' \<Longrightarrow>
     (fs(path_of k \<mapsto> r)) (path_of k') = (if k' = k then Some r else fs (path_of k'))"
  using path_inj by auto

lemma read_after_delete:
  "valid k \<Longrightarrow> valid k' \<Longrightarrow>
     (fs(path_of k := None)) (path_of k') = (if k' = k then None else fs (path_of k'))"
  using path_inj by auto

lemma other_key_untouched:
  "valid k \<Longrightarrow> valid k' \<Longrightarrow> k' \<noteq> k \<Longrightarrow> (fs(path_of k := x)) (path_of k') = fs (path_of k')"
  using path_inj by auto

end

end
