(* ===== verification/Capabilities.thy ===== *)
theory Capabilities
  imports OrdMap StaticRoutes Hooks RecordStore
begin

text \<open>
  The capability registry (\<open>src/capabilities.rs\<close>) and the catalogue derived from it
  (\<open>src/capability_runtime.rs\<close>): offers of packs grouped by capability and ranked,
  resolution by version, scope and operation, event topics and subscriptions, and the
  install records that say whether a capability is ready. Archives and the payload decoder
  are parameters.
\<close>

section \<open>The capabilities extension of a pack\<close>

record capability_scope =
  sc_envs :: "string list"
  sc_tenants :: "string list"
  sc_teams :: "string list"

definition default_scope :: capability_scope where
  "default_scope = \<lparr>sc_envs = [], sc_tenants = [], sc_teams = []\<rparr>"

record capability_provider_ref =
  cp_component_ref :: string
  cp_op :: string

record capability_offer_v1 =
  cv_offer_id :: "string option"
  cv_cap_id :: string
  cv_version :: string
  cv_provider :: capability_provider_ref
  cv_scope :: "capability_scope option"
  cv_priority :: int
  cv_requires_setup :: bool
  cv_setup :: "string option"
  cv_applies_to :: "string list option"
  cv_operation_id :: "string option"
  cv_input_schema_ref :: "string option"
  cv_output_schema_ref :: "string option"
  cv_adapter_kind :: "string option"

record capability_topic_v1 =
  tv_topic :: string
  tv_event_type :: string
  tv_publisher :: capability_provider_ref
  tv_payload_schema_ref :: "string option"
  tv_adapter_kind :: "string option"
  tv_priority :: int
  tv_scope :: "capability_scope option"

record capability_subscription_v1 =
  sv_subscription_id :: string
  sv_topic :: string
  sv_event_type :: string
  sv_capability_id :: string
  sv_op :: string
  sv_payload_schema_ref :: "string option"
  sv_filter :: "(string option \<times> string option) option"
  sv_delivery :: "(string option \<times> nat option) option"
  sv_priority :: int
  sv_scope :: "capability_scope option"

record capabilities_extension =
  ce_schema_version :: nat
  ce_offers :: "capability_offer_v1 list"
  ce_topics :: "capability_topic_v1 list"
  ce_subscriptions :: "capability_subscription_v1 list"

datatype capability_error =
    CapManifestFailed path string
  | CapInlineMissing
  | CapInlineWrongType
  | CapPayloadInvalid string
  | CapSchemaVersion nat

text \<open>\<open>read_manifest\<close> answers the inline payload of the capabilities extension, if the
  manifest has that extension.\<close>

definition read_capabilities_extension ::
  "(path \<Rightarrow> (string, inline_payload option) result) \<Rightarrow> (json \<Rightarrow> (string, capabilities_extension) result)
     \<Rightarrow> path \<Rightarrow> (capability_error, capabilities_extension option) result" where
  "read_capabilities_extension read_manifest from_value p =
     rbind (map_err (CapManifestFailed p) (read_manifest p)) (\<lambda>ext.
       (case ext of
          None \<Rightarrow> Inr None
        | Some InlineAbsent \<Rightarrow> Inl CapInlineMissing
        | Some InlineTyped \<Rightarrow> Inl CapInlineWrongType
        | Some (InlineOther v) \<Rightarrow>
            rbind (map_err CapPayloadInvalid (from_value v)) (\<lambda>decoded.
              if ce_schema_version decoded \<noteq> 1 then Inl (CapSchemaVersion (ce_schema_version decoded))
              else Inr (Some decoded))))"

section \<open>Registry records\<close>

record resolve_scope =
  rs_env :: "string option"
  rs_tenant :: "string option"
  rs_team :: "string option"

record capability_pack_record =
  cpr_pack_id :: string
  cpr_domain :: domain

record capability_offer_record =
  co_stable_id :: string
  co_pack_id :: string
  co_domain :: domain
  co_pack_path :: path
  co_cap_id :: string
  co_version :: string
  co_provider_component_ref :: string
  co_provider_op :: string
  co_priority :: int
  co_requires_setup :: bool
  co_setup_qa_ref :: "string option"
  co_operation_id :: "string option"
  co_input_schema_ref :: "string option"
  co_output_schema_ref :: "string option"
  co_adapter_kind :: "string option"
  co_scope :: capability_scope
  co_applies_to_ops :: "string list"

record capability_binding =
  cb_cap_id :: string
  cb_stable_id :: string
  cb_pack_id :: string
  cb_domain :: domain
  cb_pack_path :: path
  cb_provider_component_ref :: string
  cb_provider_op :: string
  cb_version :: string
  cb_requires_setup :: bool
  cb_setup_qa_ref :: "string option"

record capability_topic_record =
  ct_topic :: string
  ct_event_type :: string
  ct_pack_id :: string
  ct_domain :: domain
  ct_pack_path :: path
  ct_publisher_component_ref :: string
  ct_publisher_op :: string
  ct_payload_schema_ref :: "string option"
  ct_adapter_kind :: "string option"
  ct_priority :: int

record capability_subscription_record =
  cs_subscription_id :: string
  cs_topic :: string
  cs_event_type :: string
  cs_pack_id :: string
  cs_domain :: domain
  cs_pack_path :: path
  cs_capability_id :: string
  cs_op :: string
  cs_payload_schema_ref :: "string option"
  cs_filter_json_pointer :: "string option"
  cs_filter_equals :: "string option"
  cs_delivery_mode :: string
  cs_max_attempts :: nat
  cs_priority :: int

type_synonym pack_index = "(path, capability_pack_record) btree"
type_synonym capability_registry = "(string, capability_offer_record list) btree"

datatype hook_phase = PreStage | PostStage

definition phase_cap_id :: "hook_phase \<Rightarrow> string" where
  "phase_cap_id s = (case s of PreStage \<Rightarrow> ''greentic.cap.op_hook.pre'' | PostStage \<Rightarrow> ''greentic.cap.op_hook.post'')"

section \<open>Building the registry\<close>

definition stable_id_of :: "string \<Rightarrow> nat \<Rightarrow> capability_offer_v1 \<Rightarrow> string" where
  "stable_id_of pack_id idx off =
     (case cv_offer_id off of
        Some i \<Rightarrow> if trim i \<noteq> [] then i else join ''::''
          [pack_id, cv_cap_id off, cp_component_ref (cv_provider off), cp_op (cv_provider off), show_nat idx]
      | None \<Rightarrow> join ''::''
          [pack_id, cv_cap_id off, cp_component_ref (cv_provider off), cp_op (cv_provider off), show_nat idx])"

definition offer_record :: "path \<Rightarrow> capability_pack_record \<Rightarrow> nat \<Rightarrow> capability_offer_v1 \<Rightarrow> capability_offer_record" where
  "offer_record p pr idx off =
     \<lparr>co_stable_id = stable_id_of (cpr_pack_id pr) idx off, co_pack_id = cpr_pack_id pr,
      co_domain = cpr_domain pr, co_pack_path = p, co_cap_id = cv_cap_id off, co_version = cv_version off,
      co_provider_component_ref = cp_component_ref (cv_provider off), co_provider_op = cp_op (cv_provider off),
      co_priority = cv_priority off, co_requires_setup = cv_requires_setup off, co_setup_qa_ref = cv_setup off,
      co_operation_id = cv_operation_id off, co_input_schema_ref = cv_input_schema_ref off,
      co_output_schema_ref = cv_output_schema_ref off, co_adapter_kind = cv_adapter_kind off,
      co_scope = opt_unwrap_or (cv_scope off) default_scope,
      co_applies_to_ops = opt_unwrap_or (cv_applies_to off) []\<rparr>"

definition pack_offer_records :: "path \<Rightarrow> capability_pack_record \<Rightarrow> capabilities_extension \<Rightarrow> capability_offer_record list" where
  "pack_offer_records p pr ext =
     map (\<lambda>(idx, off). offer_record p pr idx off) (enumerate 0 (ce_offers ext))"

fun collect_offers ::
  "(path \<Rightarrow> (capability_error, capabilities_extension option) result) \<Rightarrow> pack_index \<Rightarrow> capability_registry
     \<Rightarrow> (capability_error, capability_registry) result" where
  "collect_offers read_ext [] m = Inr m"
| "collect_offers read_ext ((p, pr) # rest) m =
     rbind (read_ext p) (\<lambda>ext.
       (case ext of
          None \<Rightarrow> collect_offers read_ext rest m
        | Some e \<Rightarrow> collect_offers read_ext rest
                      (fold (\<lambda>r. bt_push (co_cap_id r) r) (pack_offer_records p pr e) m)))"

definition cap_rank :: "capability_offer_record \<Rightarrow> int \<times> string" where
  "cap_rank r = (co_priority r, co_stable_id r)"

definition build_from_pack_index ::
  "(path \<Rightarrow> (capability_error, capabilities_extension option) result) \<Rightarrow> pack_index
     \<Rightarrow> (capability_error, capability_registry) result" where
  "build_from_pack_index read_ext idx =
     rbind (collect_offers read_ext idx []) (\<lambda>m. Inr (map (\<lambda>(k, v). (k, sort_key cap_rank v)) m))"

section \<open>Matching and resolution\<close>

definition version_matches :: "string \<Rightarrow> string option \<Rightarrow> bool" where
  "version_matches version min_version =
     (case min_version of None \<Rightarrow> True | Some requested \<Rightarrow> version = requested)"

definition value_matches :: "string list \<Rightarrow> string option \<Rightarrow> bool" where
  "value_matches vals current =
     (if vals = [] then True
      else (case current of None \<Rightarrow> False | Some c \<Rightarrow> c \<in> set vals))"

definition scope_matches :: "capability_scope \<Rightarrow> resolve_scope \<Rightarrow> bool" where
  "scope_matches offer_scope scope \<longleftrightarrow>
     value_matches (sc_envs offer_scope) (rs_env scope)
     \<and> value_matches (sc_tenants offer_scope) (rs_tenant scope)
     \<and> value_matches (sc_teams offer_scope) (rs_team scope)"

definition op_matches :: "capability_offer_record \<Rightarrow> string option \<Rightarrow> bool" where
  "op_matches off requested =
     (case requested of None \<Rightarrow> True
      | Some op \<Rightarrow> if co_applies_to_ops off = [] then True else op \<in> set (co_applies_to_ops off))"

definition offers_for_capability :: "capability_registry \<Rightarrow> string \<Rightarrow> capability_offer_record list" where
  "offers_for_capability reg cap_id = opt_unwrap_or (bt_get reg cap_id) []"

definition offers_in_scope :: "capability_registry \<Rightarrow> resolve_scope \<Rightarrow> capability_offer_record list" where
  "offers_in_scope reg scope =
     sort_key cap_rank (filter (\<lambda>r. scope_matches (co_scope r) scope) (concat (bt_values reg)))"

definition binding_of :: "capability_offer_record \<Rightarrow> capability_binding" where
  "binding_of r =
     \<lparr>cb_cap_id = co_cap_id r, cb_stable_id = co_stable_id r, cb_pack_id = co_pack_id r,
      cb_domain = co_domain r, cb_pack_path = co_pack_path r,
      cb_provider_component_ref = co_provider_component_ref r, cb_provider_op = co_provider_op r,
      cb_version = co_version r, cb_requires_setup = co_requires_setup r, cb_setup_qa_ref = co_setup_qa_ref r\<rparr>"

definition resolve_for_op ::
  "capability_registry \<Rightarrow> string \<Rightarrow> string option \<Rightarrow> resolve_scope \<Rightarrow> string option \<Rightarrow> capability_binding option" where
  "resolve_for_op reg cap_id min_version scope requested_op =
     Option.bind (bt_get reg cap_id) (\<lambda>offers.
       map_option binding_of (List.find (\<lambda>r. version_matches (co_version r) min_version
         \<and> scope_matches (co_scope r) scope \<and> op_matches r requested_op) offers))"

definition resolve :: "capability_registry \<Rightarrow> string \<Rightarrow> string option \<Rightarrow> resolve_scope \<Rightarrow> capability_binding option" where
  "resolve reg cap_id min_version scope = resolve_for_op reg cap_id min_version scope None"

definition resolve_hook_chain :: "capability_registry \<Rightarrow> hook_phase \<Rightarrow> string \<Rightarrow> capability_binding list" where
  "resolve_hook_chain reg stage op_name =
     (case bt_get reg (phase_cap_id stage) of
        None \<Rightarrow> []
      | Some offers \<Rightarrow>
          map binding_of (filter (\<lambda>r. co_applies_to_ops r = [] \<or> op_name \<in> set (co_applies_to_ops r)) offers))"

definition offers_requiring_setup :: "capability_registry \<Rightarrow> resolve_scope \<Rightarrow> capability_offer_record list" where
  "offers_requiring_setup reg scope =
     sort_key cap_rank (filter (\<lambda>r. co_requires_setup r \<and> scope_matches (co_scope r) scope)
       (concat (bt_values reg)))"

datatype offer_warning = NonStandardOp string string | SetupWithoutQa string

definition validate_messaging_offers :: "capability_registry \<Rightarrow> offer_warning list" where
  "validate_messaging_offers reg =
     concat (map (\<lambda>r.
       (if co_provider_op r \<noteq> ''messaging.configure''
        then [NonStandardOp (co_stable_id r) (co_provider_op r)] else [])
       @ (if co_requires_setup r \<and> co_setup_qa_ref r = None then [SetupWithoutQa (co_stable_id r)] else []))
       (offers_for_capability reg ''greentic.cap.messaging.provider.v1''))"

definition is_oauth_broker_operation :: "string \<Rightarrow> bool" where
  "is_oauth_broker_operation op \<longleftrightarrow>
     op \<in> {''oauth.initiate_auth'', ''oauth.await_result'', ''oauth.get_access_token'',
           ''oauth.request_resource_token''}"

section \<open>Event bindings\<close>

definition topic_record :: "path \<Rightarrow> capability_pack_record \<Rightarrow> capability_topic_v1 \<Rightarrow> capability_topic_record" where
  "topic_record p pr t =
     \<lparr>ct_topic = tv_topic t, ct_event_type = tv_event_type t, ct_pack_id = cpr_pack_id pr,
      ct_domain = cpr_domain pr, ct_pack_path = p,
      ct_publisher_component_ref = cp_component_ref (tv_publisher t), ct_publisher_op = cp_op (tv_publisher t),
      ct_payload_schema_ref = tv_payload_schema_ref t, ct_adapter_kind = tv_adapter_kind t,
      ct_priority = tv_priority t\<rparr>"

definition subscription_record ::
  "path \<Rightarrow> capability_pack_record \<Rightarrow> capability_subscription_v1 \<Rightarrow> capability_subscription_record" where
  "subscription_record p pr s =
     \<lparr>cs_subscription_id = sv_subscription_id s, cs_topic = sv_topic s, cs_event_type = sv_event_type s,
      cs_pack_id = cpr_pack_id pr, cs_domain = cpr_domain pr, cs_pack_path = p,
      cs_capability_id = sv_capability_id s, cs_op = sv_op s, cs_payload_schema_ref = sv_payload_schema_ref s,
      cs_filter_json_pointer = Option.bind (sv_filter s) fst, cs_filter_equals = Option.bind (sv_filter s) snd,
      cs_delivery_mode = opt_unwrap_or (Option.bind (sv_delivery s) fst) ''at_least_once'',
      cs_max_attempts = opt_unwrap_or (Option.bind (sv_delivery s) snd) 1,
      cs_priority = sv_priority s\<rparr>"

fun gather_bindings ::
  "(path \<Rightarrow> (capability_error, capabilities_extension option) result) \<Rightarrow> resolve_scope \<Rightarrow> pack_index
     \<Rightarrow> (capability_error, capability_topic_record list \<times> capability_subscription_record list) result" where
  "gather_bindings read_ext scope [] = Inr ([], [])"
| "gather_bindings read_ext scope ((p, pr) # rest) =
     rbind (read_ext p) (\<lambda>ext.
     rbind (gather_bindings read_ext scope rest) (\<lambda>(topics, subs).
       (case ext of
          None \<Rightarrow> Inr (topics, subs)
        | Some e \<Rightarrow>
            Inr (map (topic_record p pr)
                   (filter (\<lambda>t. scope_matches (opt_unwrap_or (tv_scope t) default_scope) scope) (ce_topics e)) @ topics,
                 map (subscription_record p pr)
                   (filter (\<lambda>s. scope_matches (opt_unwrap_or (sv_scope s) default_scope) scope)
                      (ce_subscriptions e)) @ subs))))"

definition topic_rank :: "capability_topic_record \<Rightarrow> int \<times> string \<times> string \<times> string" where
  "topic_rank t = (ct_priority t, ct_topic t, ct_event_type t, ct_pack_id t)"

definition subscription_rank :: "capability_subscription_record \<Rightarrow> int \<times> string \<times> string \<times> string" where
  "subscription_rank s = (cs_priority s, cs_topic s, cs_subscription_id s, cs_pack_id s)"

definition collect_event_bindings_for_packs ::
  "(path \<Rightarrow> (capability_error, capabilities_extension option) result) \<Rightarrow> pack_index \<Rightarrow> resolve_scope
     \<Rightarrow> (capability_error, capability_topic_record list \<times> capability_subscription_record list) result" where
  "collect_event_bindings_for_packs read_ext idx scope =
     rbind (gather_bindings read_ext scope idx) (\<lambda>(topics, subs).
       Inr (sort_key topic_rank topics, sort_key subscription_rank subs))"

section \<open>Install records\<close>

record capability_install_record =
  in_cap_id :: string
  in_stable_id :: string
  in_pack_id :: string
  in_status :: string
  in_config_state_keys :: "string list"
  in_timestamp :: nat

definition install_ready :: "nat \<Rightarrow> string \<Rightarrow> string \<Rightarrow> string \<Rightarrow> capability_install_record" where
  "install_ready now cap_id stable_id pack_id =
     \<lparr>in_cap_id = cap_id, in_stable_id = stable_id, in_pack_id = pack_id, in_status = ''ready'',
      in_config_state_keys = [], in_timestamp = now\<rparr>"

definition install_failed :: "nat \<Rightarrow> string \<Rightarrow> string \<Rightarrow> string \<Rightarrow> string \<Rightarrow> capability_install_record" where
  "install_failed now cap_id stable_id pack_id key =
     \<lparr>in_cap_id = cap_id, in_stable_id = stable_id, in_pack_id = pack_id, in_status = ''failed'',
      in_config_state_keys = [key], in_timestamp = now\<rparr>"

definition install_record_path :: "path \<Rightarrow> string \<Rightarrow> string option \<Rightarrow> string \<Rightarrow> path" where
  "install_record_path root tenant team stable_id =
     path_join (path_join (path_join (path_join (path_join (path_join root ''state'') ''runtime'') tenant)
       (opt_unwrap_or team ''default'')) ''capabilities'') (stable_id @ ''.install.json'')"

text \<open>
  The install records on disk: a file holds a decoded record or the error of reading or decoding it.
  A write is done, is refused before the file is opened, or stops after the file was emptied; then what is
  left does not decode.
\<close>

type_synonym install_store = "string list \<Rightarrow> (string, capability_install_record) result option"

datatype write_outcome = WriteDone | WriteRefused string | WriteTorn string string

definition write_install_record ::
  "(path \<Rightarrow> write_outcome) \<Rightarrow> path \<Rightarrow> string \<Rightarrow> string option \<Rightarrow> capability_install_record \<Rightarrow> install_store
     \<Rightarrow> (string, path) result \<times> install_store" where
  "write_install_record outcome root tenant team rec fs =
     (let p = install_record_path root tenant team (in_stable_id rec) in
      case outcome p of
        WriteDone \<Rightarrow> (Inr p, fs(resolve_path p \<mapsto> Inr rec))
      | WriteRefused e \<Rightarrow> (Inl e, fs)
      | WriteTorn e left \<Rightarrow> (Inl e, fs(resolve_path p \<mapsto> Inl left)))"

definition read_install_record ::
  "path \<Rightarrow> string \<Rightarrow> string option \<Rightarrow> string \<Rightarrow> install_store \<Rightarrow> (string, capability_install_record option) result" where
  "read_install_record root tenant team stable_id fs =
     (case fs (resolve_path (install_record_path root tenant team stable_id)) of
        None \<Rightarrow> Inr None
      | Some content \<Rightarrow> rbind content (\<lambda>rec. Inr (Some rec)))"

definition is_binding_ready ::
  "path \<Rightarrow> string \<Rightarrow> string option \<Rightarrow> capability_binding \<Rightarrow> install_store \<Rightarrow> (string, bool) result" where
  "is_binding_ready root tenant team b fs =
     (if \<not> cb_requires_setup b then Inr True
      else rbind (read_install_record root tenant team (cb_stable_id b) fs) (\<lambda>found.
             case found of
               None \<Rightarrow> Inr False
             | Some rec \<Rightarrow> Inr (eq_ignore_ascii_case (in_status rec) ''ready'')))"

section \<open>Registry lemmas\<close>

text \<open>The offers of all packs, in index order.\<close>

definition declared_offers ::
  "(path \<Rightarrow> (capability_error, capabilities_extension option) result) \<Rightarrow> pack_index \<Rightarrow> capability_offer_record list" where
  "declared_offers read_ext idx =
     concat (map (\<lambda>(p, pr). case read_ext p of Inr (Some e) \<Rightarrow> pack_offer_records p pr e | _ \<Rightarrow> []) idx)"

lemma collect_offers_spec:
  "bt_wf m \<Longrightarrow> collect_offers read_ext idx m = Inr m' \<Longrightarrow>
     bt_wf m' \<and> opt_unwrap_or (bt_get m' k) [] = opt_unwrap_or (bt_get m k) []
        @ filter (\<lambda>r. co_cap_id r = k) (declared_offers read_ext idx)"
proof (induction read_ext idx m rule: collect_offers.induct)
  case (1 read_ext m)
  then show ?case by (simp add: declared_offers_def)
next
  case (2 read_ext p pr rest m)
  obtain ext where ext: "read_ext p = Inr ext" using "2.prems"(2) by (auto simp: result_iff)
  show ?case
  proof (cases ext)
    case None
    then show ?thesis using 2 ext by (simp add: declared_offers_def)
  next
    case (Some e)
    let ?m = "fold (\<lambda>r. bt_push (co_cap_id r) r) (pack_offer_records p pr e) m"
    have wf: "bt_wf ?m" using bt_wf_fold_push [OF "2.prems"(1), of co_cap_id "\<lambda>r. r"] by simp
    have "collect_offers read_ext rest ?m = Inr m'" using "2.prems"(2) ext Some by simp
    from "2.IH"(2) [OF wf this]
    show ?thesis
      using bt_get_fold_push [OF "2.prems"(1), of co_cap_id "\<lambda>r. r" "pack_offer_records p pr e" k] ext Some
      by (simp add: declared_offers_def)
  qed
qed

lemma bt_get_map_values: "bt_get (map (\<lambda>(k, v). (k, f v)) m) k = map_option f (bt_get m k)"
  by (simp add: bt_get_def map_of_map)

lemma build_spec:
  assumes "build_from_pack_index read_ext idx = Inr reg"
  shows "offers_for_capability reg k =
    sort_key cap_rank (filter (\<lambda>r. co_cap_id r = k) (declared_offers read_ext idx))"
proof -
  obtain m where m: "collect_offers read_ext idx [] = Inr m" "reg = map (\<lambda>(k, v). (k, sort_key cap_rank v)) m"
    using assms by (auto simp: build_from_pack_index_def result_iff)
  have "opt_unwrap_or (bt_get m k) [] = filter (\<lambda>r. co_cap_id r = k) (declared_offers read_ext idx)"
    using collect_offers_spec [of "[]" read_ext idx m k] m(1) by (simp add: bt.get_empty)
  then show ?thesis
    unfolding offers_for_capability_def m(2) bt_get_map_values by (cases "bt_get m k") auto
qed

lemma resolve_find:
  "resolve_for_op reg cap_id v scope op =
     map_option binding_of (List.find (\<lambda>r. version_matches (co_version r) v
       \<and> scope_matches (co_scope r) scope \<and> op_matches r op) (offers_for_capability reg cap_id))"
  by (cases "bt_get reg cap_id") (simp_all add: resolve_for_op_def offers_for_capability_def)

text \<open>An offer that serves a request.\<close>

definition serves_request ::
  "string \<Rightarrow> string option \<Rightarrow> resolve_scope \<Rightarrow> string option \<Rightarrow> capability_offer_record \<Rightarrow> bool" where
  "serves_request cap_id v scope op r \<longleftrightarrow>
     co_cap_id r = cap_id \<and> version_matches (co_version r) v \<and> scope_matches (co_scope r) scope \<and> op_matches r op"

lemma resolve_least:
  assumes "build_from_pack_index read_ext idx = Inr reg"
  shows "case resolve_for_op reg cap_id v scope op of
      None \<Rightarrow> \<forall>r \<in> set (declared_offers read_ext idx). \<not> serves_request cap_id v scope op r
    | Some b \<Rightarrow> \<exists>r \<in> set (declared_offers read_ext idx). b = binding_of r \<and> serves_request cap_id v scope op r
        \<and> (\<forall>r' \<in> set (declared_offers read_ext idx). serves_request cap_id v scope op r' \<longrightarrow> cap_rank r \<le> cap_rank r')"
proof -
  let ?ok = "\<lambda>r. version_matches (co_version r) v \<and> scope_matches (co_scope r) scope \<and> op_matches r op"
  let ?os = "offers_for_capability reg cap_id"
  have set: "set ?os = {r \<in> set (declared_offers read_ext idx). co_cap_id r = cap_id}"
    unfolding build_spec [OF assms] by simp
  have sorted: "sorted (map cap_rank ?os)" unfolding build_spec [OF assms] by simp
  show ?thesis
  proof (cases "List.find ?ok ?os")
    case None
    then have "\<forall>r \<in> set ?os. \<not> ?ok r" by (auto simp: find_None_iff)
    then show ?thesis using None by (auto simp: resolve_find serves_request_def set)
  next
    case (Some r)
    have "cap_rank r \<le> cap_rank r'" if "r' \<in> set (declared_offers read_ext idx)" "serves_request cap_id v scope op r'" for r'
      by (rule find_sorted_least [OF sorted Some]) (use that in \<open>auto simp: set serves_request_def\<close>)
    moreover have "r \<in> set (declared_offers read_ext idx)" "serves_request cap_id v scope op r"
      using find_Some_in [OF Some] by (auto simp: set serves_request_def)
    ultimately show ?thesis using Some by (auto simp: resolve_find)
  qed
qed

section \<open>Install records as a store\<close>

text \<open>A key below a bundle root: tenant, team directory and stable id.\<close>

definition install_file :: "path \<Rightarrow> string \<times> string \<times> string \<Rightarrow> string list" where
  "install_file root k = (case k of (tenant, team, sid) \<Rightarrow> resolve_path (install_record_path root tenant (Some team) sid))"

definition install_key_valid :: "string \<times> string \<times> string \<Rightarrow> bool" where
  "install_key_valid k = (case k of (tenant, team, sid) \<Rightarrow> plain_name tenant \<and> plain_name team \<and> CHR ''/'' \<notin> set sid)"

lemma install_file_names:
  assumes "install_key_valid (tenant, team, sid)"
  shows "install_file root (tenant, team, sid)
     = resolve_path root @ [''state'', ''runtime'', tenant, team, ''capabilities'', sid @ ''.install.json'']"
proof -
  have "plain_name tenant" "plain_name team" "plain_name (sid @ ''.install.json'')"
    "plain_name ''state''" "plain_name ''runtime''" "plain_name ''capabilities''"
    using assms suffixed_name [of sid "''.install.json''"]
    by (simp_all add: install_key_valid_def plain_name_def plain_segment_def)
  then show ?thesis by (simp add: install_file_def install_record_path_def resolve_snoc)
qed

interpretation installs: record_store "install_file root" install_key_valid for root
proof
  fix k k'
  show "k = k'" if "install_key_valid k" "install_key_valid k'" "install_file root k = install_file root k'"
    using that by (cases k; cases k') (auto simp: install_file_names)
qed

lemma install_path_file:
  "resolve_path (install_record_path root tenant team sid) = install_file root (tenant, opt_unwrap_or team ''default'', sid)"
  by (cases team) (simp_all add: install_file_def install_record_path_def)

lemma read_after_install:
  assumes "write_install_record outcome root tenant team rec fs = (Inr p, fs')"
    and "install_key_valid (tenant, opt_unwrap_or team ''default'', in_stable_id rec)"
    "install_key_valid (tenant', opt_unwrap_or team' ''default'', sid')"
  shows "read_install_record root tenant' team' sid' fs' =
    (if (tenant', opt_unwrap_or team' ''default'', sid') = (tenant, opt_unwrap_or team ''default'', in_stable_id rec)
     then Inr (Some rec) else read_install_record root tenant' team' sid' fs)"
proof -
  have "fs' = fs(install_file root (tenant, opt_unwrap_or team ''default'', in_stable_id rec) \<mapsto> Inr rec)"
    using assms(1) by (auto simp: write_install_record_def install_path_file Let_def split: write_outcome.splits)
  then show ?thesis
    using installs.read_after_write [OF assms(2,3), of fs root] by (auto simp: read_install_record_def install_path_file)
qed

lemma failed_install_write:
  assumes "write_install_record outcome root tenant team rec fs = (Inl e, fs')"
    and "install_key_valid (tenant, opt_unwrap_or team ''default'', in_stable_id rec)"
    "install_key_valid (tenant', opt_unwrap_or team' ''default'', sid')"
  shows "read_install_record root tenant' team' sid' fs' = read_install_record root tenant' team' sid' fs
     \<or> (tenant', opt_unwrap_or team' ''default'', sid') = (tenant, opt_unwrap_or team ''default'', in_stable_id rec)
       \<and> isl (read_install_record root tenant' team' sid' fs')"
proof -
  obtain left where "fs' = fs \<or> fs' = fs(install_file root (tenant, opt_unwrap_or team ''default'', in_stable_id rec) \<mapsto> Inl left)"
    using assms(1) by (auto simp: write_install_record_def install_path_file Let_def split: write_outcome.splits)
  then show ?thesis
  proof
    assume "fs' = fs"
    then show ?thesis by simp
  next
    assume f: "fs' = fs(install_file root (tenant, opt_unwrap_or team ''default'', in_stable_id rec) \<mapsto> Inl left)"
    show ?thesis
      using installs.read_after_write [OF assms(2,3), of fs root "Inl left"]
      unfolding f read_install_record_def install_path_file by (simp split: if_splits)
  qed
qed

section \<open>Properties\<close>

definition sample_cap_offer :: "string \<Rightarrow> string \<Rightarrow> int \<Rightarrow> string list \<Rightarrow> capability_offer_v1" where
  "sample_cap_offer i v prio tenants =
     \<lparr>cv_offer_id = Some i, cv_cap_id = ''greentic.cap.op_hook.pre'', cv_version = v,
      cv_provider = \<lparr>cp_component_ref = ''comp'', cp_op = ''run''\<rparr>,
      cv_scope = Some \<lparr>sc_envs = [], sc_tenants = tenants, sc_teams = []\<rparr>, cv_priority = prio,
      cv_requires_setup = True, cv_setup = None, cv_applies_to = None, cv_operation_id = None,
      cv_input_schema_ref = None, cv_output_schema_ref = None, cv_adapter_kind = None\<rparr>"

definition sample_ext :: "path \<Rightarrow> (capability_error, capabilities_extension option) result" where
  "sample_ext p =
     (if p = ''a.gtpack''
      then Inr (Some \<lparr>ce_schema_version = 1, ce_offers = [sample_cap_offer ''a1'' ''v1'' 5 [], sample_cap_offer ''a2'' ''v1'' 1 [''acme'']],
                      ce_topics = [], ce_subscriptions = []\<rparr>)
      else Inr (Some \<lparr>ce_schema_version = 1, ce_offers = [sample_cap_offer ''b1'' ''v1'' 3 []],
                      ce_topics = [], ce_subscriptions = []\<rparr>))"

definition sample_index :: pack_index where
  "sample_index = [(''a.gtpack'', \<lparr>cpr_pack_id = ''a'', cpr_domain = Messaging\<rparr>),
                   (''b.gtpack'', \<lparr>cpr_pack_id = ''b'', cpr_domain = Events\<rparr>)]"

definition sample_caps :: capability_registry where
  "sample_caps = opt_unwrap_or (ok_opt (build_from_pack_index sample_ext sample_index)) []"

lemma sample_caps_build: "build_from_pack_index sample_ext sample_index = Inr sample_caps"
  by code_simp

definition tenant_scope :: "string \<Rightarrow> resolve_scope" where
  "tenant_scope t = \<lparr>rs_env = None, rs_tenant = Some t, rs_team = None\<rparr>"

text \<open>
  C4: resolution is exact. When it answers, the binding is that of a declared offer of the
  capability whose version, scope and operations fit, and no fitting offer has a smaller
  priority (or an equal priority and a smaller stable id); when it does not, no declared offer fits.
\<close>

theorem resolve_minimal:
  assumes "build_from_pack_index read_ext idx = Inr reg"
  shows "case resolve_for_op reg cap_id v scope op of
      None \<Rightarrow> \<forall>r \<in> set (declared_offers read_ext idx). \<not> serves_request cap_id v scope op r
    | Some b \<Rightarrow> \<exists>r \<in> set (declared_offers read_ext idx). b = binding_of r \<and> serves_request cap_id v scope op r
        \<and> (\<forall>r' \<in> set (declared_offers read_ext idx). serves_request cap_id v scope op r' \<longrightarrow> cap_rank r \<le> cap_rank r')"
  by (rule resolve_least [OF assms])

theorem resolve_minimal_witness:
  "map_option cb_stable_id (resolve_for_op sample_caps ''greentic.cap.op_hook.pre'' None (tenant_scope ''other'') None) = Some ''b1''
   \<and> \<not> serves_request ''greentic.cap.op_hook.pre'' (Some ''v2'') (tenant_scope ''acme'') None
         (hd (declared_offers sample_ext sample_index))"
proof
  show "map_option cb_stable_id (resolve_for_op sample_caps ''greentic.cap.op_hook.pre'' None (tenant_scope ''other'') None) = Some ''b1''"
    by code_simp
  have "resolve_for_op sample_caps ''greentic.cap.op_hook.pre'' (Some ''v2'') (tenant_scope ''acme'') None = None"
    by code_simp
  then have "\<forall>r \<in> set (declared_offers sample_ext sample_index).
        \<not> serves_request ''greentic.cap.op_hook.pre'' (Some ''v2'') (tenant_scope ''acme'') None r"
    using resolve_minimal [OF sample_caps_build, of "''greentic.cap.op_hook.pre''" "Some ''v2''"
        "tenant_scope ''acme''" None] by simp
  moreover have "declared_offers sample_ext sample_index \<noteq> []" by code_simp
  ultimately show "\<not> serves_request ''greentic.cap.op_hook.pre'' (Some ''v2'') (tenant_scope ''acme'') None
         (hd (declared_offers sample_ext sample_index))" by simp
qed

text \<open>
  C23: the registry refines its specification: the offers of a capability are the declared
  ones, sorted by priority and stable id (declaration order among equals), and the hook chain
  of an operation is the sublist of the stage's offers that apply to it, in that order.
\<close>

theorem registry_refines:
  assumes "build_from_pack_index read_ext idx = Inr reg"
  shows "offers_for_capability reg cap_id
       = sort_key cap_rank (filter (\<lambda>r. co_cap_id r = cap_id) (declared_offers read_ext idx))
     \<and> resolve_hook_chain reg stage op_name
       = map binding_of (sort_key cap_rank (filter (\<lambda>r. co_cap_id r = phase_cap_id stage
           \<and> (co_applies_to_ops r = [] \<or> op_name \<in> set (co_applies_to_ops r))) (declared_offers read_ext idx)))"
proof
  show "offers_for_capability reg cap_id
       = sort_key cap_rank (filter (\<lambda>r. co_cap_id r = cap_id) (declared_offers read_ext idx))"
    by (rule build_spec [OF assms])
  let ?ap = "\<lambda>r. co_applies_to_ops r = [] \<or> op_name \<in> set (co_applies_to_ops r)"
  have "resolve_hook_chain reg stage op_name
      = map binding_of (filter ?ap (offers_for_capability reg (phase_cap_id stage)))"
    by (simp add: resolve_hook_chain_def offers_for_capability_def split: option.split)
  also have "filter ?ap (offers_for_capability reg (phase_cap_id stage))
      = sort_key cap_rank (filter ?ap (filter (\<lambda>r. co_cap_id r = phase_cap_id stage) (declared_offers read_ext idx)))"
    unfolding build_spec [OF assms] by (rule filter_sort)
  finally show "resolve_hook_chain reg stage op_name
       = map binding_of (sort_key cap_rank (filter (\<lambda>r. co_cap_id r = phase_cap_id stage
           \<and> ?ap r) (declared_offers read_ext idx)))"
    by (simp add: conj_commute)
qed

theorem registry_refines_witness:
  "map co_stable_id (sort_key cap_rank (filter (\<lambda>r. co_cap_id r = ''greentic.cap.op_hook.pre'')
      (declared_offers sample_ext sample_index))) = [''a2'', ''b1'', ''a1'']"
proof -
  have "map co_stable_id (offers_for_capability sample_caps ''greentic.cap.op_hook.pre'') = [''a2'', ''b1'', ''a1'']"
    by code_simp
  then show ?thesis
    using registry_refines [OF sample_caps_build, of "''greentic.cap.op_hook.pre''"] by simp
qed

text \<open>
  C24: writing an install record decides the readiness of the bindings with its stable id, tenant and
  team directory, and of no other binding. After a write that succeeds they are ready exactly if the
  status of the record says so. After a write that fails they are as before, or the check fails
  because what was left of the file does not decode. Names are those of single directory entries; files are
  told apart by what their paths resolve to. (No team and the team \<open>default\<close> share a directory.)
\<close>

theorem install_record_readiness:
  assumes "write_install_record outcome root tenant team rec fs = (r, fs')"
    and "install_key_valid (tenant, opt_unwrap_or team ''default'', in_stable_id rec)"
    and "install_key_valid (tenant', opt_unwrap_or team' ''default'', cb_stable_id b)"
  shows "if cb_requires_setup b \<and> cb_stable_id b = in_stable_id rec \<and> tenant' = tenant
         \<and> opt_unwrap_or team' ''default'' = opt_unwrap_or team ''default''
     then (case r of
        Inr p \<Rightarrow> is_binding_ready root tenant' team' b fs' = Inr (eq_ignore_ascii_case (in_status rec) ''ready'')
      | Inl e \<Rightarrow> is_binding_ready root tenant' team' b fs' = is_binding_ready root tenant' team' b fs
          \<or> isl (is_binding_ready root tenant' team' b fs'))
     else is_binding_ready root tenant' team' b fs' = is_binding_ready root tenant' team' b fs"
proof (cases r)
  case (Inr p)
  show ?thesis using read_after_install [OF assms(1) [unfolded Inr] assms(2,3)] Inr by (auto simp: is_binding_ready_def)
next
  case (Inl e)
  show ?thesis
    using failed_install_write [OF assms(1) [unfolded Inl] assms(2,3)] Inl
    by (auto simp: is_binding_ready_def isl_def)
qed

definition sample_binding :: "string \<Rightarrow> capability_binding" where
  "sample_binding sid = \<lparr>cb_cap_id = ''cap'', cb_stable_id = sid, cb_pack_id = ''p'', cb_domain = Messaging,
     cb_pack_path = ''p.gtpack'', cb_provider_component_ref = ''c'', cb_provider_op = ''o'', cb_version = ''1'',
     cb_requires_setup = True, cb_setup_qa_ref = None\<rparr>"

theorem install_record_readiness_witness:
  "is_binding_ready ''b'' ''acme'' None (sample_binding ''x'')
     (snd (write_install_record (\<lambda>_. WriteDone) ''b'' ''acme'' (Some ''default'') (install_ready 7 ''cap'' ''x'' ''p'') (\<lambda>_. None))) = Inr True
   \<and> is_binding_ready ''b'' ''acme'' None (sample_binding ''y'')
     (snd (write_install_record (\<lambda>_. WriteDone) ''b'' ''acme'' (Some ''default'') (install_ready 7 ''cap'' ''x'' ''p'') (\<lambda>_. None))) = Inr False"
proof -
  have v: "install_key_valid (''acme'', opt_unwrap_or (Some ''default'') ''default'', in_stable_id (install_ready 7 ''cap'' ''x'' ''p''))"
    "install_key_valid (''acme'', opt_unwrap_or None ''default'', cb_stable_id (sample_binding ''x''))"
    "install_key_valid (''acme'', opt_unwrap_or None ''default'', cb_stable_id (sample_binding ''y''))"
    by code_simp+
  obtain p fs' where run: "write_install_record (\<lambda>_. WriteDone) ''b'' ''acme'' (Some ''default'') (install_ready 7 ''cap'' ''x'' ''p'') (\<lambda>_. None)
      = (Inr p, fs')" by (simp add: write_install_record_def Let_def)
  show ?thesis
    using install_record_readiness [OF run v(1,2)] install_record_readiness [OF run v(1,3)] run
    by (simp add: sample_binding_def install_ready_def is_binding_ready_def read_install_record_def eq_ignore_ascii_case_def)
qed

end
