(* ===== verification/CapEvents.thy ===== *)
theory CapEvents
  imports Capabilities
begin

text \<open>
  Capability events (\<open>src/capability_events.rs\<close>) and the catalogue artifacts they run on
  (\<open>src/capability_runtime.rs\<close>): publishing an event to the subscriptions of its topic, with
  retries, a delivery record per subscription and a dead letter per failure, and replay. The
  JSON-lines files are lists per path; invoking a capability, the schema validator, UUIDs,
  the clock and whether an append succeeds are parameters (\<open>event_env\<close>) over a world \<open>'w\<close>.
\<close>

section \<open>Catalogue artifacts\<close>

datatype adapter_kind = DirectComponent | HttpCompatibility

record resolved_scope_record =
  rsc_env :: "string option"
  rsc_tenant :: "string option"
  rsc_team :: "string option"

record resolved_callable =
  rc_capability_id :: string
  rc_operation_id :: "string option"
  rc_stable_id :: string
  rc_pack_id :: string
  rc_domain :: string
  rc_pack_path :: string
  rc_provider_component_ref :: string
  rc_provider_op :: string
  rc_input_schema_ref :: "string option"
  rc_output_schema_ref :: "string option"
  rc_version :: string
  rc_requires_setup :: bool
  rc_setup_qa_ref :: "string option"
  rc_adapter_kind :: adapter_kind
  rc_scope :: resolved_scope_record

record resolved_topic =
  rt_topic :: string
  rt_event_type :: string
  rt_pack_id :: string
  rt_domain :: string
  rt_pack_path :: string
  rt_publisher_component_ref :: string
  rt_publisher_op :: string
  rt_payload_schema_ref :: "string option"
  rt_adapter_kind :: adapter_kind
  rt_priority :: int
  rt_scope :: resolved_scope_record

record resolved_subscription =
  rb_subscription_id :: string
  rb_topic :: string
  rb_event_type :: string
  rb_pack_id :: string
  rb_domain :: string
  rb_pack_path :: string
  rb_capability_id :: string
  rb_op :: string
  rb_payload_schema_ref :: "string option"
  rb_filter_json_pointer :: "string option"
  rb_filter_equals :: "string option"
  rb_delivery_mode :: string
  rb_max_attempts :: nat
  rb_priority :: int
  rb_scope :: resolved_scope_record

record catalog_artifacts =
  ca_callables :: "resolved_callable list"
  ca_subscriptions :: "resolved_subscription list"
  ca_topics :: "resolved_topic list"

definition adapter_kind_of :: "string option \<Rightarrow> adapter_kind" where
  "adapter_kind_of raw = (if raw = Some ''http_compatibility'' then HttpCompatibility else DirectComponent)"

definition artifact_scope :: "operator_context \<Rightarrow> resolve_scope \<Rightarrow> resolved_scope_record" where
  "artifact_scope ctx scope =
     \<lparr>rsc_env = rs_env scope, rsc_tenant = Some (oc_tenant ctx), rsc_team = oc_team ctx\<rparr>"

definition resolved_callable_of ::
  "operator_context \<Rightarrow> resolve_scope \<Rightarrow> capability_offer_record \<Rightarrow> resolved_callable" where
  "resolved_callable_of ctx scope r =
     \<lparr>rc_capability_id = co_cap_id r, rc_operation_id = co_operation_id r, rc_stable_id = co_stable_id r,
      rc_pack_id = co_pack_id r, rc_domain = domain_name (co_domain r), rc_pack_path = co_pack_path r,
      rc_provider_component_ref = co_provider_component_ref r, rc_provider_op = co_provider_op r,
      rc_input_schema_ref = co_input_schema_ref r, rc_output_schema_ref = co_output_schema_ref r,
      rc_version = co_version r, rc_requires_setup = co_requires_setup r, rc_setup_qa_ref = co_setup_qa_ref r,
      rc_adapter_kind = adapter_kind_of (co_adapter_kind r), rc_scope = artifact_scope ctx scope\<rparr>"

definition resolved_topic_of :: "operator_context \<Rightarrow> resolve_scope \<Rightarrow> capability_topic_record \<Rightarrow> resolved_topic" where
  "resolved_topic_of ctx scope t =
     \<lparr>rt_topic = ct_topic t, rt_event_type = ct_event_type t, rt_pack_id = ct_pack_id t,
      rt_domain = domain_name (ct_domain t), rt_pack_path = ct_pack_path t,
      rt_publisher_component_ref = ct_publisher_component_ref t, rt_publisher_op = ct_publisher_op t,
      rt_payload_schema_ref = ct_payload_schema_ref t, rt_adapter_kind = adapter_kind_of (ct_adapter_kind t),
      rt_priority = ct_priority t, rt_scope = artifact_scope ctx scope\<rparr>"

definition resolved_subscription_of ::
  "operator_context \<Rightarrow> resolve_scope \<Rightarrow> capability_subscription_record \<Rightarrow> resolved_subscription" where
  "resolved_subscription_of ctx scope s =
     \<lparr>rb_subscription_id = cs_subscription_id s, rb_topic = cs_topic s, rb_event_type = cs_event_type s,
      rb_pack_id = cs_pack_id s, rb_domain = domain_name (cs_domain s), rb_pack_path = cs_pack_path s,
      rb_capability_id = cs_capability_id s, rb_op = cs_op s, rb_payload_schema_ref = cs_payload_schema_ref s,
      rb_filter_json_pointer = cs_filter_json_pointer s, rb_filter_equals = cs_filter_equals s,
      rb_delivery_mode = cs_delivery_mode s, rb_max_attempts = cs_max_attempts s, rb_priority = cs_priority s,
      rb_scope = artifact_scope ctx scope\<rparr>"

definition build_catalog_artifacts ::
  "capability_offer_record list \<Rightarrow> capability_topic_record list \<Rightarrow> capability_subscription_record list
     \<Rightarrow> operator_context \<Rightarrow> resolve_scope \<Rightarrow> catalog_artifacts" where
  "build_catalog_artifacts offers topics subs ctx scope =
     \<lparr>ca_callables = map (resolved_callable_of ctx scope) offers,
      ca_subscriptions = map (resolved_subscription_of ctx scope) subs,
      ca_topics = map (resolved_topic_of ctx scope) topics\<rparr>"

section \<open>Events and their logs\<close>

record event_envelope =
  en_event_id :: string
  en_topic :: string
  en_event_type :: string
  en_payload :: json
  en_correlation_id :: "string option"
  en_source :: "string option"
  en_published_at :: nat

record publish_request =
  pq_topic :: string
  pq_event_type :: "string option"
  pq_payload :: json
  pq_correlation_id :: "string option"
  pq_source :: "string option"

record delivery_record =
  dl_delivery_id :: string
  dl_event_id :: string
  dl_subscription_id :: string
  dl_capability_id :: string
  dl_op :: string
  dl_status :: string
  dl_attempts :: nat
  dl_error :: "string option"
  dl_delivered_at :: nat

record dead_letter =
  dd_delivery_id :: string
  dd_event :: event_envelope
  dd_subscription_id :: string
  dd_capability_id :: string
  dd_op :: string
  dd_attempts :: nat
  dd_error :: string
  dd_failed_at :: nat

record publish_report =
  pr_matched :: nat
  pr_ok :: nat
  pr_failed :: nat

datatype event_error =
    TopicUndefined string
  | TopicPayloadInvalid string string
  | SubscriptionPayloadInvalid string string
  | CapabilityInvokeError string
  | LogWriteFailed path
  | DeadLetterNotFound string
  | EventNotFound string
  | NothingToReplay

record 'w event_env =
  ee_invoke :: "string \<Rightarrow> string \<Rightarrow> bytes \<Rightarrow> operator_context \<Rightarrow> 'w \<Rightarrow> (string, op_outcome) result \<times> 'w"
  ee_uuid :: "'w \<Rightarrow> string \<times> 'w"
  ee_now :: "'w \<Rightarrow> nat \<times> 'w"
  ee_validate :: "path \<Rightarrow> string \<Rightarrow> json \<Rightarrow> (string, unit) result"
  ee_append_ok :: "path \<Rightarrow> 'w \<Rightarrow> bool"
  ee_json_vec :: "json \<Rightarrow> bytes"

record 'w event_state =
  es_events :: "path \<Rightarrow> event_envelope list"
  es_deliveries :: "path \<Rightarrow> delivery_record list"
  es_dlq :: "path \<Rightarrow> dead_letter list"
  es_world :: 'w

definition capability_state_dir :: "path \<Rightarrow> string \<Rightarrow> string option \<Rightarrow> path" where
  "capability_state_dir root tenant team =
     path_join (path_join (path_join (path_join root ''state'') ''capabilities'') tenant)
       (opt_unwrap_or team ''default'')"

definition capability_state_path :: "path \<Rightarrow> string \<Rightarrow> string option \<Rightarrow> string \<Rightarrow> path" where
  "capability_state_path root tenant team name = path_join (capability_state_dir root tenant team) name"

definition events_path :: "path \<Rightarrow> operator_context \<Rightarrow> path" where
  "events_path root ctx = capability_state_path root (oc_tenant ctx) (oc_team ctx) ''events.jsonl''"

definition deliveries_path :: "path \<Rightarrow> operator_context \<Rightarrow> path" where
  "deliveries_path root ctx = capability_state_path root (oc_tenant ctx) (oc_team ctx) ''deliveries.jsonl''"

definition dlq_path :: "path \<Rightarrow> operator_context \<Rightarrow> path" where
  "dlq_path root ctx = capability_state_path root (oc_tenant ctx) (oc_team ctx) ''dlq.jsonl''"

definition append_event ::
  "'w event_env \<Rightarrow> path \<Rightarrow> event_envelope \<Rightarrow> 'w event_state \<Rightarrow> (event_error, unit) result \<times> 'w event_state" where
  "append_event env p x st =
     (if ee_append_ok env p (es_world st)
      then (Inr (), st\<lparr>es_events := (es_events st)(p := es_events st p @ [x])\<rparr>)
      else (Inl (LogWriteFailed p), st))"

definition append_delivery ::
  "'w event_env \<Rightarrow> path \<Rightarrow> delivery_record \<Rightarrow> 'w event_state \<Rightarrow> (event_error, unit) result \<times> 'w event_state" where
  "append_delivery env p x st =
     (if ee_append_ok env p (es_world st)
      then (Inr (), st\<lparr>es_deliveries := (es_deliveries st)(p := es_deliveries st p @ [x])\<rparr>)
      else (Inl (LogWriteFailed p), st))"

definition append_dead_letter ::
  "'w event_env \<Rightarrow> path \<Rightarrow> dead_letter \<Rightarrow> 'w event_state \<Rightarrow> (event_error, unit) result \<times> 'w event_state" where
  "append_dead_letter env p x st =
     (if ee_append_ok env p (es_world st)
      then (Inr (), st\<lparr>es_dlq := (es_dlq st)(p := es_dlq st p @ [x])\<rparr>)
      else (Inl (LogWriteFailed p), st))"

definition fresh_uuid :: "'w event_env \<Rightarrow> 'w event_state \<Rightarrow> string \<times> 'w event_state" where
  "fresh_uuid env st = (case ee_uuid env (es_world st) of (u, w) \<Rightarrow> (u, st\<lparr>es_world := w\<rparr>))"

definition now_ms :: "'w event_env \<Rightarrow> 'w event_state \<Rightarrow> nat \<times> 'w event_state" where
  "now_ms env st = (case ee_now env (es_world st) of (t, w) \<Rightarrow> (t, st\<lparr>es_world := w\<rparr>))"

section \<open>Publishing\<close>

definition matches_filter :: "resolved_subscription \<Rightarrow> json \<Rightarrow> bool" where
  "matches_filter s payload =
     (case rb_filter_json_pointer s of
        None \<Rightarrow> True
      | Some pointer \<Rightarrow>
          (case rb_filter_equals s of
             None \<Rightarrow> True
           | Some expected \<Rightarrow>
               (case Option.bind (json_pointer payload pointer) as_str of
                  None \<Rightarrow> False
                | Some v \<Rightarrow> v = expected)))"

definition max_attempts_of :: "resolved_subscription \<Rightarrow> nat" where
  "max_attempts_of s = max (rb_max_attempts s) 1"

definition delivery_of ::
  "resolved_subscription \<Rightarrow> event_envelope \<Rightarrow> string \<Rightarrow> string \<Rightarrow> nat \<Rightarrow> string option \<Rightarrow> nat \<Rightarrow> delivery_record" where
  "delivery_of s evt did status attempts err t =
     \<lparr>dl_delivery_id = did, dl_event_id = en_event_id evt, dl_subscription_id = rb_subscription_id s,
      dl_capability_id = rb_capability_id s, dl_op = rb_op s, dl_status = status, dl_attempts = attempts,
      dl_error = err, dl_delivered_at = t\<rparr>"

text \<open>The retry loop. It answers the final error, \<open>None\<close> after a success (which it records).\<close>

function attempt_loop ::
  "'w event_env \<Rightarrow> path \<Rightarrow> operator_context \<Rightarrow> event_envelope \<Rightarrow> resolved_subscription \<Rightarrow> nat \<Rightarrow> string option
     \<Rightarrow> 'w event_state \<Rightarrow> publish_report \<Rightarrow> (event_error, string option \<times> publish_report) result \<times> 'w event_state" where
  "attempt_loop env root ctx evt s attempts final_error st rep =
     (if attempts < max_attempts_of s then
        (case ee_invoke env (rb_capability_id s) (rb_op s) (ee_json_vec env (en_payload evt)) ctx (es_world st) of
           (Inl e, w) \<Rightarrow> (Inl (CapabilityInvokeError e), st\<lparr>es_world := w\<rparr>)
         | (Inr out, w) \<Rightarrow>
             if oo_success out then
               (let (did, st1) = fresh_uuid env (st\<lparr>es_world := w\<rparr>);
                    (t, st2) = now_ms env st1
                in case append_delivery env (deliveries_path root ctx)
                          (delivery_of s evt did ''ok'' (attempts + 1) None t) st2 of
                     (Inl e, st3) \<Rightarrow> (Inl e, st3)
                   | (Inr _, st3) \<Rightarrow> (Inr (None, rep\<lparr>pr_ok := pr_ok rep + 1\<rparr>), st3))
             else
               attempt_loop env root ctx evt s (attempts + 1)
                 (Some (opt_unwrap_or (oo_error out) ''capability invocation failed''))
                 (st\<lparr>es_world := w\<rparr>) rep)
      else (Inr (final_error, rep), st))"
  by pat_completeness auto
termination
  by (relation "measure (\<lambda>(env, root, ctx, evt, s, attempts, err, st, rep). max_attempts_of s - attempts)") auto

declare attempt_loop.simps [simp del]

definition record_failure ::
  "'w event_env \<Rightarrow> path \<Rightarrow> operator_context \<Rightarrow> event_envelope \<Rightarrow> resolved_subscription \<Rightarrow> string
     \<Rightarrow> 'w event_state \<Rightarrow> publish_report \<Rightarrow> (event_error, publish_report) result \<times> 'w event_state" where
  "record_failure env root ctx evt s err st rep =
     (let (did, st1) = fresh_uuid env st; (t, st2) = now_ms env st1
      in case append_delivery env (deliveries_path root ctx)
                (delivery_of s evt did ''err'' (max_attempts_of s) (Some err) t) st2 of
           (Inl e, st3) \<Rightarrow> (Inl e, st3)
         | (Inr _, st3) \<Rightarrow>
             (let (t', st4) = now_ms env st3
              in case append_dead_letter env (dlq_path root ctx)
                        \<lparr>dd_delivery_id = did, dd_event = evt, dd_subscription_id = rb_subscription_id s,
                         dd_capability_id = rb_capability_id s, dd_op = rb_op s, dd_attempts = max_attempts_of s,
                         dd_error = err, dd_failed_at = t'\<rparr> st4 of
                   (Inl e, st5) \<Rightarrow> (Inl e, st5)
                 | (Inr _, st5) \<Rightarrow> (Inr (rep\<lparr>pr_failed := pr_failed rep + 1\<rparr>), st5)))"

fun deliver_all ::
  "'w event_env \<Rightarrow> path \<Rightarrow> operator_context \<Rightarrow> event_envelope \<Rightarrow> resolved_subscription list
     \<Rightarrow> 'w event_state \<Rightarrow> publish_report \<Rightarrow> (event_error, publish_report) result \<times> 'w event_state" where
  "deliver_all env root ctx evt [] st rep = (Inr rep, st)"
| "deliver_all env root ctx evt (s # ss) st rep =
     (case (case rb_payload_schema_ref s of None \<Rightarrow> Inr ()
            | Some ref \<Rightarrow> map_err (SubscriptionPayloadInvalid (rb_subscription_id s))
                            (ee_validate env (rb_pack_path s) ref (en_payload evt))) of
        Inl e \<Rightarrow> (Inl e, st)
      | Inr _ \<Rightarrow>
          (case attempt_loop env root ctx evt s 0 None st rep of
             (Inl e, st1) \<Rightarrow> (Inl e, st1)
           | (Inr (None, rep1), st1) \<Rightarrow> deliver_all env root ctx evt ss st1 rep1
           | (Inr (Some err, rep1), st1) \<Rightarrow>
               (case record_failure env root ctx evt s err st1 rep1 of
                  (Inl e, st2) \<Rightarrow> (Inl e, st2)
                | (Inr rep2, st2) \<Rightarrow> deliver_all env root ctx evt ss st2 rep2)))"

definition topic_selected :: "publish_request \<Rightarrow> resolved_topic \<Rightarrow> bool" where
  "topic_selected rq t \<longleftrightarrow> rt_topic t = pq_topic rq
     \<and> (case pq_event_type rq of None \<Rightarrow> True | Some v \<Rightarrow> v = rt_event_type t)"

definition matched_subscriptions ::
  "string option \<Rightarrow> event_envelope \<Rightarrow> resolved_subscription list \<Rightarrow> resolved_subscription list" where
  "matched_subscriptions only evt subs =
     filter (\<lambda>s. rb_topic s = en_topic evt \<and> rb_event_type s = en_event_type evt
       \<and> (case only of None \<Rightarrow> True | Some v \<Rightarrow> v = rb_subscription_id s)
       \<and> matches_filter s (en_payload evt)) subs"

definition select_topic ::
  "'w event_env \<Rightarrow> resolved_topic list \<Rightarrow> publish_request \<Rightarrow> (event_error, resolved_topic) result" where
  "select_topic env topics rq =
     rbind (ok_or (TopicUndefined (pq_topic rq)) (List.find (topic_selected rq) topics)) (\<lambda>t.
           (case rt_payload_schema_ref t of None \<Rightarrow> Inr t
            | Some ref \<Rightarrow> rbind (map_err (TopicPayloadInvalid (rt_topic t))
                            (ee_validate env (rt_pack_path t) ref (pq_payload rq))) (\<lambda>_. Inr t)))"

definition publish_event_internal ::
  "'w event_env \<Rightarrow> path \<Rightarrow> operator_context \<Rightarrow> resolved_topic list \<Rightarrow> resolved_subscription list \<Rightarrow> publish_request
     \<Rightarrow> string option \<Rightarrow> string option \<Rightarrow> 'w event_state \<Rightarrow> (event_error, publish_report) result \<times> 'w event_state" where
  "publish_event_internal env root ctx topics subs rq only replay_id st =
     (case select_topic env topics rq of
        Inl e \<Rightarrow> (Inl e, st)
      | Inr t \<Rightarrow>
          (let (eid, st1) = (case replay_id of Some v \<Rightarrow> (''replay-'' @ v, st) | None \<Rightarrow> fresh_uuid env st);
               (now, st2) = now_ms env st1;
               evt = \<lparr>en_event_id = eid, en_topic = rt_topic t, en_event_type = rt_event_type t,
                      en_payload = pq_payload rq, en_correlation_id = pq_correlation_id rq,
                      en_source = pq_source rq, en_published_at = now\<rparr>
           in case append_event env (events_path root ctx) evt st2 of
                (Inl e, st3) \<Rightarrow> (Inl e, st3)
              | (Inr _, st3) \<Rightarrow>
                  (let matched = matched_subscriptions only evt subs
                   in deliver_all env root ctx evt matched st3
                        \<lparr>pr_matched = length matched, pr_ok = 0, pr_failed = 0\<rparr>)))"

definition publish_event ::
  "'w event_env \<Rightarrow> path \<Rightarrow> operator_context \<Rightarrow> resolved_topic list \<Rightarrow> resolved_subscription list \<Rightarrow> publish_request
     \<Rightarrow> 'w event_state \<Rightarrow> (event_error, publish_report) result \<times> 'w event_state" where
  "publish_event env root ctx topics subs rq st =
     publish_event_internal env root ctx topics subs rq None None st"

definition request_of :: "event_envelope \<Rightarrow> publish_request" where
  "request_of e = \<lparr>pq_topic = en_topic e, pq_event_type = Some (en_event_type e), pq_payload = en_payload e,
     pq_correlation_id = en_correlation_id e, pq_source = en_source e\<rparr>"

definition replay_event ::
  "'w event_env \<Rightarrow> path \<Rightarrow> operator_context \<Rightarrow> resolved_topic list \<Rightarrow> resolved_subscription list
     \<Rightarrow> string option \<Rightarrow> string option \<Rightarrow> 'w event_state \<Rightarrow> (event_error, publish_report) result \<times> 'w event_state" where
  "replay_event env root ctx topics subs event_id delivery_id st =
     (case rbind (case delivery_id of
              None \<Rightarrow> Inr None
            | Some i \<Rightarrow> rbind (ok_or (DeadLetterNotFound i)
                (List.find (\<lambda>x. dd_delivery_id x = i) (es_dlq st (dlq_path root ctx)))) (\<lambda>x. Inr (Some x)))
          (\<lambda>delivery. rbind
             (case delivery of
                Some x \<Rightarrow> Inr (dd_event x)
              | None \<Rightarrow>
                  (case event_id of
                     Some i \<Rightarrow> ok_or (EventNotFound i)
                       (List.find (\<lambda>x. en_event_id x = i) (es_events st (events_path root ctx)))
                   | None \<Rightarrow> Inl NothingToReplay))
             (\<lambda>evt. Inr (delivery, evt))) of
        Inl e \<Rightarrow> (Inl e, st)
      | Inr (delivery, evt) \<Rightarrow>
          publish_event_internal env root ctx topics subs (request_of evt)
            (map_option dd_subscription_id delivery) (map_option dd_delivery_id delivery) st)"

section \<open>What a delivery leaves behind\<close>

text \<open>The deliveries file grew by a list of records; nothing else in the logs changed.\<close>

definition grew ::
  "path \<Rightarrow> operator_context \<Rightarrow> 'w event_state \<Rightarrow> 'w event_state \<Rightarrow> delivery_record list \<Rightarrow> dead_letter list \<Rightarrow> bool" where
  "grew root ctx st st' dels dead \<longleftrightarrow>
     es_events st' = es_events st
     \<and> es_deliveries st' = (es_deliveries st)(deliveries_path root ctx := es_deliveries st (deliveries_path root ctx) @ dels)
     \<and> es_dlq st' = (es_dlq st)(dlq_path root ctx := es_dlq st (dlq_path root ctx) @ dead)"

lemma grew_refl: "grew root ctx st st [] []"
  by (simp add: grew_def)

lemma grew_trans:
  "grew root ctx st st1 d1 q1 \<Longrightarrow> grew root ctx st1 st2 d2 q2 \<Longrightarrow> grew root ctx st st2 (d1 @ d2) (q1 @ q2)"
  by (auto simp: grew_def)

lemma grew_world [simp]: "grew root ctx (st\<lparr>es_world := w\<rparr>) st' d q \<longleftrightarrow> grew root ctx st st' d q"
  by (simp add: grew_def)

lemma fresh_uuid_world: "fresh_uuid env st = (u, st') \<Longrightarrow> \<exists>w. st' = st\<lparr>es_world := w\<rparr>"
  by (auto simp: fresh_uuid_def split: prod.splits)

lemma now_ms_world: "now_ms env st = (t, st') \<Longrightarrow> \<exists>w. st' = st\<lparr>es_world := w\<rparr>"
  by (auto simp: now_ms_def split: prod.splits)

lemma append_delivery_grew:
  "append_delivery env (deliveries_path root ctx) x st = (Inr u, st') \<Longrightarrow> grew root ctx st st' [x] []"
  by (auto simp: append_delivery_def grew_def split: if_splits)

lemma append_dead_letter_grew:
  "append_dead_letter env (dlq_path root ctx) x st = (Inr u, st') \<Longrightarrow> grew root ctx st st' [] [x]"
  by (auto simp: append_dead_letter_def grew_def split: if_splits)

lemma attempt_loop_spec:
  "attempt_loop env root ctx evt s attempts err st rep = (Inr (err', rep'), st') \<Longrightarrow>
   attempts < max_attempts_of s \<or> err \<noteq> None \<Longrightarrow>
     (\<exists>did n t. err' = None \<and> attempts < n \<and> n \<le> max_attempts_of s \<and> rep' = rep\<lparr>pr_ok := pr_ok rep + 1\<rparr>
        \<and> grew root ctx st st' [delivery_of s evt did ''ok'' n None t] [])
     \<or> (err' \<noteq> None \<and> rep' = rep \<and> grew root ctx st st' [] [])"
proof (induction env root ctx evt s attempts err st rep rule: attempt_loop.induct)
  case (1 env root ctx evt s attempts err st rep)
  show ?case
  proof (cases "attempts < max_attempts_of s")
    case False
    then show ?thesis using "1.prems" by (simp add: attempt_loop.simps [of env root ctx evt s attempts] grew_refl)
  next
    case True
    obtain x w where inv: "ee_invoke env (rb_capability_id s) (rb_op s) (ee_json_vec env (en_payload evt)) ctx (es_world st) = (x, w)"
      by force
    then obtain out where x: "x = Inr out"
      using "1.prems"(1) True by (cases x) (simp_all add: attempt_loop.simps [of env root ctx evt s attempts])
    show ?thesis
    proof (cases "oo_success out")
      case False
      then have "attempt_loop env root ctx evt s (attempts + 1)
          (Some (opt_unwrap_or (oo_error out) ''capability invocation failed'')) (st\<lparr>es_world := w\<rparr>) rep
        = (Inr (err', rep'), st')"
        using "1.prems"(1) True inv x by (simp add: attempt_loop.simps [of env root ctx evt s attempts])
      from "1.IH" [OF True inv [symmetric] x False this] show ?thesis by fastforce
    next
      case ok: True
      obtain did st1 where u: "fresh_uuid env (st\<lparr>es_world := w\<rparr>) = (did, st1)" by force
      obtain t st2 where n: "now_ms env st1 = (t, st2)" by force
      obtain y st3 where a: "append_delivery env (deliveries_path root ctx)
          (delivery_of s evt did ''ok'' (attempts + 1) None t) st2 = (y, st3)" by force
      have "y = Inr () \<and> err' = None \<and> rep' = rep\<lparr>pr_ok := pr_ok rep + 1\<rparr> \<and> st' = st3"
        using "1.prems"(1) True inv x ok u n a
        by (cases y) (simp_all add: attempt_loop.simps [of env root ctx evt s attempts])
      moreover have "grew root ctx st st3 [delivery_of s evt did ''ok'' (attempts + 1) None t] []" if "y = Inr ()"
        using append_delivery_grew [OF a [unfolded that]] fresh_uuid_world [OF u] now_ms_world [OF n] by auto
      ultimately show ?thesis using True by (intro disjI1 exI [of _ did] exI [of _ "attempts + 1"] exI [of _ t]) simp
    qed
  qed
qed

text \<open>The record of a subscription whose delivery ended.\<close>

definition delivery_for :: "event_envelope \<Rightarrow> resolved_subscription \<Rightarrow> delivery_record \<Rightarrow> bool" where
  "delivery_for evt s d \<longleftrightarrow>
     dl_event_id d = en_event_id evt \<and> dl_subscription_id d = rb_subscription_id s
     \<and> dl_capability_id d = rb_capability_id s \<and> dl_op d = rb_op s
     \<and> 1 \<le> dl_attempts d \<and> dl_attempts d \<le> max_attempts_of s
     \<and> (dl_status d = ''ok'' \<and> dl_error d = None
        \<or> dl_status d = ''err'' \<and> dl_error d \<noteq> None \<and> dl_attempts d = max_attempts_of s)"

definition failed_delivery :: "delivery_record \<Rightarrow> bool" where
  "failed_delivery d \<longleftrightarrow> dl_status d = ''err''"

text \<open>A dead letter describes a failed delivery of an event.\<close>

definition dead_letter_for :: "event_envelope \<Rightarrow> delivery_record \<Rightarrow> dead_letter \<Rightarrow> bool" where
  "dead_letter_for evt d q \<longleftrightarrow>
     dd_delivery_id q = dl_delivery_id d \<and> dd_event q = evt \<and> dd_subscription_id q = dl_subscription_id d
     \<and> dd_capability_id q = dl_capability_id d \<and> dd_op q = dl_op d \<and> dd_attempts q = dl_attempts d
     \<and> dl_error d = Some (dd_error q)"

lemma record_failure_spec:
  assumes "record_failure env root ctx evt s err st rep = (Inr rep', st')"
  obtains d q where "rep' = rep\<lparr>pr_failed := pr_failed rep + 1\<rparr>" "grew root ctx st st' [d] [q]"
    "delivery_for evt s d" "failed_delivery d" "dead_letter_for evt d q"
proof -
  obtain did st1 where u: "fresh_uuid env st = (did, st1)" by force
  obtain t st2 where n: "now_ms env st1 = (t, st2)" by force
  let ?d = "delivery_of s evt did ''err'' (max_attempts_of s) (Some err) t"
  obtain y st3 where a: "append_delivery env (deliveries_path root ctx) ?d st2 = (y, st3)" by force
  obtain t' st4 where n': "now_ms env st3 = (t', st4)" by force
  let ?q = "\<lparr>dd_delivery_id = did, dd_event = evt, dd_subscription_id = rb_subscription_id s,
     dd_capability_id = rb_capability_id s, dd_op = rb_op s, dd_attempts = max_attempts_of s,
     dd_error = err, dd_failed_at = t'\<rparr>"
  obtain z st5 where b: "append_dead_letter env (dlq_path root ctx) ?q st4 = (z, st5)" by force
  have r: "y = Inr () \<and> z = Inr () \<and> rep' = rep\<lparr>pr_failed := pr_failed rep + 1\<rparr> \<and> st' = st5"
    using assms u n a n' b by (cases y; cases z) (simp_all add: record_failure_def)
  have "grew root ctx st st3 [?d] []"
    using append_delivery_grew [of env root ctx ?d st2 "()" st3] a r fresh_uuid_world [OF u] now_ms_world [OF n] by auto
  moreover have "grew root ctx st3 st5 [] [?q]"
    using append_dead_letter_grew [of env root ctx ?q st4 "()" st5] b r now_ms_world [OF n'] by auto
  ultimately have g: "grew root ctx st st' [?d] [?q]" using grew_trans r by fastforce
  show thesis
    by (rule that [OF _ g]) (use r in \<open>simp_all add: delivery_for_def delivery_of_def failed_delivery_def
      dead_letter_for_def max_attempts_of_def\<close>)
qed

definition accounted ::
  "path \<Rightarrow> operator_context \<Rightarrow> event_envelope \<Rightarrow> resolved_subscription list \<Rightarrow> 'w event_state \<Rightarrow> publish_report
     \<Rightarrow> 'w event_state \<Rightarrow> publish_report \<Rightarrow> bool" where
  "accounted root ctx evt subs st rep st' rep' \<longleftrightarrow>
     (\<exists>dels dead. grew root ctx st st' dels dead
        \<and> list_all2 (delivery_for evt) subs dels
        \<and> list_all2 (dead_letter_for evt) (filter failed_delivery dels) dead
        \<and> pr_matched rep' = pr_matched rep
        \<and> pr_ok rep' = pr_ok rep + length (filter (\<lambda>d. \<not> failed_delivery d) dels)
        \<and> pr_failed rep' = pr_failed rep + length dead)"

lemma accounted_Nil: "accounted root ctx evt [] st rep st rep"
  unfolding accounted_def by (intro exI [of _ "[]"]) (simp add: grew_refl)

lemma accounted_ok:
  assumes "grew root ctx st st1 [d] []" "delivery_for evt s d" "\<not> failed_delivery d"
    and "accounted root ctx evt ss st1 (rep\<lparr>pr_ok := pr_ok rep + 1\<rparr>) st' rep'"
  shows "accounted root ctx evt (s # ss) st rep st' rep'"
proof -
  obtain dels dead where a: "grew root ctx st1 st' dels dead" "list_all2 (delivery_for evt) ss dels"
    "list_all2 (dead_letter_for evt) (filter failed_delivery dels) dead" "pr_matched rep' = pr_matched rep"
    "pr_ok rep' = pr_ok rep + 1 + length (filter (\<lambda>d. \<not> failed_delivery d) dels)"
    "pr_failed rep' = pr_failed rep + length dead"
    using assms(4) by (auto simp: accounted_def)
  show ?thesis unfolding accounted_def
    by (intro exI [of _ "d # dels"] exI [of _ dead])
      (use a assms grew_trans [OF assms(1) a(1)] in simp)
qed

lemma accounted_err:
  assumes "grew root ctx st st1 [d] [q]" "delivery_for evt s d" "failed_delivery d" "dead_letter_for evt d q"
    and "accounted root ctx evt ss st1 (rep\<lparr>pr_failed := pr_failed rep + 1\<rparr>) st' rep'"
  shows "accounted root ctx evt (s # ss) st rep st' rep'"
proof -
  obtain dels dead where a: "grew root ctx st1 st' dels dead" "list_all2 (delivery_for evt) ss dels"
    "list_all2 (dead_letter_for evt) (filter failed_delivery dels) dead" "pr_matched rep' = pr_matched rep"
    "pr_ok rep' = pr_ok rep + length (filter (\<lambda>d. \<not> failed_delivery d) dels)"
    "pr_failed rep' = pr_failed rep + 1 + length dead"
    using assms(5) by (auto simp: accounted_def)
  show ?thesis unfolding accounted_def
    by (intro exI [of _ "d # dels"] exI [of _ "q # dead"])
      (use a assms grew_trans [OF assms(1) a(1)] in simp)
qed

lemma deliver_all_accounted:
  "deliver_all env root ctx evt ss st rep = (Inr rep', st') \<Longrightarrow> accounted root ctx evt ss st rep st' rep'"
proof (induction ss arbitrary: st rep)
  case Nil
  then show ?case by (simp add: accounted_Nil)
next
  case (Cons s ss)
  obtain x st1 where loop: "attempt_loop env root ctx evt s 0 None st rep = (x, st1)" by force
  obtain err rep1 where x: "x = Inr (err, rep1)"
    using Cons.prems loop by (cases x) (auto split: sum.splits)
  have m: "0 < max_attempts_of s" by (simp add: max_attempts_of_def)
  note spec = attempt_loop_spec [OF loop [unfolded x] disjI1 [OF m]]
  show ?case
  proof (cases err)
    case None
    then obtain did n t where d: "0 < n" "n \<le> max_attempts_of s" "rep1 = rep\<lparr>pr_ok := pr_ok rep + 1\<rparr>"
      "grew root ctx st st1 [delivery_of s evt did ''ok'' n None t] []" using spec by auto
    have "deliver_all env root ctx evt ss st1 rep1 = (Inr rep', st')"
      using Cons.prems loop x None by (auto split: sum.splits)
    from Cons.IH [OF this] d(3) show ?thesis
      by (intro accounted_ok [OF d(4)]) (use d(1,2) in \<open>simp_all add: delivery_for_def delivery_of_def failed_delivery_def\<close>)
  next
    case (Some e)
    then have g: "rep1 = rep" "grew root ctx st st1 [] []" using spec by auto
    obtain y st2 where f: "record_failure env root ctx evt s e st1 rep1 = (y, st2)" by force
    then obtain rep2 where y: "y = Inr rep2"
      using Cons.prems loop x Some by (cases y) (auto split: sum.splits)
    have rest: "deliver_all env root ctx evt ss st2 rep2 = (Inr rep', st')"
      using Cons.prems loop x Some f y by (auto split: sum.splits)
    obtain d q where dq: "rep2 = rep1\<lparr>pr_failed := pr_failed rep1 + 1\<rparr>" "grew root ctx st1 st2 [d] [q]"
      "delivery_for evt s d" "failed_delivery d" "dead_letter_for evt d q"
      using record_failure_spec [OF f [unfolded y]] by blast
    have "grew root ctx st st2 [d] [q]" using grew_trans [OF g(2) dq(2)] by simp
    from accounted_err [OF this dq(3-5)] Cons.IH [OF rest] dq(1) g(1) show ?thesis by simp
  qed
qed

section \<open>Properties\<close>

text \<open>What a successful publication did.\<close>

definition published ::
  "path \<Rightarrow> operator_context \<Rightarrow> resolved_subscription list \<Rightarrow> publish_request \<Rightarrow> string option \<Rightarrow> event_envelope
     \<Rightarrow> delivery_record list \<Rightarrow> dead_letter list \<Rightarrow> 'w event_state \<Rightarrow> 'w event_state \<Rightarrow> publish_report \<Rightarrow> bool" where
  "published root ctx subs rq only evt dels dead st st' rep \<longleftrightarrow>
     es_events st' = (es_events st)(events_path root ctx := es_events st (events_path root ctx) @ [evt])
     \<and> es_deliveries st' = (es_deliveries st)(deliveries_path root ctx := es_deliveries st (deliveries_path root ctx) @ dels)
     \<and> es_dlq st' = (es_dlq st)(dlq_path root ctx := es_dlq st (dlq_path root ctx) @ dead)
     \<and> en_topic evt = pq_topic rq \<and> en_payload evt = pq_payload rq
     \<and> list_all2 (delivery_for evt) (matched_subscriptions only evt subs) dels
     \<and> list_all2 (dead_letter_for evt) (filter failed_delivery dels) dead
     \<and> pr_matched rep = length dels \<and> pr_failed rep = length dead \<and> pr_ok rep + pr_failed rep = pr_matched rep"

lemma append_event_spec:
  "append_event env p x st = (Inr u, st') \<Longrightarrow>
     es_events st' = (es_events st)(p := es_events st p @ [x]) \<and> es_deliveries st' = es_deliveries st \<and> es_dlq st' = es_dlq st"
  by (auto simp: append_event_def split: if_splits)

lemma select_topic_topic: "select_topic env topics rq = Inr t \<Longrightarrow> rt_topic t = pq_topic rq"
  by (auto simp: select_topic_def result_iff topic_selected_def dest!: find_Some_in split: option.splits)

lemma publish_published:
  assumes "publish_event_internal env root ctx topics subs rq only replay_id st = (Inr rep, st')"
  shows "\<exists>evt dels dead. published root ctx subs rq only evt dels dead st st' rep
     \<and> (replay_id \<noteq> None \<longrightarrow> en_event_id evt = ''replay-'' @ the replay_id)"
proof -
  obtain t where t: "rt_topic t = pq_topic rq"
    and sel: "select_topic env topics rq = Inr t"
    using assms select_topic_topic [of env topics rq]
    by (cases "select_topic env topics rq") (auto simp: publish_event_internal_def)
  obtain eid st1 where e: "(case replay_id of Some v \<Rightarrow> (''replay-'' @ v, st) | None \<Rightarrow> fresh_uuid env st) = (eid, st1)"
    by force
  obtain n st2 where n: "now_ms env st1 = (n, st2)" by force
  let ?evt = "\<lparr>en_event_id = eid, en_topic = rt_topic t, en_event_type = rt_event_type t,
      en_payload = pq_payload rq, en_correlation_id = pq_correlation_id rq,
      en_source = pq_source rq, en_published_at = n\<rparr>"
  let ?m = "matched_subscriptions only ?evt subs"
  let ?rep = "\<lparr>pr_matched = length ?m, pr_ok = 0, pr_failed = 0\<rparr>"
  obtain x st3 where a: "append_event env (events_path root ctx) ?evt st2 = (x, st3)" by force
  have d: "x = Inr () \<and> deliver_all env root ctx ?evt ?m st3 ?rep = (Inr rep, st')"
    using assms e n a unfolding publish_event_internal_def sel by (cases x) (simp_all add: Let_def)
  have st1: "\<exists>w. st1 = st\<lparr>es_world := w\<rparr>"
  proof (cases replay_id)
    case None
    then show ?thesis using e fresh_uuid_world [of env st eid st1] by simp
  next
    case (Some v)
    then show ?thesis using e by (intro exI [of _ "es_world st"]) simp
  qed
  have st3: "es_events st3 = (es_events st)(events_path root ctx := es_events st (events_path root ctx) @ [?evt])"
    "es_deliveries st3 = es_deliveries st" "es_dlq st3 = es_dlq st"
    using append_event_spec [of env "events_path root ctx" ?evt st2 "()" st3] a d st1 now_ms_world [OF n] by auto
  obtain dels dead where g: "grew root ctx st3 st' dels dead" "list_all2 (delivery_for ?evt) ?m dels"
      "list_all2 (dead_letter_for ?evt) (filter failed_delivery dels) dead" "pr_matched rep = length ?m"
      "pr_ok rep = length (filter (\<lambda>d. \<not> failed_delivery d) dels)" "pr_failed rep = length dead"
    using deliver_all_accounted [of env root ctx ?evt ?m st3 ?rep rep st'] d by (auto simp: accounted_def)
  have len: "length dels = length ?m" "length dead = length (filter failed_delivery dels)"
    using g(2,3) by (auto dest: list_all2_lengthD)
  have "published root ctx subs rq only ?evt dels dead st st' rep"
    using g st3 t len sum_length_filter_compl [of failed_delivery dels] by (simp add: published_def grew_def)
  moreover have "replay_id \<noteq> None \<longrightarrow> en_event_id ?evt = ''replay-'' @ the replay_id" using e by auto
  ultimately show ?thesis by blast
qed

text \<open>A world for the instances: the answers still to be given and the number of ids handed out.\<close>

definition sample_events_env :: "(bool option list \<times> nat) event_env" where
  "sample_events_env =
     \<lparr>ee_invoke = (\<lambda>cap op payload ctx (answers, n).
        (case answers of
           None # rest \<Rightarrow> (Inl ''runner unavailable'', (rest, n))
         | Some ok # rest \<Rightarrow> (Inr \<lparr>oo_success = ok, oo_output = None, oo_error = Some ''busy''\<rparr>, (rest, n))
         | [] \<Rightarrow> (Inr \<lparr>oo_success = True, oo_output = None, oo_error = None\<rparr>, ([], n)))),
      ee_uuid = (\<lambda>(answers, n). (''id'' @ show_nat n, (answers, n + 1))), ee_now = (\<lambda>w. (0, w)),
      ee_validate = (\<lambda>_ _ _. Inr ()), ee_append_ok = (\<lambda>_ _. True), ee_json_vec = (\<lambda>_. [])\<rparr>"

definition sample_events_state :: "bool option list \<Rightarrow> (bool option list \<times> nat) event_state" where
  "sample_events_state answers = \<lparr>es_events = (\<lambda>_. []), es_deliveries = (\<lambda>_. []), es_dlq = (\<lambda>_. []),
     es_world = (answers, 0)\<rparr>"

definition sample_topic :: resolved_topic where
  "sample_topic = \<lparr>rt_topic = ''order'', rt_event_type = ''created'', rt_pack_id = ''p'', rt_domain = ''events'',
     rt_pack_path = ''p.gtpack'', rt_publisher_component_ref = ''c'', rt_publisher_op = ''o'',
     rt_payload_schema_ref = None, rt_adapter_kind = DirectComponent, rt_priority = 0,
     rt_scope = \<lparr>rsc_env = None, rsc_tenant = None, rsc_team = None\<rparr>\<rparr>"

definition sample_subscription :: "string \<Rightarrow> nat \<Rightarrow> resolved_subscription" where
  "sample_subscription i n = \<lparr>rb_subscription_id = i, rb_topic = ''order'', rb_event_type = ''created'',
     rb_pack_id = ''p'', rb_domain = ''events'', rb_pack_path = ''p.gtpack'', rb_capability_id = ''cap'', rb_op = ''on'',
     rb_payload_schema_ref = None, rb_filter_json_pointer = None, rb_filter_equals = None,
     rb_delivery_mode = ''at_least_once'', rb_max_attempts = n, rb_priority = 0,
     rb_scope = \<lparr>rsc_env = None, rsc_tenant = None, rsc_team = None\<rparr>\<rparr>"

definition sample_request :: publish_request where
  "sample_request = \<lparr>pq_topic = ''order'', pq_event_type = None, pq_payload = JNull, pq_correlation_id = None, pq_source = None\<rparr>"

definition sample_publish ::
  "bool option list \<Rightarrow> (event_error, publish_report) result \<times> (bool option list \<times> nat) event_state" where
  "sample_publish answers = publish_event sample_events_env ''b'' sample_ctx [sample_topic]
     [sample_subscription ''s1'' 2, sample_subscription ''s2'' 1] sample_request (sample_events_state answers)"

text \<open>
  C3: a publication that succeeds accounts for every matching subscription: the event is
  appended to the events file of the tenant and team, each matching subscription gets one
  delivery record, in order, after between one and \<open>max(1, max_attempts)\<close> attempts, each
  failed delivery has exactly one dead letter with its id, and the report counts them; the
  files of other tenants and teams do not change.
\<close>

theorem publish_accounts_for_all:
  assumes "publish_event env root ctx topics subs rq st = (Inr rep, st')"
  shows "\<exists>evt dels dead. published root ctx subs rq None evt dels dead st st' rep"
  using publish_published [of env root ctx topics subs rq None None st rep st'] assms
  by (auto simp: publish_event_def)

theorem publish_accounts_for_all_witness:
  "\<exists>evt dels dead st'. published ''b'' sample_ctx [sample_subscription ''s1'' 2, sample_subscription ''s2'' 1]
     sample_request None evt dels dead (sample_events_state [Some False, Some False, Some True]) st'
     \<lparr>pr_matched = 2, pr_ok = 1, pr_failed = 1\<rparr>"
proof -
  have "fst (sample_publish [Some False, Some False, Some True]) = Inr \<lparr>pr_matched = 2, pr_ok = 1, pr_failed = 1\<rparr>"
    by code_simp
  then have "publish_event sample_events_env ''b'' sample_ctx [sample_topic]
     [sample_subscription ''s1'' 2, sample_subscription ''s2'' 1] sample_request
     (sample_events_state [Some False, Some False, Some True])
     = (Inr \<lparr>pr_matched = 2, pr_ok = 1, pr_failed = 1\<rparr>, snd (sample_publish [Some False, Some False, Some True]))"
    unfolding sample_publish_def by (metis prod.collapse)
  from publish_accounts_for_all [OF this] show ?thesis by blast
qed

text \<open>
  C25: replaying a dead letter publishes its event again under the id \<open>replay-<delivery>\<close> and
  delivers it to the failed subscription only; the other subscriptions of the topic get nothing.
\<close>

theorem replay_targets_failed_subscription:
  assumes "replay_event env root ctx topics subs event_id (Some did) st = (Inr rep, st')"
  shows "\<exists>q evt dels dead. q \<in> set (es_dlq st (dlq_path root ctx)) \<and> dd_delivery_id q = did
     \<and> published root ctx subs (request_of (dd_event q)) (Some (dd_subscription_id q)) evt dels dead st st' rep
     \<and> en_event_id evt = ''replay-'' @ did
     \<and> (\<forall>d \<in> set dels. dl_subscription_id d = dd_subscription_id q \<and> dl_event_id d = ''replay-'' @ did)"
proof -
  obtain q where q: "q \<in> set (es_dlq st (dlq_path root ctx))" "dd_delivery_id q = did"
    and pub: "publish_event_internal env root ctx topics subs (request_of (dd_event q)) (Some (dd_subscription_id q))
      (Some did) st = (Inr rep, st')"
    using assms by (auto simp: replay_event_def result_iff dest!: find_Some_in split: sum.splits option.splits)
  obtain evt dels dead where p:
    "published root ctx subs (request_of (dd_event q)) (Some (dd_subscription_id q)) evt dels dead st st' rep"
    "en_event_id evt = ''replay-'' @ did"
    using publish_published [OF pub] by auto
  have "dl_subscription_id d = dd_subscription_id q \<and> dl_event_id d = ''replay-'' @ did" if d: "d \<in> set dels" for d
  proof -
    have all: "list_all2 (delivery_for evt) (matched_subscriptions (Some (dd_subscription_id q)) evt subs) dels"
      using p(1) by (simp add: published_def)
    then obtain s where "s \<in> set (matched_subscriptions (Some (dd_subscription_id q)) evt subs)" "delivery_for evt s d"
      using d by (metis in_set_conv_nth list_all2_conv_all_nth)
    then show ?thesis using p(2) by (auto simp: matched_subscriptions_def delivery_for_def)
  qed
  then show ?thesis using q p by blast
qed

definition sample_failed :: "(bool option list \<times> nat) event_state" where
  "sample_failed = snd (sample_publish [Some False, Some False, Some True])"

theorem replay_targets_failed_subscription_witness:
  "\<exists>q \<in> set (es_dlq sample_failed (dlq_path ''b'' sample_ctx)). dd_delivery_id q = ''id1''"
proof -
  let ?run = "replay_event sample_events_env ''b'' sample_ctx [sample_topic]
     [sample_subscription ''s1'' 2, sample_subscription ''s2'' 1] None (Some ''id1'') sample_failed"
  have "fst ?run = Inr \<lparr>pr_matched = 1, pr_ok = 1, pr_failed = 0\<rparr>" by code_simp
  then have "?run = (Inr \<lparr>pr_matched = 1, pr_ok = 1, pr_failed = 0\<rparr>, snd ?run)" by (metis prod.collapse)
  from replay_targets_failed_subscription [OF this] show ?thesis by blast
qed

text \<open>
  An error of the runner (as opposed to a failed outcome) aborts the publication: with
  two matching subscriptions, the event is in the events file, but the erring subscription
  has no delivery record and no dead letter, and the second one is never attempted, so the
  event cannot be replayed from the dead letters although both ask for \<open>at_least_once\<close>.
\<close>

lemma runner_error_loses_deliveries:
  "(\<lambda>(r, st). (r, length (es_events st (events_path ''b'' sample_ctx)),
       es_deliveries st (deliveries_path ''b'' sample_ctx), es_dlq st (dlq_path ''b'' sample_ctx), es_world st))
     (sample_publish [None, Some True])
   = (Inl (CapabilityInvokeError ''runner unavailable''), 1, [], [], ([Some True], 1))"
  by code_simp

end
