(* ===== verification/Egress.thy ===== *)
theory Egress
  imports Hooks
begin

text \<open>
  The universal messaging pipeline (\<open>src/messaging_universal/app.rs\<close>, \<open>retry.rs\<close>, \<open>dlq.rs\<close>,
  \<open>egress.rs\<close>): choice of the application pack and flow, the envelopes a flow produces, and
  the delivery of each envelope with render, encode, send, retries and dead letters. The
  channel message type, serde decoding, component and flow execution, the random jitter,
  sleeping, UUIDs and clocks are parameters (\<open>egress_env\<close>) over a world \<open>'w\<close>; \<open>'m\<close> is the
  type of channel messages.
\<close>

section \<open>Retry policy\<close>

text \<open>Delays are \<open>u64\<close> with saturating operations; attempts are \<open>u32\<close>.\<close>

definition u64_max :: nat where "u64_max = 2 ^ 64 - 1"

definition sat_mul :: "nat \<Rightarrow> nat \<Rightarrow> nat" where "sat_mul a b = min (a * b) u64_max"

definition sat_add :: "nat \<Rightarrow> nat \<Rightarrow> nat" where "sat_add a b = min (a + b) u64_max"

definition sat_inc :: "32 word \<Rightarrow> 32 word" where
  "sat_inc a = (if a = - 1 then a else a + 1)"

record retry_policy =
  rp_max_attempts :: "32 word"
  rp_base_delay_ms :: nat
  rp_max_delay_ms :: nat
  rp_jitter_ms :: nat

definition default_policy :: retry_policy where
  "default_policy = \<lparr>rp_max_attempts = 5, rp_base_delay_ms = 500, rp_max_delay_ms = 30000, rp_jitter_ms = 250\<rparr>"

definition backoff_ms :: "retry_policy \<Rightarrow> nat \<Rightarrow> nat" where
  "backoff_ms p attempt = min (sat_mul (rp_base_delay_ms p) (2 ^ min (attempt - 1) 63)) (rp_max_delay_ms p)"

definition delay_with_jitter :: "retry_policy \<Rightarrow> nat \<Rightarrow> nat \<Rightarrow> nat" where
  "delay_with_jitter p attempt jitter = sat_add (backoff_ms p attempt) (min jitter (rp_jitter_ms p))"

record 'm egress_job =
  ej_job_id :: string
  ej_provider :: string
  ej_attempt :: "32 word"
  ej_max_attempts :: "32 word"
  ej_next_run :: nat
  ej_envelope :: 'm
  ej_plan_cache :: "json option"
  ej_last_error :: "string option"

definition new_job :: "string \<Rightarrow> nat \<Rightarrow> string \<Rightarrow> 'm \<Rightarrow> 32 word \<Rightarrow> 'm egress_job" where
  "new_job job_id now provider envelope max_attempts =
     \<lparr>ej_job_id = job_id, ej_provider = provider, ej_attempt = 0, ej_max_attempts = max max_attempts 1,
      ej_next_run = now, ej_envelope = envelope, ej_plan_cache = None, ej_last_error = None\<rparr>"

definition increment_attempt :: "'m egress_job \<Rightarrow> 'm egress_job" where
  "increment_attempt j = j\<lparr>ej_attempt := sat_inc (ej_attempt j)\<rparr>"

definition schedule_next :: "nat \<Rightarrow> nat \<Rightarrow> 'm egress_job \<Rightarrow> 'm egress_job" where
  "schedule_next now delay_ms j = j\<lparr>ej_next_run := sat_add now delay_ms\<rparr>"

definition with_plan :: "json \<Rightarrow> 'm egress_job \<Rightarrow> 'm egress_job" where
  "with_plan plan j = j\<lparr>ej_plan_cache := Some plan\<rparr>"

definition record_error :: "string \<Rightarrow> 'm egress_job \<Rightarrow> 'm egress_job" where
  "record_error e j = j\<lparr>ej_last_error := Some e\<rparr>"

section \<open>Outcomes and payloads\<close>

record flow_outcome = op_outcome +
  oo_raw :: "string option"

record provider_payload =
  py_content_type :: string
  py_body_b64 :: string
  py_metadata_json :: "string option"
  py_metadata :: "json option"

record app_flow_info =
  af_id :: string
  af_kind :: string

record app_pack_info =
  ap_pack_id :: string
  ap_flows :: "app_flow_info list"

datatype egress_error =
    OverridePackMissing path
  | AppPackNotFound "path list"
  | PackUnreadable path string
  | AppPackIdMissing path
  | AppFlowNotResolved "string list"
  | AppFlowFailed string
  | NoAppOutputs
  | EnvelopeInvalid string
  | NoEnvelopes
  | HostUnavailable string
  | ProviderInvokeFailed string
  | ProviderOpFailed string string string
  | PayloadUnreadable string
  | DlqWriteFailed

record ('w, 'm) egress_env =
  ge_exists :: "path \<Rightarrow> bool"
  ge_manifest :: "path \<Rightarrow> (string, cbor) result"
  ge_run_flow :: "run_request \<Rightarrow> 'w \<Rightarrow> (string, string list option) result \<times> 'w"
  ge_parse_json :: "string \<Rightarrow> json option"
  ge_json_string :: "json \<Rightarrow> string"
  ge_b64_text :: "string \<Rightarrow> string"
  ge_of_value :: "json \<Rightarrow> (string, 'm) result"
  ge_to_value :: "'m \<Rightarrow> json"
  ge_metadata :: "'m \<Rightarrow> string \<Rightarrow> string option"
  ge_set_text :: "string \<Rightarrow> 'm \<Rightarrow> 'm"
  ge_set_metadata :: "string \<Rightarrow> string \<Rightarrow> 'm \<Rightarrow> 'm"
  ge_summary :: "'m \<Rightarrow> json"
  ge_payload_of :: "json \<Rightarrow> (string, provider_payload) result"
  ge_invoke :: "string \<Rightarrow> string \<Rightarrow> json \<Rightarrow> operator_context \<Rightarrow> 'w \<Rightarrow> (string, flow_outcome) result \<times> 'w"
  ge_canonical_type :: "string \<Rightarrow> string"
  ge_host :: "'w \<Rightarrow> (string, unit) result"
  ge_uuid :: "'w \<Rightarrow> string \<times> 'w"
  ge_jitter :: "nat \<Rightarrow> 'w \<Rightarrow> nat \<times> 'w"
  ge_sleep :: "nat \<Rightarrow> 'w \<Rightarrow> 'w"
  ge_now :: "'w \<Rightarrow> nat"
  ge_timestamp :: "'w \<Rightarrow> string"
  ge_append_ok :: "'w \<Rightarrow> bool"

record 'w egress_state =
  gs_dlq :: "json list"
  gs_world :: 'w

section \<open>Application packs and flows\<close>

definition resolve_app_pack_path ::
  "('w, 'm) egress_env \<Rightarrow> path \<Rightarrow> string \<Rightarrow> string option \<Rightarrow> string option \<Rightarrow> (egress_error, path) result" where
  "resolve_app_pack_path env bundle_dir tenant team override_path =
     (case override_path of
        Some v \<Rightarrow> if ge_exists env v then Inr v else Inl (OverridePackMissing v)
      | None \<Rightarrow>
          (let packs_root = path_join bundle_dir ''packs'';
               tried = (case team of None \<Rightarrow> []
                        | Some t \<Rightarrow> [path_join (path_join (path_join packs_root tenant) t) ''default.gtpack''])
                 @ [path_join (path_join packs_root tenant) ''default.gtpack'', path_join packs_root ''default.gtpack'']
           in ok_or (AppPackNotFound tried) (List.find (ge_exists env) tried)))"

definition cbor_text :: "cbor option \<Rightarrow> string option" where
  "cbor_text v = (case v of Some (CText t) \<Rightarrow> Some t | _ \<Rightarrow> None)"

definition extract_text_or_symbol :: "cbor \<Rightarrow> string \<Rightarrow> string \<Rightarrow> string option" where
  "extract_text_or_symbol v key symbol_table =
     (case v of
        CMap m \<Rightarrow>
          (case map_get m key of
             Some (CText t) \<Rightarrow> Some t
           | Some (CInteger idx) \<Rightarrow>
               (case map_get m ''symbols'' of
                  Some (CMap syms) \<Rightarrow>
                    (case map_get syms symbol_table of
                       Some (CArray entries) \<Rightarrow> cbor_text (nth_opt entries (nat (idx mod 2 ^ 64)))
                     | _ \<Rightarrow> None)
                | _ \<Rightarrow> None)
           | _ \<Rightarrow> None)
      | _ \<Rightarrow> None)"

definition parse_flow_entry :: "cbor \<Rightarrow> app_flow_info option" where
  "parse_flow_entry v =
     (case v of
        CMap m \<Rightarrow>
          Option.bind (cbor_text (map_get m ''id'')) (\<lambda>fid.
            Some \<lparr>af_id = fid,
                  af_kind = opt_unwrap_or (case map_get m ''flow'' of
                      Some (CMap fm) \<Rightarrow> cbor_text (map_get fm ''kind'')
                    | _ \<Rightarrow> cbor_text (map_get m ''kind'')) ''messaging''\<rparr>)
      | _ \<Rightarrow> None)"

definition extract_flows :: "cbor \<Rightarrow> app_flow_info list" where
  "extract_flows v =
     (case v of
        CMap m \<Rightarrow> (case map_get m ''flows'' of Some (CArray es) \<Rightarrow> List.map_filter parse_flow_entry es | _ \<Rightarrow> [])
      | _ \<Rightarrow> [])"

definition load_app_pack_info :: "('w, 'm) egress_env \<Rightarrow> path \<Rightarrow> (egress_error, app_pack_info) result" where
  "load_app_pack_info env p =
     rbind (map_err (PackUnreadable p) (ge_manifest env p)) (\<lambda>v.
     rbind (ok_or (AppPackIdMissing p) (extract_text_or_symbol v ''pack_id'' ''pack_ids'')) (\<lambda>pid.
       Inr \<lparr>ap_pack_id = pid, ap_flows = extract_flows v\<rparr>))"

definition select_app_flow :: "app_pack_info \<Rightarrow> (egress_error, app_flow_info) result" where
  "select_app_flow info =
     (case List.find (\<lambda>f. af_id f = ''default'') (ap_flows info) of
        Some f \<Rightarrow> Inr f
      | None \<Rightarrow>
          (case filter (\<lambda>f. eq_ignore_ascii_case (af_kind f) ''messaging'') (ap_flows info) of
             [f] \<Rightarrow> Inr f
           | _ \<Rightarrow> Inl (AppFlowNotResolved (map af_id (ap_flows info)))))"

text \<open>The outputs of a transcript: \<open>first\<close> and \<open>targeted\<close> are the two accumulators.\<close>

fun transcript_loop ::
  "('w, 'm) egress_env \<Rightarrow> string option \<Rightarrow> string list \<Rightarrow> json option \<Rightarrow> json option \<Rightarrow> json option \<times> json option" where
  "transcript_loop env target [] first targeted = (first, targeted)"
| "transcript_loop env target (l # ls) first targeted =
     (case Option.bind (ge_parse_json env l) (\<lambda>v. map_option (\<lambda>out. (v, out)) (json_get v ''outputs'')) of
        Some (v, out) \<Rightarrow>
          if is_null out then transcript_loop env target ls first targeted
          else transcript_loop env target ls (opt_or first (Some out))
                 (if target \<noteq> None \<and> Option.bind (json_get v ''node_id'') as_str = target
                  then Some out else targeted)
      | None \<Rightarrow> transcript_loop env target ls first targeted)"

definition collect_transcript_outputs ::
  "('w, 'm) egress_env \<Rightarrow> string list option \<Rightarrow> string option \<Rightarrow> json option" where
  "collect_transcript_outputs env transcript target =
     (case transcript of None \<Rightarrow> None
      | Some ls \<Rightarrow> (case transcript_loop env target ls None None of (first, targeted) \<Rightarrow> opt_or targeted first))"

definition parse_envelope_array :: "('w, 'm) egress_env \<Rightarrow> json list \<Rightarrow> (egress_error, 'm list) result" where
  "parse_envelope_array env vs = map_err EnvelopeInvalid (collect_results (ge_of_value env) vs)"

definition card_title :: "json \<Rightarrow> string" where
  "card_title crd = opt_unwrap_or (Option.bind (Option.bind (Option.bind (Option.bind (json_get crd ''body'') as_array)
     (\<lambda>arr. nth_opt arr 0)) (\<lambda>e. json_get e ''text'')) as_str) ''Adaptive Card''"

definition reply_text :: "json \<Rightarrow> string option" where
  "reply_text v = opt_or (opt_or
      (Option.bind (Option.bind (json_get v ''payload'') (\<lambda>p. json_get p ''text'')) as_str)
      (Option.bind (json_get v ''text'') as_str)) (as_str v)"

definition parse_envelopes :: "('w, 'm) egress_env \<Rightarrow> json \<Rightarrow> 'm \<Rightarrow> (egress_error, 'm list) result" where
  "parse_envelopes env v ingress =
     (case as_array v of
        Some vs \<Rightarrow> parse_envelope_array env vs
      | None \<Rightarrow>
          (case Option.bind (json_get v ''events'') as_array of
             Some vs \<Rightarrow> parse_envelope_array env vs
           | None \<Rightarrow>
               (case json_get v ''message'' of
                  Some m \<Rightarrow> map_err EnvelopeInvalid (rbind (ge_of_value env m) (\<lambda>x. Inr [x]))
                | None \<Rightarrow>
                    (case opt_filter (\<lambda>c. \<not> is_null c) (json_get v ''renderedCard'') of
                       Some crd \<Rightarrow>
                         Inr [ge_set_metadata env ''adaptive_card'' (ge_json_string env crd)
                                (ge_set_text env (card_title crd) ingress)]
                     | None \<Rightarrow>
                         (case reply_text v of
                            Some t \<Rightarrow> Inr [ge_set_text env t ingress]
                          | None \<Rightarrow> Inl NoEnvelopes)))))"

definition run_app_flow ::
  "('w, 'm) egress_env \<Rightarrow> path \<Rightarrow> operator_context \<Rightarrow> path \<Rightarrow> string \<Rightarrow> string \<Rightarrow> 'm \<Rightarrow> 'w
     \<Rightarrow> (egress_error, 'm list) result \<times> 'w" where
  "run_app_flow env bundle_dir ctx pack_path pack_id flow_id m w =
     (case ge_run_flow env
             \<lparr>rq_root = bundle_dir, rq_domain = Messaging, rq_pack_path = pack_path, rq_pack_label = pack_id,
              rq_flow_id = flow_id, rq_tenant = oc_tenant ctx, rq_team = oc_team ctx,
              rq_input = JObj [(''message'', ge_to_value env m), (''tenant'', JStr (oc_tenant ctx)),
                               (''team'', opt_str (oc_team ctx)), (''correlation_id'', opt_str (oc_correlation_id ctx))]\<rparr> w of
        (Inl e, w') \<Rightarrow> (Inl (AppFlowFailed e), w')
      | (Inr transcript, w') \<Rightarrow>
          (rbind (ok_or NoAppOutputs (collect_transcript_outputs env transcript
                    (opt_or (ge_metadata env m ''routeToCardId'') (ge_metadata env m ''toCardId''))))
             (\<lambda>v. parse_envelopes env v m), w'))"

section \<open>Node errors\<close>

record node_error =
  ne_code :: string
  ne_message :: string
  ne_retryable :: bool
  ne_backoff_ms :: "nat option"
  ne_details :: "json option"

text \<open>An optional typed field: absent or null, of the right type, or a decoding error.\<close>

definition typed_field :: "(json \<Rightarrow> 'a option) \<Rightarrow> (string \<times> json) list \<Rightarrow> string \<Rightarrow> 'a option option" where
  "typed_field conv obj k =
     (case map_of obj k of
        None \<Rightarrow> Some None
      | Some v \<Rightarrow> if is_null v then Some None else map_option Some (conv v))"

definition parse_json_node_error :: "('w, 'm) egress_env \<Rightarrow> string \<Rightarrow> node_error option" where
  "parse_json_node_error env text =
     Option.bind (let rest = dropWhile (\<lambda>c. c \<noteq> CHR ''{'') (trim text) in if rest = [] then None else Some rest) (\<lambda>candidate.
     Option.bind (Option.bind (ge_parse_json env candidate) as_object) (\<lambda>obj.
     Option.bind (typed_field as_str obj ''code'') (\<lambda>code.
     Option.bind (typed_field as_str obj ''message'') (\<lambda>message.
     Option.bind (typed_field as_bool obj ''retryable'') (\<lambda>retryable.
     Option.bind (typed_field as_u64 obj ''backoff-ms'') (\<lambda>backoff.
     Option.bind (typed_field Some obj ''details'') (\<lambda>details.
       Some \<lparr>ne_code = opt_unwrap_or code ''node-error'', ne_message = opt_unwrap_or message text,
             ne_retryable = opt_unwrap_or retryable False, ne_backoff_ms = backoff, ne_details = details\<rparr>)))))))"

definition parse_node_error :: "('w, 'm) egress_env \<Rightarrow> flow_outcome \<Rightarrow> node_error" where
  "parse_node_error env out =
     (let raw = opt_or (oo_error out) (oo_raw out) in
      case Option.bind raw (parse_json_node_error env) of
        Some e \<Rightarrow> e
      | None \<Rightarrow> \<lparr>ne_code = ''node-error'', ne_message = opt_unwrap_or raw ''unknown node error'',
                 ne_retryable = False, ne_backoff_ms = None, ne_details = None\<rparr>)"

definition node_error_json :: "node_error \<Rightarrow> json" where
  "node_error_json e =
     JObj [(''code'', JStr (ne_code e)), (''message'', JStr (ne_message e)), (''retryable'', JBool (ne_retryable e)),
           (''backoff_ms'', case ne_backoff_ms e of None \<Rightarrow> JNull | Some n \<Rightarrow> JInt (int n)),
           (''details'', opt_unwrap_or (ne_details e) JNull)]"

definition build_dlq_entry ::
  "string \<Rightarrow> string \<Rightarrow> string \<Rightarrow> string \<Rightarrow> string option \<Rightarrow> string option \<Rightarrow> string option \<Rightarrow> 32 word \<Rightarrow> 32 word
     \<Rightarrow> json \<Rightarrow> json \<Rightarrow> json" where
  "build_dlq_entry ts job_id provider tenant team session correlation attempt max_attempts err summary =
     JObj [(''ts'', JStr ts), (''job_id'', JStr job_id), (''provider'', JStr provider), (''tenant'', JStr tenant),
           (''team'', opt_str team), (''session_id'', opt_str session), (''correlation_id'', opt_str correlation),
           (''attempt'', JInt (uint attempt)), (''max_attempts'', JInt (uint max_attempts)),
           (''node_error'', err), (''message_summary'', summary)]"

section \<open>Delivering one envelope\<close>

definition egress_ensure_success :: "flow_outcome \<Rightarrow> string \<Rightarrow> string \<Rightarrow> (egress_error, flow_outcome) result" where
  "egress_ensure_success out provider op =
     (if oo_success out then Inr out
      else Inl (ProviderOpFailed provider op (opt_unwrap_or (oo_error out) ''unknown error'')))"

definition invoke_flow ::
  "('w, 'm) egress_env \<Rightarrow> operator_context \<Rightarrow> string \<Rightarrow> string \<Rightarrow> json \<Rightarrow> 'w \<Rightarrow> (egress_error, flow_outcome) result \<times> 'w" where
  "invoke_flow env ctx provider op payload w =
     (case ge_invoke env provider op payload ctx w of (r, w') \<Rightarrow> (map_err ProviderInvokeFailed r, w'))"

definition render_plan ::
  "('w, 'm) egress_env \<Rightarrow> operator_context \<Rightarrow> string \<Rightarrow> json \<Rightarrow> 'w \<Rightarrow> (egress_error, json) result \<times> 'w" where
  "render_plan env ctx provider message w =
     (case invoke_flow env ctx provider ''render_plan'' (JObj [(''v'', JInt 1), (''message'', message)]) w of
        (r, w') \<Rightarrow> (rbind r (\<lambda>out. rbind (egress_ensure_success out provider ''render_plan'')
                     (\<lambda>ok. Inr (opt_unwrap_or (oo_output ok) (JObj [])))), w'))"

definition encode_payload ::
  "('w, 'm) egress_env \<Rightarrow> operator_context \<Rightarrow> string \<Rightarrow> json \<Rightarrow> json \<Rightarrow> 'w
     \<Rightarrow> (egress_error, provider_payload) result \<times> 'w" where
  "encode_payload env ctx provider message plan w =
     (case invoke_flow env ctx provider ''encode''
             (JObj [(''v'', JInt 1), (''message'', message), (''plan'', plan)]) w of
        (r, w') \<Rightarrow> (rbind r (\<lambda>out. rbind (egress_ensure_success out provider ''encode'') (\<lambda>ok.
                     let v = opt_unwrap_or (oo_output ok) (JObj []) in
                     map_err PayloadUnreadable (ge_payload_of env (opt_unwrap_or (json_get v ''payload'') v)))), w'))"

definition opt_member :: "string \<Rightarrow> json option \<Rightarrow> (string \<times> json) list" where
  "opt_member k v = (case v of None \<Rightarrow> [] | Some x \<Rightarrow> [(k, x)])"

definition send_input :: "('w, 'm) egress_env \<Rightarrow> operator_context \<Rightarrow> string \<Rightarrow> provider_payload \<Rightarrow> json" where
  "send_input env ctx provider p =
     JObj [(''v'', JInt 1), (''provider_type'', JStr (ge_canonical_type env provider)),
           (''payload'', JObj ([(''content_type'', JStr (py_content_type p)), (''body_b64'', JStr (py_body_b64 p))]
              @ opt_member ''metadata_json'' (map_option JStr (py_metadata_json p))
              @ opt_member ''metadata'' (py_metadata p))),
           (''tenant'', JObj ([(''tenant'', JStr (oc_tenant ctx))]
              @ opt_member ''team'' (map_option JStr (oc_team ctx))
              @ opt_member ''correlation_id'' (map_option JStr (oc_correlation_id ctx))))]"

definition fallback_payload :: "('w, 'm) egress_env \<Rightarrow> json \<Rightarrow> provider_payload" where
  "fallback_payload env message =
     \<lparr>py_content_type = ''application/json'', py_body_b64 = ge_b64_text env (ge_json_string env message),
      py_metadata_json = Some (ge_json_string env message), py_metadata = None\<rparr>"

text \<open>One pass of the loop up to the send: render, encode (with the fallback payload), send.
  \<open>None\<close> is the dry run, which leaves the loop without sending.\<close>

definition attempt_send ::
  "('w, 'm) egress_env \<Rightarrow> operator_context \<Rightarrow> string \<Rightarrow> bool \<Rightarrow> json \<Rightarrow> 'm egress_job \<Rightarrow> 'w
     \<Rightarrow> (egress_error, flow_outcome option \<times> 'm egress_job) result \<times> 'w" where
  "attempt_send env ctx provider sending message job w =
     (case render_plan env ctx provider message w of
        (Inl e, w1) \<Rightarrow> (Inl e, w1)
      | (Inr plan, w1) \<Rightarrow>
          (let job1 = with_plan plan job in
           case encode_payload env ctx provider message plan w1 of
             (enc, w2) \<Rightarrow>
               let payload = (case enc of Inr p \<Rightarrow> p | Inl _ \<Rightarrow> fallback_payload env message) in
               if \<not> sending then (Inr (None, job1), w2)
               else
                 (case invoke_flow env ctx provider ''send_payload'' (send_input env ctx provider payload) w2 of
                    (r, w3) \<Rightarrow> (rbind r (\<lambda>out. Inr (Some out, job1)), w3))))"

definition retry_delay ::
  "('w, 'm) egress_env \<Rightarrow> retry_policy \<Rightarrow> node_error \<Rightarrow> 'm egress_job \<Rightarrow> 'w \<Rightarrow> nat \<times> 'w" where
  "retry_delay env policy err job w =
     (case ne_backoff_ms err of
        Some ms \<Rightarrow> (ms, w)
      | None \<Rightarrow> (case ge_jitter env (rp_jitter_ms policy) w of
                   (j, w') \<Rightarrow> (delay_with_jitter policy (unat (ej_attempt job)) j, w')))"

definition dead_letter_entry ::
  "('w, 'm) egress_env \<Rightarrow> operator_context \<Rightarrow> string \<Rightarrow> node_error \<Rightarrow> 'm egress_job \<Rightarrow> 'w \<Rightarrow> json" where
  "dead_letter_entry env ctx provider err job w =
     build_dlq_entry (ge_timestamp env w) (ej_job_id job) provider (oc_tenant ctx) (oc_team ctx) None
       (oc_correlation_id ctx) (ej_attempt job) (ej_max_attempts job) (node_error_json err)
       (ge_summary env (ej_envelope job))"

lemma attempt_send_job:
  "attempt_send env ctx provider sending message job w = (Inr (x, job'), w') \<Longrightarrow>
     ej_attempt job' = ej_attempt job \<and> ej_max_attempts job' = ej_max_attempts job \<and> ej_job_id job' = ej_job_id job
     \<and> ej_envelope job' = ej_envelope job \<and> (x = None \<longleftrightarrow> \<not> sending)"
  by (auto simp: attempt_send_def with_plan_def Let_def result_iff split: prod.splits sum.splits if_splits)

lemma sat_inc_less:
  assumes "sat_inc a < b"
  shows "unat (sat_inc a) = unat a + 1" "unat a + 1 < unat b"
proof -
  have ne: "a \<noteq> - 1"
  proof
    assume "a = - 1"
    then have "sat_inc a = - 1" by (simp add: sat_inc_def)
    then show False using assms by (metis word_order.extremum_strict)
  qed
  then have "a + 1 \<noteq> 0" by (simp add: eq_neg_iff_add_eq_0)
  then have "unat (a + 1) = unat a + 1" using unatSuc [of a] by (simp add: add.commute)
  then show "unat (sat_inc a) = unat a + 1" using ne by (simp add: sat_inc_def)
  then show "unat a + 1 < unat b" using assms by (simp add: word_less_nat_alt)
qed

lemma attempt_left:
  assumes "attempt_send env ctx provider sending message (increment_attempt job) w = (Inr (x, job'), w')"
    and "\<not> ej_max_attempts (record_error e job') \<le> ej_attempt (record_error e job')"
  shows "unat (ej_attempt (schedule_next n d (record_error e job'))) = unat (ej_attempt job) + 1"
    "ej_max_attempts (schedule_next n d (record_error e job')) = ej_max_attempts job"
    "unat (ej_attempt job) + 1 < unat (ej_max_attempts job)"
proof -
  have j: "ej_attempt job' = sat_inc (ej_attempt job)" "ej_max_attempts job' = ej_max_attempts job"
    using attempt_send_job [OF assms(1)] by (simp_all add: increment_attempt_def)
  then have "sat_inc (ej_attempt job) < ej_max_attempts job" using assms(2) by (simp add: record_error_def)
  from sat_inc_less [OF this] j
  show "unat (ej_attempt (schedule_next n d (record_error e job'))) = unat (ej_attempt job) + 1"
    "ej_max_attempts (schedule_next n d (record_error e job')) = ej_max_attempts job"
    "unat (ej_attempt job) + 1 < unat (ej_max_attempts job)"
    by (simp_all add: schedule_next_def record_error_def)
qed

lemma attempt_measure:
  assumes "(Inr b, w) = attempt_send env ctx provider sending message (increment_attempt job) w0"
    and "(Some out, job') = b"
    and "\<not> (ej_max_attempts (record_error e job') \<le> ej_attempt (record_error e job') \<or> \<not> r)"
  shows "unat (ej_max_attempts (schedule_next n d (record_error e job')))
      - unat (ej_attempt (schedule_next n d (record_error e job')))
    < unat (ej_max_attempts job) - unat (ej_attempt job)"
proof -
  have "attempt_send env ctx provider sending message (increment_attempt job) w0 = (Inr (Some out, job'), w)"
    using assms(1,2) by simp
  note left = attempt_left [OF this]
  have "\<not> ej_max_attempts (record_error e job') \<le> ej_attempt (record_error e job')" using assms(3) by simp
  then show ?thesis
    using left(1) [where e = e and n = n and d = d] left(2) [where e = e and n = n and d = d] left(3) [where e = e]
    by simp
qed

text \<open>The loop.\<close>

function deliver_loop ::
  "('w, 'm) egress_env \<Rightarrow> operator_context \<Rightarrow> string \<Rightarrow> retry_policy \<Rightarrow> bool \<Rightarrow> json \<Rightarrow> 'm egress_job
     \<Rightarrow> 'w egress_state \<Rightarrow> (egress_error, unit) result \<times> 'w egress_state" where
  "deliver_loop env ctx provider policy sending message job st =
     (let job1 = increment_attempt job in
      case attempt_send env ctx provider sending message job1 (gs_world st) of
        (Inl e, w) \<Rightarrow> (Inl e, st\<lparr>gs_world := w\<rparr>)
      | (Inr (None, job2), w) \<Rightarrow> (Inr (), st\<lparr>gs_world := w\<rparr>)
      | (Inr (Some out, job2), w) \<Rightarrow>
          if oo_success out then (Inr (), st\<lparr>gs_world := w\<rparr>)
          else
            (let err = parse_node_error env out;
                 job3 = record_error (ne_message err) job2
             in if ej_attempt job3 \<ge> ej_max_attempts job3 \<or> \<not> ne_retryable err
                then (if ge_append_ok env w
                      then (Inr (), st\<lparr>gs_world := w,
                              gs_dlq := gs_dlq st @ [dead_letter_entry env ctx provider err job3 w]\<rparr>)
                      else (Inl DlqWriteFailed, st\<lparr>gs_world := w\<rparr>))
                else
                  (case retry_delay env policy err job3 w of
                     (delay, w') \<Rightarrow>
                       deliver_loop env ctx provider policy sending message
                         (schedule_next (ge_now env w') delay job3)
                         (st\<lparr>gs_world := ge_sleep env delay w'\<rparr>))))"
  by pat_completeness auto
termination
  apply (relation "measure (\<lambda>(env, ctx, provider, policy, sending, message, job, st).
    unat (ej_max_attempts job) - unat (ej_attempt job))")
   apply simp
  apply (simp only: in_measure prod.case)
  apply (rule attempt_measure)
    apply assumption+
  done

declare deliver_loop.simps [simp del]

section \<open>The pipeline\<close>

text \<open>The application flow on every envelope; an envelope without outputs passes through.\<close>

fun process_envelopes ::
  "('w, 'm) egress_env \<Rightarrow> path \<Rightarrow> operator_context \<Rightarrow> path \<Rightarrow> string \<Rightarrow> string \<Rightarrow> 'm list \<Rightarrow> 'w
     \<Rightarrow> (egress_error, 'm list) result \<times> 'w" where
  "process_envelopes env bundle_dir ctx pack_path pack_id flow_id [] w = (Inr [], w)"
| "process_envelopes env bundle_dir ctx pack_path pack_id flow_id (m # ms) w =
     (case run_app_flow env bundle_dir ctx pack_path pack_id flow_id m w of
        (Inl e, w1) \<Rightarrow> (Inl e, w1)
      | (Inr outs, w1) \<Rightarrow>
          (case process_envelopes env bundle_dir ctx pack_path pack_id flow_id ms w1 of
             (Inl e, w2) \<Rightarrow> (Inl e, w2)
           | (Inr rest, w2) \<Rightarrow> (Inr ((if outs = [] then [m] else outs) @ rest), w2)))"

definition deliver_envelope ::
  "('w, 'm) egress_env \<Rightarrow> operator_context \<Rightarrow> string \<Rightarrow> retry_policy \<Rightarrow> bool \<Rightarrow> 'm \<Rightarrow> 'w egress_state
     \<Rightarrow> (egress_error, unit) result \<times> 'w egress_state" where
  "deliver_envelope env ctx provider policy sending m st =
     (case ge_uuid env (gs_world st) of (job_id, w) \<Rightarrow>
        deliver_loop env ctx provider policy sending (ge_to_value env m)
          (new_job job_id (ge_now env w) provider m (rp_max_attempts policy)) (st\<lparr>gs_world := w\<rparr>))"

fun deliver_envelopes ::
  "('w, 'm) egress_env \<Rightarrow> operator_context \<Rightarrow> string \<Rightarrow> retry_policy \<Rightarrow> bool \<Rightarrow> 'm list \<Rightarrow> 'w egress_state
     \<Rightarrow> (egress_error, unit) result \<times> 'w egress_state" where
  "deliver_envelopes env ctx provider policy sending [] st = (Inr (), st)"
| "deliver_envelopes env ctx provider policy sending (m # ms) st =
     (case deliver_envelope env ctx provider policy sending m st of
        (Inl e, st1) \<Rightarrow> (Inl e, st1)
      | (Inr _, st1) \<Rightarrow> deliver_envelopes env ctx provider policy sending ms st1)"

definition policy_for :: "32 word \<Rightarrow> retry_policy" where
  "policy_for retries = default_policy\<lparr>rp_max_attempts := max (sat_inc retries) 1\<rparr>"

definition run_end_to_end ::
  "('w, 'm) egress_env \<Rightarrow> 'm list \<Rightarrow> string \<Rightarrow> path \<Rightarrow> operator_context \<Rightarrow> string option \<Rightarrow> bool \<Rightarrow> bool \<Rightarrow> 32 word
     \<Rightarrow> 'w egress_state \<Rightarrow> (egress_error, unit) result \<times> 'w egress_state" where
  "run_end_to_end env envelopes provider bundle_dir ctx app_pack send_flag dry_run retries st =
     (if envelopes = [] then (Inr (), st)
      else
        (case rbind (resolve_app_pack_path env bundle_dir (oc_tenant ctx) (oc_team ctx) app_pack) (\<lambda>p.
              rbind (load_app_pack_info env p) (\<lambda>info.
              rbind (select_app_flow info) (\<lambda>fl. Inr (p, info, fl)))) of
           Inl e \<Rightarrow> (Inl e, st)
         | Inr (p, info, fl) \<Rightarrow>
             (case process_envelopes env bundle_dir ctx p (ap_pack_id info) (af_id fl) envelopes (gs_world st) of
                (Inl e, w) \<Rightarrow> (Inl e, st\<lparr>gs_world := w\<rparr>)
              | (Inr processed, w) \<Rightarrow>
                  (case map_err HostUnavailable (ge_host env w) of
                     Inl e \<Rightarrow> (Inl e, st\<lparr>gs_world := w\<rparr>)
                   | Inr _ \<Rightarrow>
                       deliver_envelopes env ctx provider (policy_for retries) (send_flag \<and> \<not> dry_run) processed
                         (st\<lparr>gs_world := w\<rparr>)))))"

section \<open>Delivery lemmas\<close>

text \<open>An observation of the world that counts the invocations of \<open>send_payload\<close>.\<close>

definition counts_sends :: "('w, 'm) egress_env \<Rightarrow> ('w \<Rightarrow> nat) \<Rightarrow> bool" where
  "counts_sends env c \<longleftrightarrow>
     (\<forall>provider op v ctx w. c (snd (ge_invoke env provider op v ctx w)) = c w + (if op = ''send_payload'' then 1 else 0))
     \<and> (\<forall>w. c (snd (ge_uuid env w)) = c w) \<and> (\<forall>n w. c (snd (ge_jitter env n w)) = c w)
     \<and> (\<forall>d w. c (ge_sleep env d w) = c w)"

lemma invoke_flow_count:
  assumes "counts_sends env c"
  shows "c (snd (invoke_flow env ctx provider op payload w)) = c w + (if op = ''send_payload'' then 1 else 0)"
  using assms by (simp add: counts_sends_def invoke_flow_def case_prod_unfold)

lemma render_plan_count:
  assumes "counts_sends env c"
  shows "c (snd (render_plan env ctx provider message w)) = c w"
  using invoke_flow_count [OF assms, of ctx provider "''render_plan''"] by (simp add: render_plan_def case_prod_unfold)

lemma encode_payload_count:
  assumes "counts_sends env c"
  shows "c (snd (encode_payload env ctx provider message plan w)) = c w"
  using invoke_flow_count [OF assms, of ctx provider "''encode''"] by (simp add: encode_payload_def case_prod_unfold)

lemma attempt_send_count:
  assumes "counts_sends env c" "attempt_send env ctx provider sending message job w = (r, w')"
  shows "c w \<le> c w' \<and> c w' \<le> c w + (if sending then 1 else 0)
     \<and> (\<forall>out job'. r = Inr (Some out, job') \<longrightarrow> c w' = c w + 1)"
proof -
  obtain rp w1 where p: "render_plan env ctx provider message w = (rp, w1)" by force
  have w1: "c w1 = c w" using render_plan_count [OF assms(1), of ctx provider message w] p by simp
  show ?thesis
  proof (cases rp)
    case (Inl e)
    then show ?thesis using assms(2) p w1 by (auto simp: attempt_send_def)
  next
    case (Inr plan)
    obtain enc w2 where e: "encode_payload env ctx provider message plan w1 = (enc, w2)" by force
    have w2: "c w2 = c w" using encode_payload_count [OF assms(1), of ctx provider message plan w1] e w1 by simp
    let ?send = "\<lambda>p. invoke_flow env ctx provider ''send_payload'' (send_input env ctx provider p) w2"
    have send: "c (snd (?send p)) = c w + 1" for p using invoke_flow_count [OF assms(1)] w2 by simp
    show ?thesis
    proof (cases sending)
      case True
      then obtain p where "w' = snd (?send p)"
        using assms(2) p e Inr by (simp add: attempt_send_def Let_def case_prod_unfold) blast
      then show ?thesis using send True by simp
    next
      case False
      then show ?thesis using assms(2) p e Inr w2 by (auto simp: attempt_send_def Let_def)
    qed
  qed
qed

lemma retry_delay_count:
  "counts_sends env c \<Longrightarrow> c (snd (retry_delay env policy err job w)) = c w"
  by (simp add: retry_delay_def counts_sends_def case_prod_unfold split: option.split)

text \<open>What a delivery may do: at most one dead letter, a bounded number of sends.\<close>

definition delivery_ok ::
  "('w \<Rightarrow> nat) \<Rightarrow> bool \<Rightarrow> nat \<Rightarrow> 'w egress_state \<Rightarrow> (egress_error, unit) result \<Rightarrow> 'w egress_state \<Rightarrow> bool" where
  "delivery_ok c sending left st r st' \<longleftrightarrow>
     (\<exists>new. gs_dlq st' = gs_dlq st @ new \<and> length new \<le> 1
        \<and> c (gs_world st') \<le> c (gs_world st) + (if sending then left else 0) \<and> c (gs_world st) \<le> c (gs_world st')
        \<and> (\<not> sending \<longrightarrow> new = []) \<and> (isl r \<longrightarrow> new = [])
        \<and> (\<not> isl r \<and> sending \<longrightarrow> c (gs_world st) < c (gs_world st')))"

lemma delivery_ok_later:
  assumes "delivery_ok c True left' st1 r st'" "left' + 1 \<le> left" "gs_dlq st1 = gs_dlq st"
    "c (gs_world st1) = c (gs_world st) + 1"
  shows "delivery_ok c True left st r st'"
  using assms by (auto simp: delivery_ok_def)

lemma sat_inc_pos: "unat a < unat (b :: 32 word) \<Longrightarrow> unat (sat_inc a) = unat a + 1"
proof -
  assume "unat a < unat (b :: 32 word)"
  then have "a < b" by (simp add: word_less_nat_alt)
  then have "a \<noteq> - 1" by (metis word_order.extremum_strict)
  then have "a + 1 \<noteq> 0" by (simp add: eq_neg_iff_add_eq_0)
  then show ?thesis using \<open>a \<noteq> - 1\<close> unatSuc [of a] by (simp add: sat_inc_def add.commute)
qed

lemma deliver_loop_ok:
  assumes "deliver_loop env ctx provider policy sending message job st = (r, st')"
    and "unat (ej_attempt job) < unat (ej_max_attempts job)"
    and "counts_sends env c"
  shows "delivery_ok c sending (unat (ej_max_attempts job) - unat (ej_attempt job)) st r st'"
  using assms
proof (induction env ctx provider policy sending message job st rule: deliver_loop.induct)
  case (1 env ctx provider policy sending message job st)
  let ?left = "unat (ej_max_attempts job) - unat (ej_attempt job)"
  obtain x w where send: "attempt_send env ctx provider sending message (increment_attempt job) (gs_world st) = (x, w)"
    by force
  note run = "1.prems"(1) [unfolded deliver_loop.simps [of env ctx provider policy sending message job st] Let_def send]
  note count = attempt_send_count [OF "1.prems"(3) send]
  show ?case
  proof (cases x)
    case (Inl e)
    then show ?thesis using run count "1.prems"(2) by (auto simp: delivery_ok_def split: if_splits)
  next
    case (Inr y)
    obtain o_out job2 where y: "y = (o_out, job2)" by force
    note keep = attempt_send_job [OF send [unfolded Inr y]]
    show ?thesis
    proof (cases o_out)
      case None
      then show ?thesis using run Inr y keep count by (auto simp: delivery_ok_def)
    next
      case (Some out)
      then have sending: "sending" and sent: "c w = c (gs_world st) + 1" using keep count Inr y by auto
      let ?err = "parse_node_error env out"
      let ?job3 = "record_error (ne_message ?err) job2"
      show ?thesis
      proof (cases "oo_success out \<or> ej_max_attempts ?job3 \<le> ej_attempt ?job3 \<or> \<not> ne_retryable ?err")
        case True
        then show ?thesis using run Inr y Some sending sent "1.prems"(2)
          by (auto simp: delivery_ok_def split: if_splits)
      next
        case False
        obtain delay w' where rd: "retry_delay env policy ?err ?job3 w = (delay, w')" by force
        let ?job4 = "schedule_next (ge_now env w') delay ?job3"
        let ?st = "st\<lparr>gs_world := ge_sleep env delay w'\<rparr>"
        have slept: "c (gs_world ?st) = c (gs_world st) + 1"
          using retry_delay_count [OF "1.prems"(3), of policy ?err ?job3 w] rd sent "1.prems"(3)
          by (simp add: counts_sends_def)
        have next_run: "deliver_loop env ctx provider policy sending message ?job4 ?st = (r, st')"
          using run Inr y Some False rd by simp
        have f: "\<not> ej_max_attempts ?job3 \<le> ej_attempt ?job3" using False by simp
        note left = attempt_left [OF send [unfolded Inr y] f]
        have h: "(Inr y, w) = attempt_send env ctx provider sending message (increment_attempt job) (gs_world st)"
          "(Some out, job2) = y" "\<not> oo_success out"
          "\<not> (ej_max_attempts ?job3 \<le> ej_attempt ?job3 \<or> \<not> ne_retryable ?err)"
          "(delay, w') = retry_delay env policy ?err ?job3 w"
          using send Inr y Some False rd by simp_all
        have "unat (ej_attempt ?job4) < unat (ej_max_attempts ?job4)" using left by simp
        from "1.IH" [OF refl h(1) refl h(2) refl h(3) refl refl h(4,5) next_run this "1.prems"(3)]
        have ih: "delivery_ok c sending (unat (ej_max_attempts ?job4) - unat (ej_attempt ?job4)) ?st r st'" .
        show ?thesis
          using delivery_ok_later [of c "unat (ej_max_attempts ?job4) - unat (ej_attempt ?job4)" ?st r st' ?left st]
            ih sending left slept by simp
      qed
    qed
  qed
qed

section \<open>Backoff\<close>

lemma sat_mul_mono: "a \<le> b \<Longrightarrow> sat_mul c a \<le> sat_mul c b"
  unfolding sat_mul_def by (intro min.mono) simp_all

lemma backoff_mono: "a \<le> b \<Longrightarrow> backoff_ms p a \<le> backoff_ms p b"
proof -
  assume "a \<le> b"
  then have "(2 :: nat) ^ min (a - 1) 63 \<le> 2 ^ min (b - 1) 63"
    by (intro power_increasing) auto
  then show ?thesis unfolding backoff_ms_def by (intro min.mono sat_mul_mono) simp_all
qed

section \<open>Properties\<close>

text \<open>Messages are strings; the world is the list of send outcomes still to come (retryable
  failures or success), the delays slept so far and the number of sends.\<close>

definition sample_egress_env :: "(bool list \<times> nat list \<times> nat, string) egress_env" where
  "sample_egress_env =
     \<lparr>ge_exists = (\<lambda>_. True), ge_manifest = (\<lambda>_. Inl ''''), ge_run_flow = (\<lambda>_ w. (Inr None, w)),
      ge_parse_json = (\<lambda>_. Some (JObj [(''retryable'', JBool True)])), ge_json_string = (\<lambda>_. []),
      ge_b64_text = (\<lambda>s. s), ge_of_value = (\<lambda>_. Inr []), ge_to_value = (\<lambda>m. JStr m),
      ge_metadata = (\<lambda>_ _. None), ge_set_text = (\<lambda>t m. t), ge_set_metadata = (\<lambda>_ _ m. m), ge_summary = (\<lambda>m. JStr m),
      ge_payload_of = (\<lambda>_. Inl ''no payload''),
      ge_invoke = (\<lambda>p op v ctx (outs, slept, sent).
        if op = ''send_payload'' then
          (case outs of
             [] \<Rightarrow> (Inr \<lparr>oo_success = True, oo_output = None, oo_error = None, oo_raw = None\<rparr>, ([], slept, sent + 1))
           | b # bs \<Rightarrow> (Inr \<lparr>oo_success = b, oo_output = None, oo_error = Some ''{}'', oo_raw = None\<rparr>, (bs, slept, sent + 1)))
        else (Inr \<lparr>oo_success = True, oo_output = None, oo_error = None, oo_raw = None\<rparr>, (outs, slept, sent))),
      ge_canonical_type = (\<lambda>p. p), ge_host = (\<lambda>_. Inr ()), ge_uuid = (\<lambda>w. (''job'', w)), ge_jitter = (\<lambda>_ w. (0, w)),
      ge_sleep = (\<lambda>d (outs, slept, sent). (outs, slept @ [d], sent)), ge_now = (\<lambda>_. 0), ge_timestamp = (\<lambda>_. ''now''),
      ge_append_ok = (\<lambda>_. True)\<rparr>"

definition sample_policy :: retry_policy where
  "sample_policy = \<lparr>rp_max_attempts = 3, rp_base_delay_ms = 2, rp_max_delay_ms = 3, rp_jitter_ms = 0\<rparr>"

definition sample_delivery :: "bool list \<Rightarrow> (egress_error, unit) result \<times> (bool list \<times> nat list \<times> nat) egress_state" where
  "sample_delivery outs = deliver_envelope sample_egress_env sample_ctx ''telegram'' sample_policy True ''hi''
     \<lparr>gs_dlq = [], gs_world = (outs, [], 0)\<rparr>"

text \<open>
  C26: delivering an envelope always ends. Counted in the invocations of \<open>send_payload\<close>, it
  sends at most \<open>max(1, max_attempts)\<close> times, whether it succeeds or fails, at least once when
  it succeeds, and never in a dry run; it appends at most one dead letter, and none in a dry
  run or when it ends with an error.
\<close>

theorem envelope_delivery_bounded:
  assumes "deliver_envelope env ctx provider policy sending m st = (r, st')" and "counts_sends env c"
  shows "\<exists>new. gs_dlq st' = gs_dlq st @ new \<and> length new \<le> 1
     \<and> c (gs_world st) \<le> c (gs_world st')
     \<and> c (gs_world st') \<le> c (gs_world st) + (if sending then unat (max (rp_max_attempts policy) 1) else 0)
     \<and> (\<not> sending \<longrightarrow> new = []) \<and> (isl r \<longrightarrow> new = [])
     \<and> (\<not> isl r \<and> sending \<longrightarrow> c (gs_world st) < c (gs_world st'))"
proof -
  obtain job_id w where u: "ge_uuid env (gs_world st) = (job_id, w)" by force
  let ?job = "new_job job_id (ge_now env w) provider m (rp_max_attempts policy)"
  have "(0 :: 32 word) < 1" by simp
  also have "1 \<le> max (rp_max_attempts policy) 1" by simp
  finally have "0 < max (rp_max_attempts policy) 1" .
  then have "unat (ej_attempt ?job) < unat (ej_max_attempts ?job)"
    by (simp add: new_job_def word_less_nat_alt)
  moreover have "deliver_loop env ctx provider policy sending (ge_to_value env m) ?job (st\<lparr>gs_world := w\<rparr>) = (r, st')"
    using assms(1) u by (simp add: deliver_envelope_def)
  ultimately have "delivery_ok c sending (unat (ej_max_attempts ?job) - unat (ej_attempt ?job)) (st\<lparr>gs_world := w\<rparr>) r st'"
    using deliver_loop_ok assms(2) by blast
  moreover have "c w = c (gs_world st)" using assms(2) u unfolding counts_sends_def by (metis snd_conv)
  ultimately show ?thesis by (cases sending) (auto simp: delivery_ok_def new_job_def)
qed

lemma sample_node_error:
  "parse_node_error sample_egress_env \<lparr>oo_success = False, oo_output = None, oo_error = Some ''{}'', oo_raw = None\<rparr>
     = \<lparr>ne_code = ''node-error'', ne_message = ''{}'', ne_retryable = True, ne_backoff_ms = None, ne_details = None\<rparr>"
  by code_simp

lemma sample_attempt:
  "attempt_send sample_egress_env sample_ctx provider True message job (b # bs, slept, sent)
     = (Inr (Some \<lparr>oo_success = b, oo_output = None, oo_error = Some ''{}'', oo_raw = None\<rparr>, with_plan (JObj []) job), (bs, slept, sent + 1))"
  by (simp add: attempt_send_def render_plan_def encode_payload_def invoke_flow_def egress_ensure_success_def
      sample_egress_env_def Let_def)

lemma sample_delays:
  "delay_with_jitter sample_policy (Suc 0) 0 = 2" "delay_with_jitter sample_policy 2 0 = 3"
  by (simp_all add: delay_with_jitter_def backoff_ms_def sat_mul_def sat_add_def u64_max_def sample_policy_def)

lemma sample_three_tries: "\<not> (3 :: 32 word) \<le> 1"
  by (simp add: word_le_nat_alt)

lemma sample_delivery_run:
  "length (gs_dlq (snd (sample_delivery [False, False, False, True]))) = 1"
  "gs_world (snd (sample_delivery [False, False, False, True])) = ([True], [2, 3], 3)"
  unfolding sample_delivery_def deliver_envelope_def
  by (simp_all add: deliver_loop.simps sample_attempt sample_node_error retry_delay_def sample_delays sample_three_tries
      increment_attempt_def sat_inc_def new_job_def with_plan_def record_error_def schedule_next_def Let_def
      sample_egress_env_def [THEN arg_cong, of ge_uuid] sample_egress_env_def [THEN arg_cong, of ge_now]
      sample_egress_env_def [THEN arg_cong, of ge_jitter] sample_egress_env_def [THEN arg_cong, of ge_sleep]
      sample_egress_env_def [THEN arg_cong, of ge_append_ok] sample_policy_def [THEN arg_cong, of rp_jitter_ms]
      sample_policy_def [THEN arg_cong, of rp_max_attempts])

lemma sample_counts: "counts_sends sample_egress_env (\<lambda>(outs, slept, sent). sent)"
  by (simp add: counts_sends_def sample_egress_env_def split: list.split prod.split)

theorem envelope_delivery_bounded_witness:
  "let st = snd (sample_delivery [False, False, False, True])
   in length (gs_dlq st) = 1 \<and> gs_world st = ([True], [2, 3], 3) \<and> 3 \<le> unat (max (rp_max_attempts sample_policy) 1)"
proof -
  have r: "deliver_envelope sample_egress_env sample_ctx ''telegram'' sample_policy True ''hi''
     \<lparr>gs_dlq = [], gs_world = ([False, False, False, True], [], 0)\<rparr>
     = (fst (sample_delivery [False, False, False, True]), snd (sample_delivery [False, False, False, True]))"
    by (simp add: sample_delivery_def)
  show ?thesis using envelope_delivery_bounded [OF r sample_counts] sample_delivery_run by (auto simp: Let_def)
qed

text \<open>
  C28: the backoff grows with the attempt, never exceeds the maximal delay, doubles from the
  base delay while it stays below it, and the delay with jitter exceeds it by at most the
  policy's jitter, whatever the random number; no value leaves 64 bits.
\<close>

theorem backoff_bounds:
  assumes "rp_max_delay_ms p \<le> u64_max"
  shows "backoff_ms p a \<le> rp_max_delay_ms p \<and> backoff_ms p a \<le> backoff_ms p (a + 1)
     \<and> (1 \<le> a \<and> a \<le> 64 \<and> rp_base_delay_ms p * 2 ^ (a - 1) \<le> rp_max_delay_ms p
          \<longrightarrow> backoff_ms p a = rp_base_delay_ms p * 2 ^ (a - 1))
     \<and> backoff_ms p a \<le> delay_with_jitter p a j
     \<and> delay_with_jitter p a j \<le> backoff_ms p a + rp_jitter_ms p \<and> delay_with_jitter p a j \<le> u64_max"
proof -
  have m: "backoff_ms p a \<le> rp_max_delay_ms p" by (simp add: backoff_ms_def)
  then have "backoff_ms p a \<le> u64_max" using assms by simp
  then have d: "backoff_ms p a \<le> delay_with_jitter p a j"
    "delay_with_jitter p a j \<le> backoff_ms p a + rp_jitter_ms p" "delay_with_jitter p a j \<le> u64_max"
    by (auto simp: delay_with_jitter_def sat_add_def)
  have e: "backoff_ms p a = rp_base_delay_ms p * 2 ^ (a - 1)"
    if "1 \<le> a" "a \<le> 64" "rp_base_delay_ms p * 2 ^ (a - 1) \<le> rp_max_delay_ms p"
  proof -
    have "min (a - 1) 63 = a - 1" using that by simp
    then show ?thesis using that(3) assms by (simp add: backoff_ms_def sat_mul_def min_def)
  qed
  have "backoff_ms p a \<le> backoff_ms p (a + 1)" by (rule backoff_mono) simp
  then show ?thesis using m d e by blast
qed

theorem backoff_bounds_witness:
  "backoff_ms default_policy 3 = 2000 \<and> backoff_ms default_policy 9 \<le> 30000"
proof -
  have h: "rp_max_delay_ms default_policy \<le> u64_max" by (simp add: default_policy_def u64_max_def)
  show ?thesis
    using backoff_bounds [OF h, of 3 0] backoff_bounds [OF h, of 9 0] by (simp add: default_policy_def)
qed

end
