(* ===== verification/Subscriptions.thy ===== *)
theory Subscriptions
  imports Hooks RecordStore
begin

text \<open>
  Universal subscriptions (\<open>src/subscriptions_universal\<close>): the payloads for a provider, the
  state made from its answer, the store with one file per binding, and the scheduler that
  ensures, renews and deletes bindings. The provider, the clock, the success of file
  operations and what a directory walk meets are parameters. The store is a map from files to
  contents, a file being what its path resolves to; a file holds a decoded state or the error
  that reading it gives.
\<close>

section \<open>Requests and payloads\<close>

record auth_user_ref =
  au_user_id :: string
  au_token_key :: string
  au_tenant_id :: "string option"
  au_email :: "string option"
  au_display_name :: "string option"

record ensure_request =
  er_binding_id :: string
  er_resource :: "string option"
  er_change_types :: "string list"
  er_notification_url :: "string option"
  er_client_state :: "string option"
  er_user :: "auth_user_ref option"
  er_expiration_target :: "64 word option"

record renew_request =
  rr_binding_id :: string
  rr_subscription_id :: "string option"
  rr_user :: "auth_user_ref option"
  rr_resource :: "string option"
  rr_change_types :: "string list"
  rr_expiration_target :: "64 word option"

record delete_request =
  dr_binding_id :: string
  dr_subscription_id :: "string option"
  dr_user :: "auth_user_ref option"

text \<open>The DTOs sent to the provider.\<close>

record ensure_in =
  ei_provider :: string
  ei_tenant_hint :: "string option"
  ei_team_hint :: "string option"
  ei_binding_id :: "string option"
  ei_resource :: string
  ei_change_types :: "string list"
  ei_notification_url :: string
  ei_expiration_target :: "64 word option"
  ei_client_state :: "string option"
  ei_user :: auth_user_ref

record renew_in =
  ri_provider :: string
  ri_subscription_id :: string
  ri_expiration_target :: "64 word option"
  ri_user :: auth_user_ref

record delete_in =
  di_provider :: string
  di_subscription_id :: string
  di_user :: auth_user_ref

datatype subscription_dto = EnsureDto ensure_in | RenewDto renew_in | DeleteDto delete_in

datatype subscription_error =
    ResourceRequired
  | NotificationUrlRequired
  | SubscriptionIdRequiredToRenew
  | SubscriptionIdRequiredToDelete
  | InvocationFailed string
  | ProviderFailed string
  | StoreWriteFailed path
  | StoreReadFailed path string
  | StoreDeleteFailed path
  | ReadDirFailed path string
  | DirEntryFailed string

definition default_user_ref :: "operator_context \<Rightarrow> auth_user_ref" where
  "default_user_ref ctx =
     (let team = opt_unwrap_or (oc_team ctx) ''default'' in
      \<lparr>au_user_id = oc_tenant ctx @ ''-'' @ team, au_token_key = ''operator-'' @ team,
       au_tenant_id = Some (oc_tenant ctx), au_email = None, au_display_name = None\<rparr>)"

definition build_ensure_payload ::
  "operator_context \<Rightarrow> string \<Rightarrow> ensure_request \<Rightarrow> (subscription_error, subscription_dto) result" where
  "build_ensure_payload ctx provider rq =
     rbind (ok_or ResourceRequired (er_resource rq)) (\<lambda>resource.
     rbind (ok_or NotificationUrlRequired (er_notification_url rq)) (\<lambda>url.
       Inr (EnsureDto \<lparr>ei_provider = provider, ei_tenant_hint = Some (oc_tenant ctx), ei_team_hint = oc_team ctx,
         ei_binding_id = Some (er_binding_id rq), ei_resource = resource,
         ei_change_types = (if er_change_types rq = [] then [''created''] else er_change_types rq),
         ei_notification_url = url, ei_expiration_target = er_expiration_target rq,
         ei_client_state = er_client_state rq, ei_user = opt_unwrap_or (er_user rq) (default_user_ref ctx)\<rparr>)))"

definition build_renew_payload ::
  "operator_context \<Rightarrow> string \<Rightarrow> renew_request \<Rightarrow> (subscription_error, subscription_dto) result" where
  "build_renew_payload ctx provider rq =
     rbind (ok_or SubscriptionIdRequiredToRenew (rr_subscription_id rq)) (\<lambda>sid.
       Inr (RenewDto \<lparr>ri_provider = provider, ri_subscription_id = sid,
         ri_expiration_target = rr_expiration_target rq, ri_user = opt_unwrap_or (rr_user rq) (default_user_ref ctx)\<rparr>))"

definition build_delete_payload ::
  "operator_context \<Rightarrow> string \<Rightarrow> delete_request \<Rightarrow> (subscription_error, subscription_dto) result" where
  "build_delete_payload ctx provider rq =
     rbind (ok_or SubscriptionIdRequiredToDelete (dr_subscription_id rq)) (\<lambda>sid.
       Inr (DeleteDto \<lparr>di_provider = provider, di_subscription_id = sid,
         di_user = opt_unwrap_or (dr_user rq) (default_user_ref ctx)\<rparr>))"

section \<open>Subscription states and their store\<close>

record subscription_state =
  su_binding_id :: string
  su_provider :: string
  su_tenant :: string
  su_team :: "string option"
  su_resource :: "string option"
  su_change_types :: "string list"
  su_notification_url :: "string option"
  su_client_state :: "string option"
  su_user :: "auth_user_ref option"
  su_subscription_id :: "string option"
  su_expiration :: "int option"
  su_last_error :: "string option"

definition flatten_subscription_response :: "json option \<Rightarrow> json option" where
  "flatten_subscription_response response =
     Option.bind response (\<lambda>source. opt_or (json_get source ''subscription'') (Some source))"

definition from_provider_result ::
  "string \<Rightarrow> string \<Rightarrow> string option \<Rightarrow> string \<Rightarrow> string option \<Rightarrow> string list \<Rightarrow> string option \<Rightarrow> string option
     \<Rightarrow> auth_user_ref option \<Rightarrow> json option \<Rightarrow> subscription_state" where
  "from_provider_result provider tenant team binding resource change_types url client_state user response =
     (let payload = flatten_subscription_response response;
          field = (\<lambda>k. Option.bind payload (\<lambda>v. json_get v k))
      in \<lparr>su_binding_id = binding, su_provider = provider, su_tenant = tenant, su_team = team,
          su_resource = resource, su_change_types = change_types, su_notification_url = url,
          su_client_state = client_state, su_user = user,
          su_subscription_id = Option.bind (field ''subscription_id'') as_str,
          su_expiration = Option.bind (field ''expiration_unix_ms'') as_i64,
          su_last_error = Option.bind (field ''last_error'') as_str\<rparr>)"

definition state_path :: "path \<Rightarrow> string \<Rightarrow> string \<Rightarrow> string option \<Rightarrow> string \<Rightarrow> path" where
  "state_path base provider tenant team binding =
     path_join (path_join (path_join (path_join base provider) tenant) (opt_unwrap_or team ''default''))
       (binding @ ''.json'')"

definition path_of_state :: "path \<Rightarrow> subscription_state \<Rightarrow> path" where
  "path_of_state base s = state_path base (su_provider s) (su_tenant s) (su_team s) (su_binding_id s)"

type_synonym state_files = "string list \<Rightarrow> (string, subscription_state) result option"

text \<open>What \<open>fs::read_dir\<close> meets below a directory: the entries in the order given, each of them a
  file, a directory or an error, or no listing at all.\<close>

datatype dir_listing = Unreadable string | Entries "dir_entry list"
  and dir_entry = BadEntry string | FileEntry path | DirEntry path dir_listing

record 'w sub_env =
  se_invoke :: "string \<Rightarrow> string \<Rightarrow> subscription_dto \<Rightarrow> operator_context \<Rightarrow> 'w \<Rightarrow> (string, op_outcome) result \<times> 'w"
  se_now :: "'w \<Rightarrow> int"
  se_write_ok :: "path \<Rightarrow> 'w \<Rightarrow> bool"
  se_listing :: "path \<Rightarrow> 'w \<Rightarrow> dir_listing option"

record 'w sub_state =
  ss_files :: state_files
  ss_world :: 'w

definition write_state ::
  "'w sub_env \<Rightarrow> path \<Rightarrow> subscription_state \<Rightarrow> 'w sub_state \<Rightarrow> (subscription_error, unit) result \<times> 'w sub_state" where
  "write_state env base s st =
     (let p = path_of_state base s in
      if se_write_ok env p (ss_world st) then (Inr (), st\<lparr>ss_files := (ss_files st)(resolve_path p \<mapsto> Inr s)\<rparr>)
      else (Inl (StoreWriteFailed p), st))"

definition read_json :: "path \<Rightarrow> state_files \<Rightarrow> (subscription_error, subscription_state option) result" where
  "read_json p fs =
     (case fs (resolve_path p) of None \<Rightarrow> Inr None
      | Some content \<Rightarrow> map_err (StoreReadFailed p) (rbind content (\<lambda>s. Inr (Some s))))"

definition read_state ::
  "path \<Rightarrow> string \<Rightarrow> string \<Rightarrow> string option \<Rightarrow> string \<Rightarrow> 'w sub_state
     \<Rightarrow> (subscription_error, subscription_state option) result" where
  "read_state base provider tenant team binding st = read_json (state_path base provider tenant team binding) (ss_files st)"

text \<open>\<open>list_states\<close> walks the directories below the base; the first error ends the walk.\<close>

fun collect_states :: "path \<Rightarrow> dir_listing \<Rightarrow> state_files \<Rightarrow> (subscription_error, subscription_state list) result"
  and collect_entries :: "dir_entry list \<Rightarrow> state_files \<Rightarrow> (subscription_error, subscription_state list) result" where
  "collect_states dir (Unreadable e) fs = Inl (ReadDirFailed dir e)"
| "collect_states dir (Entries es) fs = collect_entries es fs"
| "collect_entries [] fs = Inr []"
| "collect_entries (BadEntry e # es) fs = Inl (DirEntryFailed e)"
| "collect_entries (DirEntry p sub # es) fs =
     rbind (collect_states p sub fs) (\<lambda>ss. rbind (collect_entries es fs) (\<lambda>ss'. Inr (ss @ ss')))"
| "collect_entries (FileEntry p # es) fs =
     (if (case extension p of None \<Rightarrow> False | Some e \<Rightarrow> eq_ignore_ascii_case e ''json'')
      then rbind (read_json p fs) (\<lambda>s. rbind (collect_entries es fs) (\<lambda>ss.
             Inr ((case s of None \<Rightarrow> [] | Some x \<Rightarrow> [x]) @ ss)))
      else collect_entries es fs)"

definition list_states ::
  "'w sub_env \<Rightarrow> path \<Rightarrow> 'w sub_state \<Rightarrow> (subscription_error, subscription_state list) result" where
  "list_states env base st =
     (case se_listing env base (ss_world st) of
        None \<Rightarrow> Inr []
      | Some listing \<Rightarrow> collect_states base listing (ss_files st))"

definition delete_state ::
  "'w sub_env \<Rightarrow> path \<Rightarrow> subscription_state \<Rightarrow> 'w sub_state \<Rightarrow> (subscription_error, unit) result \<times> 'w sub_state" where
  "delete_state env base s st =
     (let p = path_of_state base s in
      if ss_files st (resolve_path p) = None then (Inr (), st)
      else if se_write_ok env p (ss_world st) then (Inr (), st\<lparr>ss_files := (ss_files st)(resolve_path p := None)\<rparr>)
      else (Inl (StoreDeleteFailed p), st))"

section \<open>The service\<close>

definition ensure_success :: "op_outcome \<Rightarrow> (subscription_error, op_outcome) result" where
  "ensure_success out =
     (if oo_success out then Inr out
      else Inl (ProviderFailed (opt_unwrap_or (oo_error out) ''provider returned failure'')))"

text \<open>Build a payload, invoke the operation, check the outcome.\<close>

definition call_provider ::
  "'w sub_env \<Rightarrow> operator_context \<Rightarrow> string \<Rightarrow> string \<Rightarrow> (subscription_error, subscription_dto) result
     \<Rightarrow> 'w sub_state \<Rightarrow> (subscription_error, op_outcome) result \<times> 'w sub_state" where
  "call_provider env ctx provider op dto st =
     (case dto of
        Inl e \<Rightarrow> (Inl e, st)
      | Inr payload \<Rightarrow>
          (case se_invoke env provider op payload ctx (ss_world st) of
             (Inl e, w) \<Rightarrow> (Inl (InvocationFailed e), st\<lparr>ss_world := w\<rparr>)
           | (Inr out, w) \<Rightarrow> (ensure_success out, st\<lparr>ss_world := w\<rparr>)))"

definition service_ensure_once ::
  "'w sub_env \<Rightarrow> operator_context \<Rightarrow> string \<Rightarrow> ensure_request \<Rightarrow> 'w sub_state
     \<Rightarrow> (subscription_error, subscription_state) result \<times> 'w sub_state" where
  "service_ensure_once env ctx provider rq st =
     (case call_provider env ctx provider ''subscription_ensure'' (build_ensure_payload ctx provider rq) st of
        (Inl e, st) \<Rightarrow> (Inl e, st)
      | (Inr out, st) \<Rightarrow>
          (Inr (from_provider_result provider (oc_tenant ctx) (oc_team ctx) (er_binding_id rq) (er_resource rq)
                  (er_change_types rq) (er_notification_url rq) (er_client_state rq) (er_user rq) (oo_output out)), st))"

definition service_renew_once ::
  "'w sub_env \<Rightarrow> operator_context \<Rightarrow> string \<Rightarrow> renew_request \<Rightarrow> 'w sub_state
     \<Rightarrow> (subscription_error, subscription_state) result \<times> 'w sub_state" where
  "service_renew_once env ctx provider rq st =
     (case call_provider env ctx provider ''subscription_renew'' (build_renew_payload ctx provider rq) st of
        (Inl e, st) \<Rightarrow> (Inl e, st)
      | (Inr out, st) \<Rightarrow>
          (Inr (from_provider_result provider (oc_tenant ctx) (oc_team ctx) (rr_binding_id rq) (rr_resource rq)
                  (rr_change_types rq) None None (rr_user rq) (oo_output out)), st))"

definition service_delete_once ::
  "'w sub_env \<Rightarrow> operator_context \<Rightarrow> string \<Rightarrow> delete_request \<Rightarrow> 'w sub_state
     \<Rightarrow> (subscription_error, unit) result \<times> 'w sub_state" where
  "service_delete_once env ctx provider rq st =
     (case call_provider env ctx provider ''subscription_delete'' (build_delete_payload ctx provider rq) st of
        (Inl e, st) \<Rightarrow> (Inl e, st)
      | (Inr _, st) \<Rightarrow> (Inr (), st))"

section \<open>The scheduler\<close>

definition ensure_once ::
  "'w sub_env \<Rightarrow> operator_context \<Rightarrow> path \<Rightarrow> string \<Rightarrow> ensure_request \<Rightarrow> 'w sub_state
     \<Rightarrow> (subscription_error, unit) result \<times> 'w sub_state" where
  "ensure_once env ctx base provider rq st =
     (case service_ensure_once env ctx provider rq st of
        (Inl e, st) \<Rightarrow> (Inl e, st)
      | (Inr s, st) \<Rightarrow> write_state env base s st)"

text \<open>\<open>ms as u64\<close> and the addition, at 64 bits.\<close>

definition next_expiration_target :: "int \<Rightarrow> subscription_state \<Rightarrow> 64 word" where
  "next_expiration_target now s =
     of_int (opt_unwrap_or (opt_filter (\<lambda>ms. ms > 0) (su_expiration s)) now) + 86400000"

definition renew_binding ::
  "'w sub_env \<Rightarrow> operator_context \<Rightarrow> path \<Rightarrow> subscription_state \<Rightarrow> 'w sub_state
     \<Rightarrow> (subscription_error, unit) result \<times> 'w sub_state" where
  "renew_binding env ctx base s st =
     (case service_renew_once env ctx (su_provider s)
             \<lparr>rr_binding_id = su_binding_id s, rr_subscription_id = su_subscription_id s, rr_user = su_user s,
              rr_resource = su_resource s, rr_change_types = su_change_types s,
              rr_expiration_target = Some (next_expiration_target (se_now env (ss_world st)) s)\<rparr> st of
        (Inl e, st) \<Rightarrow> (Inl e, st)
      | (Inr renewed, st) \<Rightarrow> write_state env base renewed st)"

definition delete_binding ::
  "'w sub_env \<Rightarrow> operator_context \<Rightarrow> path \<Rightarrow> subscription_state \<Rightarrow> 'w sub_state
     \<Rightarrow> (subscription_error, unit) result \<times> 'w sub_state" where
  "delete_binding env ctx base s st =
     (case service_delete_once env ctx (su_provider s)
             \<lparr>dr_binding_id = su_binding_id s, dr_subscription_id = su_subscription_id s, dr_user = su_user s\<rparr> st of
        (Inl e, st) \<Rightarrow> (Inl e, st)
      | (Inr _, st) \<Rightarrow> delete_state env base s st)"

text \<open>\<open>i64::saturating_sub\<close> with a skew that is not negative.\<close>

definition saturating_sub_i64 :: "int \<Rightarrow> int \<Rightarrow> int" where
  "saturating_sub_i64 a b = min (2 ^ 63 - 1) (max (- (2 ^ 63)) (a - b))"

definition renewal_due :: "int \<Rightarrow> int \<Rightarrow> subscription_state \<Rightarrow> bool" where
  "renewal_due now skew_ms s =
     (case su_expiration s of None \<Rightarrow> False | Some e \<Rightarrow> now \<ge> saturating_sub_i64 e skew_ms)"

text \<open>A failed renewal is logged and the loop goes on.\<close>

fun renew_states ::
  "'w sub_env \<Rightarrow> operator_context \<Rightarrow> path \<Rightarrow> int \<Rightarrow> int \<Rightarrow> subscription_state list \<Rightarrow> 'w sub_state \<Rightarrow> 'w sub_state" where
  "renew_states env ctx base now skew_ms [] st = st"
| "renew_states env ctx base now skew_ms (s # ss) st =
     renew_states env ctx base now skew_ms ss
       (if renewal_due now skew_ms s then snd (renew_binding env ctx base s st) else st)"

definition renew_due ::
  "'w sub_env \<Rightarrow> operator_context \<Rightarrow> path \<Rightarrow> int \<Rightarrow> 'w sub_state \<Rightarrow> (subscription_error, unit) result \<times> 'w sub_state" where
  "renew_due env ctx base skew_ms st =
     (let now = se_now env (ss_world st) in
      case list_states env base st of
        Inl e \<Rightarrow> (Inl e, st)
      | Inr states \<Rightarrow> (Inr (), renew_states env ctx base now skew_ms states st))"

section \<open>Desired subscriptions\<close>

record desired_subscription =
  ds_provider :: string
  ds_resource :: string
  ds_change_types :: "string list"
  ds_notification_url :: "string option"
  ds_client_state :: "string option"
  ds_binding_id :: "string option"
  ds_user :: "(string \<times> string) option"

definition to_request :: "desired_subscription \<Rightarrow> string \<Rightarrow> ensure_request" where
  "to_request entry binding =
     \<lparr>er_binding_id = binding, er_resource = Some (ds_resource entry),
      er_change_types = (if ds_change_types entry = [] then [''created''] else ds_change_types entry),
      er_notification_url = ds_notification_url entry, er_client_state = ds_client_state entry,
      er_user = map_option (\<lambda>(u, k). \<lparr>au_user_id = u, au_token_key = k, au_tenant_id = None, au_email = None,
                                      au_display_name = None\<rparr>) (ds_user entry),
      er_expiration_target = None\<rparr>"

definition state_root :: "path \<Rightarrow> path" where
  "state_root bundle_dir = path_join (path_join bundle_dir ''state'') ''subscriptions''"

text \<open>\<open>provider_of\<close> resolves the pack and the provider id; \<open>fresh\<close> is \<open>Uuid::new_v4\<close>.\<close>

fun ensure_desired_subscriptions ::
  "'w sub_env \<Rightarrow> (string \<Rightarrow> (subscription_error, string) result) \<Rightarrow> ('w \<Rightarrow> string \<times> 'w) \<Rightarrow> operator_context \<Rightarrow> path
     \<Rightarrow> desired_subscription list \<Rightarrow> 'w sub_state \<Rightarrow> (subscription_error, unit) result \<times> 'w sub_state" where
  "ensure_desired_subscriptions env provider_of fresh ctx base [] st = (Inr (), st)"
| "ensure_desired_subscriptions env provider_of fresh ctx base (d # ds) st =
     (case provider_of (ds_provider d) of
        Inl e \<Rightarrow> (Inl e, st)
      | Inr provider \<Rightarrow>
          (let (binding, st1) = (case ds_binding_id d of
                 Some b \<Rightarrow> (b, st)
               | None \<Rightarrow> (case fresh (ss_world st) of (u, w) \<Rightarrow> (u, st\<lparr>ss_world := w\<rparr>)))
           in case ensure_once env ctx base provider (to_request d binding) st1 of
                (Inl e, st2) \<Rightarrow> (Inl e, st2)
              | (Inr _, st2) \<Rightarrow> ensure_desired_subscriptions env provider_of fresh ctx base ds st2))"

section \<open>The store is a map\<close>

text \<open>A key below the base directory: provider, tenant, team directory and binding.\<close>

definition state_file :: "path \<Rightarrow> string \<times> string \<times> string \<times> string \<Rightarrow> string list" where
  "state_file base k = (case k of (provider, tenant, team, binding) \<Rightarrow>
     resolve_path (state_path base provider tenant (Some team) binding))"

definition state_key_valid :: "string \<times> string \<times> string \<times> string \<Rightarrow> bool" where
  "state_key_valid k = (case k of (provider, tenant, team, binding) \<Rightarrow>
     plain_name provider \<and> plain_name tenant \<and> plain_name team \<and> CHR ''/'' \<notin> set binding)"

lemma state_file_names:
  assumes "state_key_valid (provider, tenant, team, binding)"
  shows "state_file base (provider, tenant, team, binding)
     = resolve_path base @ [provider, tenant, team, binding @ ''.json'']"
proof -
  have "plain_name provider" "plain_name tenant" "plain_name team" "plain_name (binding @ ''.json'')"
    using assms suffixed_name [of binding "''.json''"] by (simp_all add: state_key_valid_def)
  then show ?thesis by (simp add: state_file_def state_path_def resolve_snoc)
qed

interpretation states: record_store "state_file base" state_key_valid for base
proof
  fix k k'
  show "k = k'" if "state_key_valid k" "state_key_valid k'" "state_file base k = state_file base k'"
    using that by (cases k; cases k') (auto simp: state_file_names)
qed

lemma state_path_file:
  "resolve_path (state_path base provider tenant team binding)
     = state_file base (provider, tenant, opt_unwrap_or team ''default'', binding)"
  by (cases team) (simp_all add: state_file_def state_path_def)

lemma call_provider_files: "call_provider env ctx provider op dto st = (r, st') \<Longrightarrow> ss_files st' = ss_files st"
  by (auto simp: call_provider_def split: sum.splits prod.splits)

lemma write_state_Inr:
  "write_state env base s st = (Inr u, st') \<Longrightarrow> ss_files st' = (ss_files st)(resolve_path (path_of_state base s) \<mapsto> Inr s)"
  by (auto simp: write_state_def Let_def split: if_splits)

text \<open>What a successful renewal writes, for the tenant and team of the scheduler's context.\<close>

definition renewed_from :: "operator_context \<Rightarrow> subscription_state \<Rightarrow> subscription_state \<Rightarrow> bool" where
  "renewed_from ctx s s' \<longleftrightarrow>
     su_provider s' = su_provider s \<and> su_binding_id s' = su_binding_id s
     \<and> su_tenant s' = oc_tenant ctx \<and> su_team s' = oc_team ctx
     \<and> su_resource s' = su_resource s \<and> su_change_types s' = su_change_types s \<and> su_user s' = su_user s
     \<and> su_notification_url s' = None \<and> su_client_state s' = None"

lemma renew_binding_Inr:
  assumes "renew_binding env ctx base s st = (Inr u, st')"
  obtains s' where "renewed_from ctx s s'"
    "ss_files st' = (ss_files st)(resolve_path (path_of_state base s') \<mapsto> Inr s')" "su_subscription_id s \<noteq> None"
proof -
  let ?rq = "\<lparr>rr_binding_id = su_binding_id s, rr_subscription_id = su_subscription_id s, rr_user = su_user s,
              rr_resource = su_resource s, rr_change_types = su_change_types s,
              rr_expiration_target = Some (next_expiration_target (se_now env (ss_world st)) s)\<rparr>"
  obtain x st1 where c: "call_provider env ctx (su_provider s) ''subscription_renew''
      (build_renew_payload ctx (su_provider s) ?rq) st = (x, st1)" by force
  then obtain out where x: "x = Inr out"
    using assms by (cases x) (simp_all add: renew_binding_def service_renew_once_def)
  have "build_renew_payload ctx (su_provider s) ?rq \<noteq> Inl SubscriptionIdRequiredToRenew"
    using c x by (auto simp: call_provider_def)
  then have "su_subscription_id s \<noteq> None" by (cases "su_subscription_id s") (simp_all add: build_renew_payload_def)
  let ?s' = "from_provider_result (su_provider s) (oc_tenant ctx) (oc_team ctx)
      (su_binding_id s) (su_resource s) (su_change_types s) None None (su_user s) (oo_output out)"
  have w: "write_state env base ?s' st1 = (Inr u, st')"
    using assms c x by (simp add: renew_binding_def service_renew_once_def)
  show thesis
  proof (rule that)
    show "renewed_from ctx s ?s'" by (simp add: renewed_from_def from_provider_result_def Let_def)
    show "ss_files st' = (ss_files st)(resolve_path (path_of_state base ?s') \<mapsto> Inr ?s')"
      using write_state_Inr [OF w] call_provider_files [OF c] by simp
  qed fact
qed

section \<open>Properties\<close>

definition sample_sub_env :: "dir_listing option \<Rightarrow> unit sub_env" where
  "sample_sub_env listing =
     \<lparr>se_invoke = (\<lambda>p op dto ctx w. (Inr \<lparr>oo_success = True, oo_output = Some (JObj
         [(''subscription_id'', JStr ''s2''), (''expiration_unix_ms'', JInt 5000)]), oo_error = None\<rparr>, w)),
      se_now = (\<lambda>_. 1000), se_write_ok = (\<lambda>_ _. True), se_listing = (\<lambda>_ _. listing)\<rparr>"

definition sample_sub :: "string \<Rightarrow> subscription_state" where
  "sample_sub tenant = \<lparr>su_binding_id = ''b1'', su_provider = ''graph'', su_tenant = tenant, su_team = None,
     su_resource = Some ''r'', su_change_types = [''created''], su_notification_url = Some ''https://x'',
     su_client_state = Some ''secret'', su_user = None, su_subscription_id = Some ''s1'',
     su_expiration = Some 900, su_last_error = None\<rparr>"

definition sample_sub_state :: "string \<Rightarrow> unit sub_state" where
  "sample_sub_state tenant =
     \<lparr>ss_files = (\<lambda>_. None)(resolve_path (path_of_state ''subs'' (sample_sub tenant)) \<mapsto> Inr (sample_sub tenant)), ss_world = ()\<rparr>"

text \<open>
  C27: a successful renewal writes one state: that of the binding, with the tenant and team of
  the scheduler's context and without the notification URL and client state. Read back under
  that key it is the new state; every other binding below the base reads as before, provided
  the names in both keys are names of files (nonempty, without a separator, not \<open>.\<close> or \<open>..\<close>).
\<close>

theorem renewal_writes_one_state:
  assumes "renew_binding env ctx base s st = (Inr (), st')"
    and "state_key_valid (su_provider s, oc_tenant ctx, opt_unwrap_or (oc_team ctx) ''default'', su_binding_id s)"
    and "state_key_valid (provider, tenant, opt_unwrap_or team ''default'', binding)"
  shows "\<exists>s'. renewed_from ctx s s' \<and>
     read_state base provider tenant team binding st' =
       (if (provider, tenant, opt_unwrap_or team ''default'', binding)
            = (su_provider s, oc_tenant ctx, opt_unwrap_or (oc_team ctx) ''default'', su_binding_id s)
        then Inr (Some s') else read_state base provider tenant team binding st)"
proof -
  obtain s' where s': "renewed_from ctx s s'"
      "ss_files st' = (ss_files st)(resolve_path (path_of_state base s') \<mapsto> Inr s')"
    using renew_binding_Inr [OF assms(1)] by blast
  let ?k = "(su_provider s, oc_tenant ctx, opt_unwrap_or (oc_team ctx) ''default'', su_binding_id s)"
  let ?k' = "(provider, tenant, opt_unwrap_or team ''default'', binding)"
  have p: "resolve_path (path_of_state base s') = state_file base ?k"
    using s'(1) by (simp add: renewed_from_def path_of_state_def state_path_file)
  have "read_state base provider tenant team binding st' =
       (if ?k' = ?k then Inr (Some s') else read_state base provider tenant team binding st)"
    unfolding read_state_def read_json_def state_path_file s'(2) p states.read_after_write [OF assms(2,3)] by simp
  then show ?thesis using s'(1) by auto
qed

theorem renewal_writes_one_state_witness:
  "let st = sample_sub_state ''acme'';
       st' = snd (renew_binding (sample_sub_env None) sample_ctx ''subs'' (sample_sub ''acme'') st)
   in (\<exists>s'. su_client_state s' = None \<and> read_state ''subs'' ''graph'' ''acme'' None ''b1'' st' = Inr (Some s'))
    \<and> read_state ''subs'' ''graph'' ''other'' None ''b1'' st' = read_state ''subs'' ''graph'' ''other'' None ''b1'' st"
proof -
  let ?run = "renew_binding (sample_sub_env None) sample_ctx ''subs'' (sample_sub ''acme'') (sample_sub_state ''acme'')"
  have "fst ?run = Inr ()" by code_simp
  then have r: "?run = (Inr (), snd ?run)" by (metis prod.collapse)
  have k: "state_key_valid (su_provider (sample_sub ''acme''), oc_tenant sample_ctx,
      opt_unwrap_or (oc_team sample_ctx) ''default'', su_binding_id (sample_sub ''acme''))"
    "state_key_valid (''graph'', ''acme'', opt_unwrap_or None ''default'', ''b1'')"
    "state_key_valid (''graph'', ''other'', opt_unwrap_or None ''default'', ''b1'')"
    by code_simp+
  have "read_state ''subs'' ''graph'' ''other'' None ''b1'' (snd ?run)
      = read_state ''subs'' ''graph'' ''other'' None ''b1'' (sample_sub_state ''acme'')"
    using renewal_writes_one_state [OF r k(1,3)] by (auto simp: sample_sub_def sample_ctx_def)
  then show ?thesis
    using renewal_writes_one_state [OF r k(1,2)]
    by (auto simp: sample_sub_def sample_ctx_def renewed_from_def Let_def)
qed

text \<open>
  The renewal pass goes through the states of all tenants but acts for the tenant of its
  context. Here a due binding of the tenant \<open>other\<close> is renewed for \<open>acme\<close>: the result is filed
  under \<open>acme\<close>, the file of \<open>other\<close> is unchanged and stays due, and the client state is lost.
\<close>

lemma renew_due_crosses_tenants:
  "let p = path_of_state ''subs'' (sample_sub ''other'');
       st' = snd (renew_due (sample_sub_env (Some (Entries [FileEntry p]))) sample_ctx ''subs'' 0 (sample_sub_state ''other''))
   in ss_files st' (resolve_path p) = Some (Inr (sample_sub ''other'')) \<and> renewal_due 1000 0 (sample_sub ''other'')
      \<and> map_option (\<lambda>r. case r of Inl _ \<Rightarrow> None | Inr s \<Rightarrow> Some (su_subscription_id s, su_client_state s))
          (ss_files st' (resolve_path (state_path ''subs'' ''graph'' ''acme'' None ''b1''))) = Some (Some (Some ''s2'', None))"
  unfolding Let_def by code_simp

end
