(* ===== verification/Http.thy ===== *)
theory Http
  imports Hooks
begin

text \<open>
  The shared HTTP response helpers (\<open>src/http_util.rs\<close>) and the parts of \<open>hyper\<close> and
  \<open>std::net\<close> the handlers read: methods, header lists, addresses. A header name is lower case, as in
  \<open>hyper::HeaderMap\<close>; a header value is \<open>None\<close> when \<open>HeaderValue::to_str\<close> fails on it. A JSON
  body is kept as the value that is rendered.
\<close>

datatype http_method = GET | POST | OPTIONS | OtherMethod string

datatype http_body = JsonBody json | RawBody bytes

record http_response =
  hr_status :: "16 word"
  hr_headers :: "(string \<times> string) list"
  hr_body :: http_body

type_synonym header_list = "(string \<times> string option) list"

definition json_response :: "16 word \<Rightarrow> json \<Rightarrow> http_response" where
  "json_response status v =
     \<lparr>hr_status = status, hr_headers = [(''content-type'', ''application/json'')], hr_body = JsonBody v\<rparr>"

definition error_response :: "16 word \<Rightarrow> string \<Rightarrow> http_response" where
  "error_response status message =
     json_response status (JObj [(''success'', JBool False), (''message'', JStr message)])"

text \<open>\<open>HeaderMap::get\<close>: the first value of the name.\<close>

definition header_get :: "header_list \<Rightarrow> string \<Rightarrow> string option option" where
  "header_get hs k = map_of hs k"

text \<open>\<open>HeaderMap::insert\<close> on a response: every former value of the name goes.\<close>

definition header_set :: "string \<Rightarrow> string \<Rightarrow> http_response \<Rightarrow> http_response" where
  "header_set k v r = r\<lparr>hr_headers := filter (\<lambda>h. fst h \<noteq> k) (hr_headers r) @ [(k, v)]\<rparr>"

datatype ip_addr = IPv4 "8 word" "8 word" "8 word" "8 word" | IPv6 "128 word"

text \<open>\<open>SocketAddr\<close>: the address and the port.\<close>

type_synonym socket_addr = "ip_addr \<times> 16 word"

definition is_loopback :: "ip_addr \<Rightarrow> bool" where
  "is_loopback ip = (case ip of IPv4 a _ _ _ \<Rightarrow> a = 127 | IPv6 a \<Rightarrow> a = 1)"

lemma response_status [simp]:
  "hr_status (json_response s v) = s" "hr_status (error_response s m) = s"
  by (simp_all add: json_response_def error_response_def)

end
