(* ===== verification/Deployments.thy ===== *)
theory Deployments
  imports Http
begin

text \<open>
  The deployment lifecycle API (\<open>src/deployments/api.rs\<close>): the trust boundary in front of it,
  the dispatch of its five endpoints to the deployer library, and the completion of a drain.
  The deployer library, its payload types and its environments are parameters
  (\<open>deploy_env\<close>): the code only forwards payloads, reads two of their fields, and compares
  revision identifiers and lifecycles. The other processes that share the environment store
  are the parameter \<open>de_others\<close>, which acts between two calls of the library.
\<close>

section \<open>State, errors and parameters\<close>

record deployments_state =
  ds_env_root :: "path option"
  ds_loopback_only :: bool

definition new_state :: deployments_state where
  "new_state = \<lparr>ds_env_root = None, ds_loopback_only = True\<rparr>"

text \<open>The variants of \<open>OpError\<close>; the three built in this file carry their message, the others
  what the library puts into them.\<close>

datatype 'x op_error =
    OpNotFound string
  | OpConflict string
  | OpInvalidArgument string
  | OpNotDrained 'x
  | OpUnauthorized 'x
  | OpPermissionMissing 'x
  | OpSpec 'x
  | OpAnswersParse 'x
  | OpNotYetImplemented 'x
  | OpCapabilityMissing 'x
  | OpStore 'x
  | OpIo 'x
  | OpSchemaGeneration 'x
  | OpAudit 'x
  | OpRevenuePolicy 'x
  | OpTrustRoot 'x
  | OpOperatorKey 'x
  | OpFetch 'x

datatype library_verb = RevisionsStage | RevisionsWarm | RevisionsArchive | TrafficSet | TrafficRollback

record ('u, 'l) revision =
  rv_id :: 'u
  rv_lifecycle :: 'l

text \<open>\<open>de_run\<close> is \<open>spawn_blocking\<close> of a library verb: the outer error is a panic of the worker,
  the outcome is \<open>None\<close> when it cannot be serialised.\<close>

record ('w, 'p, 'u, 'l, 'x) deploy_env =
  de_env_root_var :: "string option"
  de_default_root :: "path option"
  de_parse :: "library_verb \<Rightarrow> bytes \<Rightarrow> (string, 'p) result"
  de_payload_environment :: "'p \<Rightarrow> string"
  de_payload_revision :: "'p \<Rightarrow> string"
  de_env_id :: "string \<Rightarrow> (string, string) result"
  de_ulid :: "string \<Rightarrow> (string, 'u) result"
  de_draining :: 'l
  de_show_lifecycle :: "'l \<Rightarrow> string"
  de_load :: "path \<Rightarrow> string \<Rightarrow> 'w \<Rightarrow> (string, ('x op_error, ('u, 'l) revision list) result) result \<times> 'w"
  de_run :: "library_verb \<Rightarrow> path \<Rightarrow> 'p \<Rightarrow> 'w \<Rightarrow> (string, ('x op_error, json option) result) result \<times> 'w"
  de_others :: "'w \<Rightarrow> 'w"
  de_kind :: "'x op_error \<Rightarrow> string"
  de_message :: "'x op_error \<Rightarrow> string"
  de_show_peer :: "socket_addr \<Rightarrow> string"

definition no_root_message :: string where
  "no_root_message = ''no env-store root: HOME / USERPROFILE not set and GREENTIC_OPERATOR_ENV_ROOT unset''"

definition build_store ::
  "('w, 'p, 'u, 'l, 'x) deploy_env \<Rightarrow> deployments_state \<Rightarrow> (http_response, path) result" where
  "build_store env st =
     (case ds_env_root st of
        Some root \<Rightarrow> Inr root
      | None \<Rightarrow>
          (case opt_filter (\<lambda>v. v \<noteq> []) (de_env_root_var env) of
             Some v \<Rightarrow> Inr v
           | None \<Rightarrow> ok_or (error_response 500 no_root_message) (de_default_root env)))"

definition op_error_status :: "'x op_error \<Rightarrow> 16 word" where
  "op_error_status err =
     (case err of
        OpNotFound _ \<Rightarrow> 404
      | OpConflict _ \<Rightarrow> 409
      | OpNotDrained _ \<Rightarrow> 409
      | OpUnauthorized _ \<Rightarrow> 403
      | OpPermissionMissing _ \<Rightarrow> 403
      | OpInvalidArgument _ \<Rightarrow> 400
      | OpSpec _ \<Rightarrow> 400
      | OpAnswersParse _ \<Rightarrow> 400
      | OpNotYetImplemented _ \<Rightarrow> 501
      | OpCapabilityMissing _ \<Rightarrow> 501
      | _ \<Rightarrow> 500)"

definition op_error_response :: "('w, 'p, 'u, 'l, 'x) deploy_env \<Rightarrow> 'x op_error \<Rightarrow> http_response" where
  "op_error_response env err =
     json_response (op_error_status err)
       (JObj [(''error'', JObj [(''kind'', JStr (de_kind env err)), (''message'', JStr (de_message env err))])])"

section \<open>The trust boundary\<close>

definition section_sign :: string where "section_sign = [CHR 0xA7]"

definition forwarding_marker_headers :: "string list" where
  "forwarding_marker_headers =
     [''x-forwarded-for'', ''x-forwarded-host'', ''x-forwarded-proto'', ''x-real-ip'', ''forwarded'']"

definition is_forwarding_marker :: "string \<Rightarrow> bool" where
  "is_forwarding_marker name \<longleftrightarrow> name \<in> set forwarding_marker_headers \<or> starts_with ''cf-'' name"

definition forwarding_marker :: "header_list \<Rightarrow> string option" where
  "forwarding_marker hs = List.find is_forwarding_marker (map fst hs)"

definition origin_host :: "string \<Rightarrow> string" where
  "origin_host origin =
     (let after_scheme = opt_unwrap_or (opt_or (strip_prefix ''http://'' origin) (strip_prefix ''https://'' origin)) origin;
          host = hd (split_on (CHR ''/'') after_scheme)
      in case strip_prefix ''['' host of
           Some stripped \<Rightarrow> hd (split_on (CHR '']'') stripped)
         | None \<Rightarrow> hd (split_on (CHR '':'') host))"

definition loopback_hosts :: "string list" where
  "loopback_hosts = [''localhost'', ''127.0.0.1'', ''::1'', ''0:0:0:0:0:0:0:1'']"

definition is_loopback_origin :: "string \<Rightarrow> bool" where
  "is_loopback_origin origin \<longleftrightarrow> origin_host origin \<in> set loopback_hosts"

definition check_trust_boundary ::
  "('w, 'p, 'u, 'l, 'x) deploy_env \<Rightarrow> socket_addr \<Rightarrow> header_list \<Rightarrow> deployments_state \<Rightarrow> (http_response, unit) result" where
  "check_trust_boundary env peer headers st =
     (if ds_loopback_only st \<and> \<not> is_loopback (fst peer)
      then Inl (error_response 403 (''/deployments/* refused: peer '' @ de_show_peer env peer
             @ '' is not loopback; mTLS / admin admission is Phase D (plan '' @ section_sign @ ''B4b)''))
      else
        case (if ds_loopback_only st then forwarding_marker headers else None) of
          Some marker \<Rightarrow>
            Inl (error_response 403 (''/deployments/* refused: request bears forwarding marker `'' @ marker
              @ ''` (proxied/tunneled traffic); direct local callers only until mTLS lands (plan '' @ section_sign @ ''B4b)''))
        | None \<Rightarrow>
            (case opt_filter (\<lambda>origin. \<not> is_loopback_origin origin)
                    (Option.bind (header_get headers ''origin'') (\<lambda>v. v)) of
               Some origin \<Rightarrow>
                 Inl (error_response 403 (''/deployments/* refused: Origin `'' @ origin
                   @ ''` is not loopback; cross-origin browser callers are blocked until mTLS lands''))
             | None \<Rightarrow> Inr ()))"

section \<open>Dispatch\<close>

definition run_blocking ::
  "('w, 'p, 'u, 'l, 'x) deploy_env \<Rightarrow> deployments_state \<Rightarrow> library_verb \<Rightarrow> 'p \<Rightarrow> 'w
     \<Rightarrow> (http_response, http_response) result \<times> 'w" where
  "run_blocking env st verb payload w =
     (case build_store env st of
        Inl e \<Rightarrow> (Inl e, w)
      | Inr root \<Rightarrow>
          (case de_run env verb root payload w of
             (Inl panic, w') \<Rightarrow> (Inl (error_response 500 (''worker join: '' @ panic)), w')
           | (Inr (Inl err), w') \<Rightarrow> (Inl (op_error_response env err), w')
           | (Inr (Inr out), w') \<Rightarrow> (Inr (json_response 200 (opt_unwrap_or out (JObj []))), w')))"

definition parse_json ::
  "('w, 'p, 'u, 'l, 'x) deploy_env \<Rightarrow> library_verb \<Rightarrow> bytes \<Rightarrow> (http_response, 'p) result" where
  "parse_json env verb body = map_err (\<lambda>e. error_response 400 (''invalid JSON: '' @ e)) (de_parse env verb body)"

text \<open>The arrow of the message lies outside the characters of the model and is written \<open>->\<close>.\<close>

definition precheck_drain_completable ::
  "('w, 'p, 'u, 'l, 'x) deploy_env \<Rightarrow> ('u, 'l) revision list \<Rightarrow> string \<Rightarrow> ('x op_error, unit) result" where
  "precheck_drain_completable env revisions revision_id =
     (case de_ulid env revision_id of
        Inl e \<Rightarrow> Inl (OpInvalidArgument (''revision_id: '' @ e))
      | Inr target \<Rightarrow>
          (case List.find (\<lambda>r. rv_id r = target) revisions of
             None \<Rightarrow> Inl (OpNotFound (''revision `'' @ revision_id @ ''` not found in env''))
           | Some found \<Rightarrow>
               if rv_lifecycle found \<noteq> de_draining env
               then Inl (OpConflict (''/complete-drain requires revision in `Draining`; revision `'' @ revision_id
                 @ ''` is `'' @ de_show_lifecycle env (rv_lifecycle found)
                 @ ''`. Initiate drain (`Ready -> Draining`) before completing it.''))
               else Inr ()))"

text \<open>The store is a path, so \<open>build_store\<close> runs twice; between the load and the transition other
  processes may act.\<close>

definition complete_drain ::
  "('w, 'p, 'u, 'l, 'x) deploy_env \<Rightarrow> deployments_state \<Rightarrow> 'p \<Rightarrow> 'w
     \<Rightarrow> (http_response, http_response) result \<times> 'w" where
  "complete_drain env st payload w =
     (case build_store env st of
        Inl e \<Rightarrow> (Inl e, w)
      | Inr root \<Rightarrow>
          (case de_env_id env (de_payload_environment env payload) of
             Inl e \<Rightarrow> (Inl (op_error_response env (OpInvalidArgument (''environment_id: '' @ e))), w)
           | Inr env_id \<Rightarrow>
               (case de_load env root env_id w of
                  (Inl panic, w1) \<Rightarrow> (Inl (error_response 500 (''worker join: '' @ panic)), w1)
                | (Inr (Inl err), w1) \<Rightarrow> (Inl (op_error_response env err), w1)
                | (Inr (Inr revisions), w1) \<Rightarrow>
                    (case precheck_drain_completable env revisions (de_payload_revision env payload) of
                       Inl err \<Rightarrow> (Inl (op_error_response env err), w1)
                     | Inr _ \<Rightarrow> run_blocking env st RevisionsArchive payload (de_others env w1)))))"

definition sub_path :: "string \<Rightarrow> string" where
  "sub_path p = trim_end_matches (CHR ''/'') (opt_unwrap_or (strip_prefix ''/deployments'' p) [])"

definition simple_verbs :: "(string \<times> library_verb) list" where
  "simple_verbs = [(''/stage'', RevisionsStage), (''/warm'', RevisionsWarm), (''/activate'', TrafficSet),
     (''/rollback'', TrafficRollback)]"

definition dispatch ::
  "('w, 'p, 'u, 'l, 'x) deploy_env \<Rightarrow> http_method \<Rightarrow> path \<Rightarrow> bytes \<Rightarrow> deployments_state \<Rightarrow> 'w
     \<Rightarrow> (http_response, http_response) result \<times> 'w" where
  "dispatch env meth p body st w =
     (case map_of simple_verbs (sub_path p) of
        Some verb \<Rightarrow>
          (if meth \<noteq> POST then (Inl (error_response 405 (''only POST allowed on /deployments'' @ sub_path p)), w)
           else case parse_json env verb body of
                  Inl e \<Rightarrow> (Inl e, w)
                | Inr payload \<Rightarrow> run_blocking env st verb payload w)
      | None \<Rightarrow>
          (if sub_path p \<noteq> ''/complete-drain''
           then (Inl (error_response 404 (''unknown /deployments endpoint: '' @ sub_path p)), w)
           else if meth \<noteq> POST
           then (Inl (error_response 405 (''only POST allowed on /deployments'' @ sub_path p)), w)
           else case parse_json env RevisionsArchive body of
                  Inl e \<Rightarrow> (Inl e, w)
                | Inr payload \<Rightarrow> complete_drain env st payload w))"

definition max_body_bytes :: nat where "max_body_bytes = 512 * 1024"

text \<open>The body arrives after the check; a body over the limit is refused, a read error too.\<close>

definition handle_deployments_request ::
  "('w, 'p, 'u, 'l, 'x) deploy_env \<Rightarrow> http_method \<Rightarrow> path \<Rightarrow> header_list \<Rightarrow> (string, bytes) result \<Rightarrow> socket_addr
     \<Rightarrow> deployments_state \<Rightarrow> 'w \<Rightarrow> (http_response, http_response) result \<times> 'w" where
  "handle_deployments_request env meth p headers body peer st w =
     (case check_trust_boundary env peer headers st of
        Inl e \<Rightarrow> (Inl e, w)
      | Inr _ \<Rightarrow>
          (case body of
             Inl e \<Rightarrow> (Inl (error_response 400 (''read body: '' @ e)), w)
           | Inr bytes \<Rightarrow>
               if max_body_bytes < length bytes
               then (Inl (error_response 413 (''body exceeds '' @ show_nat max_body_bytes @ '' bytes'')), w)
               else dispatch env meth p bytes st w))"

section \<open>Lemmas\<close>

text \<open>What an admitted caller looks like.\<close>

definition trusted_caller :: "socket_addr \<Rightarrow> header_list \<Rightarrow> deployments_state \<Rightarrow> bool" where
  "trusted_caller peer headers st \<longleftrightarrow>
     (ds_loopback_only st \<longrightarrow> is_loopback (fst peer) \<and> (\<forall>h \<in> set headers. \<not> is_forwarding_marker (fst h)))
     \<and> (\<forall>origin. header_get headers ''origin'' = Some (Some origin) \<longrightarrow> is_loopback_origin origin)"

lemma forwarding_marker_None: "forwarding_marker hs = None \<longleftrightarrow> (\<forall>h \<in> set hs. \<not> is_forwarding_marker (fst h))"
  by (auto simp: forwarding_marker_def find_None_iff)

lemma check_trust_boundary_iff: "check_trust_boundary env peer headers st = Inr u \<longleftrightarrow> trusted_caller peer headers st"
proof -
  have "Option.bind (header_get headers ''origin'') (\<lambda>v. v) = Some o' \<longleftrightarrow> header_get headers ''origin'' = Some (Some o')" for o'
    by (cases "header_get headers ''origin''") auto
  then show ?thesis
    by (auto simp: check_trust_boundary_def trusted_caller_def opt_filter_def forwarding_marker_None [symmetric]
        split: option.splits if_splits)
qed

lemma check_trust_boundary_refusal: "check_trust_boundary env peer headers st = Inl r \<Longrightarrow> hr_status r = 403"
  by (auto simp: check_trust_boundary_def split: option.splits if_splits)

lemma strip_scheme:
  assumes "scheme \<in> {''http://'', ''https://''}"
  shows "opt_unwrap_or (opt_or (strip_prefix ''http://'' (scheme @ s)) (strip_prefix ''https://'' (scheme @ s))) (scheme @ s) = s"
proof (cases "scheme = ''http://''")
  case True
  then show ?thesis by (simp only: strip_prefix_append opt_or_simps opt_unwrap_or_simps)
next
  case False
  then have "scheme = ''https://''" using assms by blast
  moreover have "strip_prefix ''http://'' (''https://'' @ s) = None" by (simp add: strip_prefix_def starts_with_def)
  ultimately show ?thesis by (simp only: strip_prefix_append opt_or_simps opt_unwrap_or_simps)
qed

lemma origin_host_plain:
  assumes host: "CHR ''/'' \<notin> set host" "CHR '':'' \<notin> set host" "CHR ''['' \<notin> set host"
    and port: "port = [] \<or> (\<exists>ds. port = CHR '':'' # ds \<and> CHR ''/'' \<notin> set ds)"
    and "scheme \<in> {''http://'', ''https://''}"
  shows "origin_host (scheme @ host @ port) = host"
proof -
  have "CHR ''/'' \<notin> set (host @ port)" using host(1) port by auto
  then have h: "hd (split_on (CHR ''/'') (host @ port)) = host @ port"
    by (subst split_on_notin) simp_all
  have "host @ port = [] \<or> hd (host @ port) \<noteq> CHR ''[''" using host(3) port by (cases host) auto
  then have b: "strip_prefix ''['' (host @ port) = None"
    by (cases "host @ port") (auto simp: strip_prefix_def starts_with_def)
  have "hd (split_on (CHR '':'') (host @ port)) = host"
    using host(2) port split_on_append [OF host(2)] by (elim disjE exE conjE) simp_all
  then show ?thesis unfolding origin_host_def Let_def strip_scheme [OF assms(5)] h b by simp
qed

lemma run_blocking_Inr:
  "run_blocking env st verb payload w = (Inr resp, w') \<Longrightarrow> hr_status resp = 200
     \<and> (\<exists>root out. build_store env st = Inr root \<and> de_run env verb root payload w = (Inr (Inr out), w'))"
  by (auto simp: run_blocking_def split: sum.splits prod.splits)

lemma precheck_Inr:
  "precheck_drain_completable env revisions rid = Inr u \<longleftrightarrow>
     (\<exists>target found. de_ulid env rid = Inr target \<and> List.find (\<lambda>r. rv_id r = target) revisions = Some found
        \<and> rv_lifecycle found = de_draining env)"
  by (auto simp: precheck_drain_completable_def split: sum.splits option.splits if_splits)

lemma precheck_status:
  "precheck_drain_completable env revisions rid = Inl err \<Longrightarrow> op_error_status err \<in> {400, 404, 409}"
  by (auto simp: precheck_drain_completable_def op_error_status_def split: sum.splits option.splits if_splits)

text \<open>The revision of a request in a loaded environment, and whether its drain can complete.\<close>

definition requested_revision ::
  "('w, 'p, 'u, 'l, 'x) deploy_env \<Rightarrow> ('u, 'l) revision list \<Rightarrow> 'p \<Rightarrow> ('u, 'l) revision option" where
  "requested_revision env revisions payload =
     (case de_ulid env (de_payload_revision env payload) of
        Inl _ \<Rightarrow> None
      | Inr target \<Rightarrow> List.find (\<lambda>r. rv_id r = target) revisions)"

lemma precheck_requested:
  "precheck_drain_completable env revisions (de_payload_revision env payload) = Inr u \<longleftrightarrow>
     map_option rv_lifecycle (requested_revision env revisions payload) = Some (de_draining env)"
  by (auto simp: precheck_Inr requested_revision_def split: sum.splits)

lemma complete_drain_cases:
  assumes "complete_drain env st payload w = (r, w')" and "build_store env st = Inr root"
    and "de_env_id env (de_payload_environment env payload) = Inr env_id"
    and "de_load env root env_id w = (Inr (Inr revisions), w1)"
  shows "if map_option rv_lifecycle (requested_revision env revisions payload) = Some (de_draining env)
     then (r, w') = run_blocking env st RevisionsArchive payload (de_others env w1)
     else w' = w1 \<and> (\<exists>resp. r = Inl resp \<and> hr_status resp \<in> {400, 404, 409})"
proof (cases "precheck_drain_completable env revisions (de_payload_revision env payload)")
  case (Inl err)
  then have "(r, w') = (Inl (op_error_response env err), w1)" using assms by (simp add: complete_drain_def)
  moreover have "map_option rv_lifecycle (requested_revision env revisions payload) \<noteq> Some (de_draining env)"
    using precheck_requested [of env revisions payload "()"] Inl by simp
  ultimately show ?thesis using precheck_status [OF Inl] by (auto simp: op_error_response_def)
next
  case (Inr u)
  then show ?thesis using assms precheck_requested [of env revisions payload u] by (simp add: complete_drain_def)
qed
lemma dispatch_effect:
  assumes "dispatch env meth p body st w = (r, w')" and "(\<exists>resp. r = Inr resp) \<or> w' \<noteq> w"
  shows "meth = POST \<and> sub_path p \<in> {''/stage'', ''/warm'', ''/activate'', ''/rollback'', ''/complete-drain''}"
proof (cases "map_of simple_verbs (sub_path p)")
  case None
  then show ?thesis using assms by (auto simp: dispatch_def split: if_splits)
next
  case (Some verb)
  then have "sub_path p \<in> fst ` set simple_verbs" by (metis domI dom_map_of_conv_image_fst)
  then show ?thesis using assms Some by (auto simp: dispatch_def simple_verbs_def split: if_splits)
qed

section \<open>Properties\<close>

text \<open>A store whose world is the lifecycle of its one revision; identifiers are strings.\<close>

definition sample_deploy_env :: "(string \<Rightarrow> string) \<Rightarrow> (string, string \<times> string, string, string, string) deploy_env" where
  "sample_deploy_env others =
     \<lparr>de_env_root_var = None, de_default_root = Some ''/home/.greentic/environments'',
      de_parse = (\<lambda>_ _. Inr (''demo'', ''r1'')), de_payload_environment = fst, de_payload_revision = snd,
      de_env_id = Inr, de_ulid = Inr, de_draining = ''Draining'', de_show_lifecycle = (\<lambda>l. l),
      de_load = (\<lambda>_ _ l. (Inr (Inr [\<lparr>rv_id = ''r1'', rv_lifecycle = l\<rparr>]), l)),
      de_run = (\<lambda>verb _ _ l.
        if verb = RevisionsArchive
        then (Inr (Inr None), if l = ''Draining'' then ''Inactive'' else ''Archived'') else (Inr (Inr None), l)),
      de_others = others, de_kind = (\<lambda>_. ''error''), de_message = (\<lambda>_. []), de_show_peer = (\<lambda>_. ''peer'')\<rparr>"

definition local_peer :: socket_addr where "local_peer = (IPv4 127 0 0 1, 40512)"

definition sample_handle ::
  "(string \<Rightarrow> string) \<Rightarrow> header_list \<Rightarrow> string \<Rightarrow> (http_response, http_response) result \<times> string" where
  "sample_handle others headers l =
     handle_deployments_request (sample_deploy_env others) POST ''/deployments/complete-drain'' headers (Inr [])
       local_peer new_state l"

lemma sample_handle_trusted:
  "trusted_caller local_peer headers new_state \<Longrightarrow> sample_handle others headers l =
     dispatch (sample_deploy_env others) POST ''/deployments/complete-drain'' [] new_state l"
  using check_trust_boundary_iff [of "sample_deploy_env others" local_peer headers new_state "()"]
  by (simp add: sample_handle_def handle_deployments_request_def)

lemma sample_sub_path: "sub_path ''/deployments/complete-drain'' = ''/complete-drain''"
  by code_simp

lemma sample_drain:
  "dispatch (sample_deploy_env others) POST ''/deployments/complete-drain'' [] new_state ''Draining''
     = (Inr (json_response 200 (JObj [])), if others ''Draining'' = ''Draining'' then ''Inactive'' else ''Archived'')"
  by (simp add: dispatch_def sample_sub_path simple_verbs_def parse_json_def complete_drain_def build_store_def
      precheck_drain_completable_def run_blocking_def sample_deploy_env_def new_state_def)

lemma sample_trusted: "trusted_caller local_peer [] new_state"
  by (simp add: trusted_caller_def local_peer_def is_loopback_def header_get_def)

text \<open>
  C5: the deployment API does nothing for a caller that is not trusted. A request that
  changes the environment store, or is answered with success, came from a trusted caller, is
  a POST to one of the five endpoints and has a body within the limit; an untrusted caller
  gets \<open>403\<close> and its body is not even read.
\<close>

theorem deployment_effects_guarded:
  assumes "handle_deployments_request env meth p headers body peer st w = (r, w')"
  shows "((\<exists>resp. r = Inr resp) \<or> w' \<noteq> w
       \<longrightarrow> trusted_caller peer headers st \<and> meth = POST
         \<and> sub_path p \<in> {''/stage'', ''/warm'', ''/activate'', ''/rollback'', ''/complete-drain''}
         \<and> (\<exists>bytes. body = Inr bytes \<and> length bytes \<le> max_body_bytes))
     \<and> (\<not> trusted_caller peer headers st \<longrightarrow> w' = w \<and> (\<exists>resp. r = Inl resp \<and> hr_status resp = 403))"
proof (cases "check_trust_boundary env peer headers st")
  case (Inl e)
  then have "\<not> trusted_caller peer headers st"
    using check_trust_boundary_iff [of env peer headers st "()"] by simp
  then show ?thesis using assms Inl check_trust_boundary_refusal [OF Inl] by (auto simp: handle_deployments_request_def)
next
  case (Inr u)
  then have t: "trusted_caller peer headers st" by (simp add: check_trust_boundary_iff)
  show ?thesis
  proof (cases "\<exists>bytes. body = Inr bytes \<and> length bytes \<le> max_body_bytes")
    case True
    then obtain bytes where "body = Inr bytes" "dispatch env meth p bytes st w = (r, w')"
      using assms Inr by (auto simp: handle_deployments_request_def split: if_splits)
    then show ?thesis using t True dispatch_effect [of env meth p bytes st w r w'] by blast
  next
    case False
    then show ?thesis using assms Inr t by (auto simp: handle_deployments_request_def split: sum.splits if_splits)
  qed
qed

theorem deployment_effects_guarded_witness:
  "snd (sample_handle (\<lambda>l. l) [] ''Draining'') = ''Inactive'' \<and> trusted_caller local_peer [] new_state
   \<and> snd (sample_handle (\<lambda>l. l) [(''cf-ray'', Some ''8a1b'')] ''Draining'') = ''Draining''"
proof -
  have u: "\<not> trusted_caller local_peer [(''cf-ray'', Some ''8a1b'')] new_state"
    by (simp add: trusted_caller_def is_forwarding_marker_def new_state_def starts_with_def)
  have "\<exists>r. sample_handle (\<lambda>l. l) [(''cf-ray'', Some ''8a1b'')] ''Draining'' = (r, snd (sample_handle (\<lambda>l. l) [(''cf-ray'', Some ''8a1b'')] ''Draining''))"
    by (metis prod.collapse)
  then obtain r where "sample_handle (\<lambda>l. l) [(''cf-ray'', Some ''8a1b'')] ''Draining''
      = (r, snd (sample_handle (\<lambda>l. l) [(''cf-ray'', Some ''8a1b'')] ''Draining''))" ..
  from deployment_effects_guarded [OF this [unfolded sample_handle_def]] u
  have "snd (sample_handle (\<lambda>l. l) [(''cf-ray'', Some ''8a1b'')] ''Draining'') = ''Draining''"
    unfolding sample_handle_def by blast
  then show ?thesis using sample_trusted by (simp add: sample_handle_trusted sample_drain)
qed

text \<open>
  C15: a browser page of another site is refused. A request whose \<open>Origin\<close> is an
  http or https one with a host (not bracketed) that is not a loopback host, whatever its port, is
  answered with \<open>403\<close> and changes nothing, also when the peer check is off.
\<close>

theorem foreign_origin_refused:
  assumes "header_get headers ''origin'' = Some (Some (scheme @ host @ port))"
    and "scheme \<in> {''http://'', ''https://''}" and "port = [] \<or> (\<exists>ds. port = CHR '':'' # ds \<and> CHR ''/'' \<notin> set ds)"
    and "CHR ''/'' \<notin> set host" "CHR '':'' \<notin> set host" "CHR ''['' \<notin> set host"
    and "host \<notin> {''localhost'', ''127.0.0.1''}"
  shows "\<exists>resp. handle_deployments_request env meth p headers body peer st w = (Inl resp, w) \<and> hr_status resp = 403"
proof -
  have "host \<noteq> ''::1''" "host \<noteq> ''0:0:0:0:0:0:0:1''" using assms(5) by force+
  then have "host \<notin> set loopback_hosts" using assms(7) by (simp add: loopback_hosts_def)
  then have "\<not> is_loopback_origin (scheme @ host @ port)"
    using origin_host_plain [OF assms(4,5,6,3,2)] by (simp add: is_loopback_origin_def)
  then have "\<not> trusted_caller peer headers st" using assms(1) by (auto simp: trusted_caller_def)
  then obtain e where "check_trust_boundary env peer headers st = Inl e"
    using check_trust_boundary_iff [of env peer headers st "()"]
    by (cases "check_trust_boundary env peer headers st") simp_all
  with check_trust_boundary_refusal [OF this] show ?thesis by (simp add: handle_deployments_request_def)
qed

theorem foreign_origin_refused_witness:
  "\<exists>resp. sample_handle (\<lambda>l. l) [(''origin'', Some ''https://evil.example:8443'')] ''Draining'' = (Inl resp, ''Draining'')
     \<and> hr_status resp = 403"
  unfolding sample_handle_def
  by (rule foreign_origin_refused [where scheme = "''https://''" and host = "''evil.example''" and port = "'':8443''"])
    (simp_all add: header_get_def)

text \<open>
  C7: completing a drain archives a revision only if the environment, as loaded, has the
  requested revision in the draining lifecycle; otherwise the answer is \<open>400\<close>, \<open>404\<close> or \<open>409\<close>
  and nothing is archived. The archive acts on the store as other processes leave it.
\<close>

theorem complete_drain_guarded:
  assumes "complete_drain env st payload w = (r, w')" and "build_store env st = Inr root"
    and "de_env_id env (de_payload_environment env payload) = Inr env_id"
    and "de_load env root env_id w = (Inr (Inr revisions), w1)"
  shows "if map_option rv_lifecycle (requested_revision env revisions payload) = Some (de_draining env)
     then (r, w') = run_blocking env st RevisionsArchive payload (de_others env w1)
     else w' = w1 \<and> (\<exists>resp. r = Inl resp \<and> hr_status resp \<in> {400, 404, 409})"
  using assms by (rule complete_drain_cases)

theorem complete_drain_guarded_witness:
  "\<exists>resp. complete_drain (sample_deploy_env (\<lambda>l. l)) new_state (''demo'', ''r1'') ''Ready'' = (Inl resp, ''Ready'')
     \<and> hr_status resp \<in> {400, 404, 409}"
proof -
  let ?e = "sample_deploy_env (\<lambda>l. l)" and ?p = "(''demo'', ''r1'')"
  have "build_store ?e new_state = Inr ''/home/.greentic/environments''" "de_env_id ?e (de_payload_environment ?e ?p) = Inr ''demo''"
    "de_load ?e ''/home/.greentic/environments'' ''demo'' ''Ready'' = (Inr (Inr [\<lparr>rv_id = ''r1'', rv_lifecycle = ''Ready''\<rparr>]), ''Ready'')"
    by (simp_all add: sample_deploy_env_def build_store_def new_state_def)
  from complete_drain_guarded [OF surjective_pairing this]
  have "snd (complete_drain ?e new_state ?p ''Ready'') = ''Ready''
      \<and> (\<exists>resp. fst (complete_drain ?e new_state ?p ''Ready'') = Inl resp \<and> hr_status resp \<in> {400, 404, 409})"
    by (simp add: requested_revision_def sample_deploy_env_def)
  then show ?thesis by (metis prod.collapse)
qed

text \<open>
  The precondition is not checked again by the transaction. If another process moves the
  revision back to \<open>Ready\<close> between the load and the archive, completing its drain archives a
  ready revision and answers success.
\<close>

lemma drain_race_archives_ready:
  "sample_handle (\<lambda>_. ''Ready'') [] ''Draining'' = (Inr (json_response 200 (JObj [])), ''Archived'')"
  by (simp add: sample_handle_trusted sample_trusted sample_drain)

end
