(* ===== verification/Ingress.thy ===== *)
theory Ingress
  imports Deployments StaticRoutes Egress
begin

text \<open>
  The HTTP ingress (\<open>src/demo/http_ingress.rs\<close>, \<open>ingress_dispatch.rs\<close>, \<open>event_router.rs\<close>): the
  order in which a request meets the onboarding API, the deployment API, the static routes and
  the provider ingress; parsing of ingress paths; static assets; the dispatch to a provider,
  its answer, and what happens to the events and messages of the answer. Sockets and threads
  are left out: a background thread is a job appended to the state, run by the messaging
  pipeline later. Providers, codecs, archives and the onboarding API are parameters.
\<close>

section \<open>Ingress paths\<close>

record parsed_ingress_route =
  pr_domain :: domain
  pr_provider :: string
  pr_tenant :: string
  pr_team :: string
  pr_handler :: "string option"

text \<open>The code lower-cases the whole string; only ASCII letters matter for these names.\<close>

definition parse_domain :: "string \<Rightarrow> domain option" where
  "parse_domain v =
     (let l = to_ascii_lowercase v in
      if l = ''messaging'' then Some Messaging
      else if l = ''events'' then Some Events
      else if l = ''secrets'' then Some Secrets
      else if l = ''oauth'' then Some OAuth
      else None)"

definition route_of_segments :: "domain \<Rightarrow> string list \<Rightarrow> nat \<Rightarrow> parsed_ingress_route" where
  "route_of_segments dm segs i =
     \<lparr>pr_domain = dm, pr_provider = segs ! i, pr_tenant = segs ! (i + 1),
      pr_team = opt_unwrap_or (nth_opt segs (i + 2)) ''default'', pr_handler = nth_opt segs (i + 3)\<rparr>"

definition parse_v1_route :: "string list \<Rightarrow> parsed_ingress_route option" where
  "parse_v1_route segs =
     (if length segs < 5 \<or> \<not> eq_ignore_ascii_case (segs ! 2) ''ingress'' then None
      else Option.bind (parse_domain (segs ! 1)) (\<lambda>dm. Some (route_of_segments dm segs 3)))"

definition parse_legacy_route :: "string list \<Rightarrow> parsed_ingress_route option" where
  "parse_legacy_route segs =
     (if length segs < 4 \<or> \<not> eq_ignore_ascii_case (segs ! 1) ''ingress'' then None
      else Option.bind (parse_domain (segs ! 0)) (\<lambda>dm. Some (route_of_segments dm segs 2)))"

definition request_segments :: "string \<Rightarrow> string list" where
  "request_segments p = filter (\<lambda>s. s \<noteq> []) (split_on (CHR ''/'') (trim_start_matches (CHR ''/'') p))"

definition parse_ingress_path :: "string \<Rightarrow> parsed_ingress_route option" where
  "parse_ingress_path p =
     (let segs = request_segments p in
      if segs = [] then None
      else if eq_ignore_ascii_case (segs ! 0) ''v1'' then parse_v1_route segs
      else parse_legacy_route segs)"

section \<open>Requests, parameters and state\<close>

record http_request =
  hq_method :: http_method
  hq_path :: string
  hq_query :: "string option"
  hq_headers :: header_list
  hq_body :: "(string, bytes) result"

record ingress_request =
  iq_domain :: string
  iq_provider :: string
  iq_handler :: "string option"
  iq_tenant :: string
  iq_team :: "string option"
  iq_method :: string
  iq_path :: string
  iq_query :: "(string \<times> string) list"
  iq_headers :: "(string \<times> string) list"
  iq_body :: bytes
  iq_correlation_id :: "string option"

datatype dispatch_error =
    ProviderFailed string
  | ProviderRefused string
  | OutputUndecodable string
  | HooksFailed hook_error
  | RoutingFailed egress_error
  | EventFlowFailed string string string

datatype file_error = FileNotFound | FileFailed string

record ('w, 'ev, 'msg) ingress_env =
  ig_hooks :: "'w hook_env"
  ig_egress :: "('w, 'msg) egress_env"
  ig_bundle :: path
  ig_domains :: "domain list"
  ig_routes :: "static_route_descriptor list"
  ig_supports :: "domain \<Rightarrow> string \<Rightarrow> string \<Rightarrow> bool"
  ig_invoke :: "domain \<Rightarrow> string \<Rightarrow> string \<Rightarrow> json \<Rightarrow> operator_context \<Rightarrow> 'w \<Rightarrow> (string, flow_outcome) result \<times> 'w"
  ig_of_event :: "json \<Rightarrow> (string, 'ev) result"
  ig_to_event :: "'ev \<Rightarrow> json"
  ig_event_type :: "'ev \<Rightarrow> string"
  ig_event_correlation :: "'ev \<Rightarrow> string option"
  ig_of_message :: "json \<Rightarrow> (string, 'msg) result"
  ig_sender :: "'msg \<Rightarrow> string option"
  ig_header_name :: "string \<Rightarrow> string option"
  ig_header_value_ok :: "string \<Rightarrow> bool"
  ig_status_error :: "16 word \<Rightarrow> string option"
  ig_is_dir :: "path \<Rightarrow> bool"
  ig_read_file :: "path \<Rightarrow> (file_error, bytes) result"
  ig_zip_entry :: "path \<Rightarrow> string \<Rightarrow> (file_error, bytes) result"
  ig_show_error :: "dispatch_error \<Rightarrow> string"
  ig_onboard :: "http_request \<Rightarrow> 'w \<Rightarrow> (http_response, http_response) result \<times> 'w"

record 'msg pipeline_job =
  pj_provider :: string
  pj_context :: operator_context
  pj_envelopes :: "'msg list"

record ('w, 'msg) ingress_state =
  is_hooks :: "'w hook_state"
  is_jobs :: "'msg pipeline_job list"

definition set_world :: "'w \<Rightarrow> ('w, 'msg) ingress_state \<Rightarrow> ('w, 'msg) ingress_state" where
  "set_world w st = st\<lparr>is_hooks := (is_hooks st)\<lparr>hs_world := w\<rparr>\<rparr>"

section \<open>The answer of a provider\<close>

definition parse_header_entry :: "json \<Rightarrow> (string \<times> string) option" where
  "parse_header_entry entry =
     opt_or
       (case entry of JArr (JStr n # JStr v # _) \<Rightarrow> Some (n, v) | _ \<Rightarrow> None)
       (Option.bind (as_object entry) (\<lambda>obj.
          Option.bind (Option.bind (map_of obj ''name'') as_str) (\<lambda>n.
          Option.bind (Option.bind (map_of obj ''value'') as_str) (\<lambda>v. Some (n, v)))))"

definition parse_headers :: "('w, 'ev, 'msg) ingress_env \<Rightarrow> json option \<Rightarrow> (string \<times> string) list" where
  "parse_headers env v =
     (case v of
        Some (JObj kvs) \<Rightarrow>
          map (\<lambda>(k, x). (k, opt_unwrap_or (as_str x) (ge_json_string (ig_egress env) x))) kvs
      | Some (JArr es) \<Rightarrow> List.map_filter parse_header_entry es
      | _ \<Rightarrow> [])"

definition parse_body_bytes :: "('w, 'ev, 'msg) ingress_env \<Rightarrow> json \<Rightarrow> (string, bytes option) result" where
  "parse_body_bytes env v =
     (case Option.bind (json_get v ''body_b64'') as_str of
        Some b64 \<Rightarrow> rbind (ok_or ''body_b64 is not valid base64'' (he_b64_decode (ig_hooks env) b64)) (\<lambda>d. Inr (Some d))
      | None \<Rightarrow>
          (case Option.bind (json_get v ''body'') as_str of
             Some t \<Rightarrow> Inr (Some (utf8 t))
           | None \<Rightarrow> Inr (map_option (he_json_vec (ig_hooks env)) (json_get v ''body_json''))))"

definition parse_http_response :: "('w, 'ev, 'msg) ingress_env \<Rightarrow> json \<Rightarrow> (string, ingress_http_response) result" where
  "parse_http_response env v =
     rbind (parse_body_bytes env v) (\<lambda>b.
       Inr \<lparr>ih_status = of_nat (opt_unwrap_or (Option.bind (json_get v ''status'') as_u64) 200),
            ih_headers = parse_headers env (json_get v ''headers''), ih_body = b\<rparr>)"

definition parse_entries :: "(json \<Rightarrow> (string, 'a) result) \<Rightarrow> json option \<Rightarrow> 'a list" where
  "parse_entries of_value v =
     (case Option.bind v as_array of None \<Rightarrow> [] | Some es \<Rightarrow> List.map_filter (\<lambda>e. ok_opt (of_value e)) es)"

definition parse_dispatch_result ::
  "('w, 'ev, 'msg) ingress_env \<Rightarrow> json \<Rightarrow> (string, ('ev, 'msg) ingress_dispatch_result) result" where
  "parse_dispatch_result env v =
     rbind (parse_http_response env (opt_unwrap_or (json_get v ''http'') v)) (\<lambda>resp.
       Inr \<lparr>id_response = resp, id_events = parse_entries (ig_of_event env) (json_get v ''events''),
            id_envelopes = parse_entries (ig_of_message env) (json_get v ''events'')\<rparr>)"

section \<open>Dispatch to a provider\<close>

definition pairs_json :: "(string \<times> string) list \<Rightarrow> json" where
  "pairs_json kvs = JArr (map (\<lambda>(k, v). JArr [JStr k, JStr v]) kvs)"

text \<open>\<open>HttpInV1\<close>: empty lists and absent options are not serialised.\<close>

definition build_ingress_request ::
  "('w, 'ev, 'msg) ingress_env \<Rightarrow> string \<Rightarrow> string option \<Rightarrow> string \<Rightarrow> string \<Rightarrow> (string \<times> string) list
     \<Rightarrow> (string \<times> string) list \<Rightarrow> bytes \<Rightarrow> string option \<Rightarrow> string option \<Rightarrow> string option \<Rightarrow> json" where
  "build_ingress_request env provider route method p headers query body binding_id tenant_hint team_hint =
     JObj ([(''v'', JInt 1), (''provider'', JStr provider)]
       @ opt_member ''route'' (map_option JStr route) @ opt_member ''binding_id'' (map_option JStr binding_id)
       @ opt_member ''tenant_hint'' (map_option JStr tenant_hint) @ opt_member ''team_hint'' (map_option JStr team_hint)
       @ [(''method'', JStr method), (''path'', JStr p)]
       @ (if query = [] then [] else [(''query'', pairs_json query)])
       @ (if headers = [] then [] else [(''headers'', pairs_json headers)])
       @ [(''body_b64'', JStr (he_b64_encode (ig_hooks env) body))])"

text \<open>\<open>IngressRequestV1\<close>, which the hooks see.\<close>

definition ingress_request_json :: "ingress_request \<Rightarrow> json" where
  "ingress_request_json q =
     JObj ([(''v'', JInt 1), (''domain'', JStr (iq_domain q)), (''provider'', JStr (iq_provider q))]
       @ opt_member ''handler'' (map_option JStr (iq_handler q)) @ [(''tenant'', JStr (iq_tenant q))]
       @ opt_member ''team'' (map_option JStr (iq_team q))
       @ [(''method'', JStr (iq_method q)), (''path'', JStr (iq_path q)), (''query'', pairs_json (iq_query q)),
          (''headers'', pairs_json (iq_headers q)), (''body'', JArr (map (\<lambda>b. JInt (uint b)) (iq_body q)))]
       @ opt_member ''correlation_id'' (map_option JStr (iq_correlation_id q)))"

definition dispatch_http_ingress ::
  "('w, 'ev, 'msg) ingress_env \<Rightarrow> domain \<Rightarrow> ingress_request \<Rightarrow> operator_context \<Rightarrow> 'w hook_state
     \<Rightarrow> (dispatch_error, ('ev, 'msg) ingress_dispatch_result) result \<times> 'w hook_state" where
  "dispatch_http_ingress env dm q ctx st =
     (case ig_invoke env dm (iq_provider q) ''ingest_http''
             (build_ingress_request env (iq_provider q) (iq_handler q) (iq_method q) (iq_path q) (iq_headers q)
                (iq_query q) (iq_body q) None (Some (iq_tenant q)) (iq_team q)) ctx (hs_world st) of
        (Inl e, w) \<Rightarrow> (Inl (ProviderFailed e), st\<lparr>hs_world := w\<rparr>)
      | (Inr out, w) \<Rightarrow>
          if \<not> oo_success out
          then (Inl (ProviderRefused (opt_unwrap_or (opt_or (oo_error out) (oo_raw out)) ''provider ingest_http failed'')),
                st\<lparr>hs_world := w\<rparr>)
          else
            (case parse_dispatch_result env (opt_unwrap_or (oo_output out) (JObj [])) of
               Inl e \<Rightarrow> (Inl (OutputUndecodable e), st\<lparr>hs_world := w\<rparr>)
             | Inr res \<Rightarrow>
                 (case apply_post_ingress_hooks_dispatch (ig_hooks env) (ig_to_event env) (ig_of_event env)
                         (ig_bundle env) dm (ingress_request_json q) (iq_provider q) ctx res (st\<lparr>hs_world := w\<rparr>) of
                    (Inl e, _, st') \<Rightarrow> (Inl (HooksFailed e), st')
                  | (Inr _, res', st') \<Rightarrow> (Inr res', st'))))"
section \<open>Events\<close>

definition build_event_flow_input :: "('w, 'ev, 'msg) ingress_env \<Rightarrow> 'ev \<Rightarrow> operator_context \<Rightarrow> json" where
  "build_event_flow_input env ev ctx =
     JObj [(''event'', ig_to_event env ev), (''events'', JArr [ig_to_event env ev]), (''tenant'', JStr (oc_tenant ctx)),
           (''team'', opt_str (oc_team ctx)),
           (''correlation_id'', opt_str (opt_or (ig_event_correlation env ev) (oc_correlation_id ctx)))]"

fun route_events ::
  "('w, 'ev, 'msg) ingress_env \<Rightarrow> path \<Rightarrow> string \<Rightarrow> string \<Rightarrow> operator_context \<Rightarrow> 'ev list \<Rightarrow> nat \<Rightarrow> 'w
     \<Rightarrow> (dispatch_error, nat) result \<times> 'w" where
  "route_events env p pack_id flow_id ctx [] routed w = (Inr routed, w)"
| "route_events env p pack_id flow_id ctx (ev # evs) routed w =
     (case ge_run_flow (ig_egress env)
             \<lparr>rq_root = ig_bundle env, rq_domain = Events, rq_pack_path = p, rq_pack_label = pack_id,
              rq_flow_id = flow_id, rq_tenant = oc_tenant ctx, rq_team = oc_team ctx,
              rq_input = build_event_flow_input env ev ctx\<rparr> w of
        (Inl e, w') \<Rightarrow> (Inl (EventFlowFailed (ig_event_type env ev) flow_id e), w')
      | (Inr _, w') \<Rightarrow> route_events env p pack_id flow_id ctx evs (routed + 1) w')"

definition route_events_to_default_flow ::
  "('w, 'ev, 'msg) ingress_env \<Rightarrow> operator_context \<Rightarrow> 'ev list \<Rightarrow> 'w \<Rightarrow> (dispatch_error, nat) result \<times> 'w" where
  "route_events_to_default_flow env ctx evs w =
     (if evs = [] then (Inr 0, w)
      else
        (case rbind (resolve_app_pack_path (ig_egress env) (ig_bundle env) (oc_tenant ctx) (oc_team ctx) None) (\<lambda>p.
              rbind (load_app_pack_info (ig_egress env) p) (\<lambda>info.
              rbind (select_app_flow info) (\<lambda>fl. Inr (p, info, fl)))) of
           Inl e \<Rightarrow> (Inl (RoutingFailed e), w)
         | Inr (p, info, fl) \<Rightarrow> route_events env p (ap_pack_id info) (af_id fl) ctx evs 0 w))"

section \<open>Responses and static assets\<close>

definition cors_headers :: "(string \<times> string) list" where
  "cors_headers =
     [(''access-control-allow-origin'', ''*''), (''access-control-allow-methods'', ''GET, POST, OPTIONS''),
      (''access-control-allow-headers'', ''Content-Type, Authorization, X-Requested-With, x-ms-bot-agent'')]"

definition cors_preflight_response :: http_response where
  "cors_preflight_response =
     \<lparr>hr_status = 204, hr_headers = cors_headers @ [(''access-control-max-age'', ''86400'')], hr_body = RawBody []\<rparr>"

definition with_cors :: "http_response \<Rightarrow> http_response" where
  "with_cors r = fold (\<lambda>(k, v). header_set k v) cors_headers r"

fun response_headers ::
  "('w, 'ev, 'msg) ingress_env \<Rightarrow> (string \<times> string) list \<Rightarrow> (string \<times> string) list" where
  "response_headers env [] = []"
| "response_headers env ((k, v) # hs) =
     (case ig_header_name env k of
        Some name \<Rightarrow> if ig_header_value_ok env v then (name, v) # response_headers env hs else response_headers env hs
      | None \<Rightarrow> response_headers env hs)"

definition build_http_response ::
  "('w, 'ev, 'msg) ingress_env \<Rightarrow> ingress_http_response \<Rightarrow> (string, http_response) result" where
  "build_http_response env r =
     (case ig_status_error env (ih_status r) of
        Some e \<Rightarrow> Inl e
      | None \<Rightarrow>
          (let hs = response_headers env (ih_headers r) in
           Inr \<lparr>hr_status = ih_status r,
                hr_headers = hs @ (if ''content-type'' \<in> fst ` set hs then [] else [(''content-type'', ''application/json'')]),
                hr_body = RawBody (opt_unwrap_or (ih_body r) [])\<rparr>))"

definition collect_headers :: "header_list \<Rightarrow> (string \<times> string) list" where
  "collect_headers hs = List.map_filter (\<lambda>(k, v). map_option (\<lambda>s. (k, s)) v) hs"

definition query_pair :: "string \<Rightarrow> (string \<times> string) option" where
  "query_pair pair =
     (case splitn2 (CHR ''='') pair of (k, v) \<Rightarrow>
        if trim k = [] then None else Some (trim k, trim (opt_unwrap_or v [])))"

definition collect_queries :: "string option \<Rightarrow> (string \<times> string) list" where
  "collect_queries q = (case q of None \<Rightarrow> [] | Some s \<Rightarrow> List.map_filter query_pair (split_on (CHR ''&'') s))"

definition content_type_for_path :: "path \<Rightarrow> string" where
  "content_type_for_path p =
     (let ext = opt_unwrap_or (extension p) [] in
      if ext = ''html'' then ''text/html; charset=utf-8''
      else if ext = ''js'' \<or> ext = ''mjs'' then ''application/javascript; charset=utf-8''
      else if ext = ''css'' then ''text/css; charset=utf-8''
      else if ext = ''json'' then ''application/json; charset=utf-8''
      else if ext = ''svg'' then ''image/svg+xml''
      else if ext = ''png'' then ''image/png''
      else if ext = ''ico'' then ''image/x-icon''
      else if ext = ''woff2'' then ''font/woff2''
      else if ext = ''woff'' then ''font/woff''
      else if ext = ''map'' then ''application/json''
      else if ext = ''txt'' then ''text/plain; charset=utf-8''
      else ''application/octet-stream'')"

definition read_pack_asset_bytes ::
  "('w, 'ev, 'msg) ingress_env \<Rightarrow> path \<Rightarrow> string \<Rightarrow> (string, bytes option) result" where
  "read_pack_asset_bytes env pack_path asset_path =
     (case (if ig_is_dir env pack_path then ig_read_file env (path_join pack_path asset_path)
            else ig_zip_entry env pack_path asset_path) of
        Inr bytes \<Rightarrow> Inr (Some bytes)
      | Inl FileNotFound \<Rightarrow> Inr None
      | Inl (FileFailed e) \<Rightarrow> Inl e)"

text \<open>The request path is normalised as the asset paths of a descriptor are.\<close>

definition normalize_relative_request_path :: "path \<Rightarrow> path option" where
  "normalize_relative_request_path p =
     (case normal_segments (path_components p) of
        None \<Rightarrow> None
      | Some segs \<Rightarrow> if segs = [] then None else Some (join ''/'' segs))"

definition asset_response :: "static_route_descriptor \<Rightarrow> path \<Rightarrow> bytes \<Rightarrow> http_response" where
  "asset_response d full_path body =
     \<lparr>hr_status = 200,
      hr_headers = [(''content-type'', content_type_for_path full_path), (''content-length'', show_nat (length body))]
        @ (case cache_control_value (sr_cache_strategy d) of None \<Rightarrow> [] | Some c \<Rightarrow> [(''cache-control'', c)]),
      hr_body = RawBody body\<rparr>"

definition serve_static_asset ::
  "('w, 'ev, 'msg) ingress_env \<Rightarrow> static_route_descriptor \<Rightarrow> path \<Rightarrow> (string, http_response option) result" where
  "serve_static_asset env d asset_path =
     (case normalize_relative_request_path asset_path of
        None \<Rightarrow> Inr None
      | Some rel \<Rightarrow>
          (let full_path = sr_source_root d @ ''/'' @ rel in
           rbind (read_pack_asset_bytes env (sr_pack_path d) full_path) (\<lambda>b.
             Inr (map_option (asset_response d full_path) b))))"

fun serve_candidates ::
  "('w, 'ev, 'msg) ingress_env \<Rightarrow> static_route_descriptor \<Rightarrow> path option list \<Rightarrow> http_response" where
  "serve_candidates env d [] = error_response 404 ''file not found''"
| "serve_candidates env d (None # cs) = serve_candidates env d cs"
| "serve_candidates env d (Some p # cs) =
     (case serve_static_asset env d p of
        Inl e \<Rightarrow> error_response 500 e
      | Inr (Some r) \<Rightarrow> r
      | Inr None \<Rightarrow> serve_candidates env d cs)"

definition serve_static_route :: "('w, 'ev, 'msg) ingress_env \<Rightarrow> static_route_match \<Rightarrow> http_response" where
  "serve_static_route env m =
     serve_candidates env (rmatch_descriptor m) [resolve_asset_path m, fallback_asset_path m]"
section \<open>The request handler\<close>

definition show_method :: "http_method \<Rightarrow> string" where
  "show_method m = (case m of GET \<Rightarrow> ''GET'' | POST \<Rightarrow> ''POST'' | OPTIONS \<Rightarrow> ''OPTIONS'' | OtherMethod s \<Rightarrow> s)"

text \<open>A body that cannot be read is dispatched as an empty one.\<close>

definition ingress_request_of :: "http_request \<Rightarrow> parsed_ingress_route \<Rightarrow> ingress_request" where
  "ingress_request_of req p =
     \<lparr>iq_domain = domain_name (pr_domain p), iq_provider = pr_provider p, iq_handler = pr_handler p,
      iq_tenant = pr_tenant p, iq_team = Some (pr_team p), iq_method = show_method (hq_method req),
      iq_path = hq_path req, iq_query = collect_queries (hq_query req), iq_headers = collect_headers (hq_headers req),
      iq_body = opt_unwrap_or (ok_opt (hq_body req)) [],
      iq_correlation_id = Option.bind (header_get (hq_headers req) ''x-correlation-id'') (\<lambda>v. v)\<rparr>"

definition ingress_context :: "http_request \<Rightarrow> parsed_ingress_route \<Rightarrow> operator_context" where
  "ingress_context req p =
     \<lparr>oc_tenant = pr_tenant p, oc_team = Some (pr_team p),
      oc_correlation_id = Option.bind (header_get (hq_headers req) ''x-correlation-id'') (\<lambda>v. v)\<rparr>"

definition from_bot :: "('w, 'ev, 'msg) ingress_env \<Rightarrow> 'msg \<Rightarrow> bool" where
  "from_bot env m =
     (case ig_sender env m of None \<Rightarrow> False | Some s \<Rightarrow> ends_with ''.bot'' s \<or> ends_with ''@webex.bot'' s)"

text \<open>What happens to a decoded answer: events run the default flow, messages become a job.\<close>

definition finish_ingress ::
  "('w, 'ev, 'msg) ingress_env \<Rightarrow> parsed_ingress_route \<Rightarrow> operator_context \<Rightarrow> ('ev, 'msg) ingress_dispatch_result
     \<Rightarrow> ('w, 'msg) ingress_state \<Rightarrow> (http_response, http_response) result \<times> ('w, 'msg) ingress_state" where
  "finish_ingress env p ctx res st =
     (let answer = map_err (error_response 500) (build_http_response env (id_response res)) in
      case (if pr_domain p = Events then route_events_to_default_flow env ctx (id_events res) (hs_world (is_hooks st))
            else (Inr 0, hs_world (is_hooks st))) of
        (Inl e, w) \<Rightarrow> (Inl (error_response 502 (ig_show_error env e)), set_world w st)
      | (Inr _, w) \<Rightarrow>
          (let st1 = set_world w st;
               envelopes = filter (\<lambda>m. \<not> from_bot env m) (id_envelopes res)
           in if pr_domain p \<noteq> Messaging \<or> envelopes = [] then (answer, st1)
              else (answer, st1\<lparr>is_jobs := is_jobs st1
                     @ [\<lparr>pj_provider = pr_provider p, pj_context = ctx, pj_envelopes = envelopes\<rparr>]\<rparr>)))"

definition handle_ingress ::
  "('w, 'ev, 'msg) ingress_env \<Rightarrow> http_request \<Rightarrow> ('w, 'msg) ingress_state
     \<Rightarrow> (http_response, http_response) result \<times> ('w, 'msg) ingress_state" where
  "handle_ingress env req st =
     (case parse_ingress_path (hq_path req) of
        None \<Rightarrow> (Inl (error_response 400 ''expected /v1/{domain}/ingress/{provider}/{tenant}/{team?}/{handler?}''), st)
      | Some p \<Rightarrow>
          if pr_domain p \<notin> set (ig_domains env) then (Inl (error_response 404 ''domain disabled''), st)
          else if \<not> ig_supports env (pr_domain p) (pr_provider p) ''ingest_http''
          then (Inl (error_response 404 ''no ingest_http handler available''), st)
          else
            (case dispatch_http_ingress env (pr_domain p) (ingress_request_of req p) (ingress_context req p) (is_hooks st) of
               (Inl e, h) \<Rightarrow> (Inl (error_response 502 (ig_show_error env e)), st\<lparr>is_hooks := h\<rparr>)
             | (Inr res, h) \<Rightarrow> finish_ingress env p (ingress_context req p) res (st\<lparr>is_hooks := h\<rparr>)))"

definition lift_world ::
  "(http_response, http_response) result \<times> 'w \<Rightarrow> ('w, 'msg) ingress_state
     \<Rightarrow> (http_response, http_response) result \<times> ('w, 'msg) ingress_state" where
  "lift_world rw st = (fst rw, set_world (snd rw) st)"

definition handle_request_inner ::
  "('w, 'ev, 'msg) ingress_env \<Rightarrow> ('w, 'p, 'u, 'l, 'x) deploy_env \<Rightarrow> deployments_state \<Rightarrow> http_request \<Rightarrow> socket_addr
     \<Rightarrow> ('w, 'msg) ingress_state \<Rightarrow> (http_response, http_response) result \<times> ('w, 'msg) ingress_state" where
  "handle_request_inner env denv dst req peer st =
     (if hq_method req = OPTIONS then (Inr cors_preflight_response, st)
      else if hq_method req \<noteq> POST \<and> hq_method req \<noteq> GET
      then (Inl (error_response 405 ''only GET/POST/OPTIONS allowed''), st)
      else if starts_with ''/api/onboard'' (hq_path req)
      then lift_world (ig_onboard env req (hs_world (is_hooks st))) st
      else if starts_with ''/deployments'' (hq_path req)
      then lift_world (handle_deployments_request denv (hq_method req) (hq_path req) (hq_headers req) (hq_body req) peer dst
                         (hs_world (is_hooks st))) st
      else
        (case match_request (ig_routes env) (hq_path req) of
           Some m \<Rightarrow> (Inr (serve_static_route env m), st)
         | None \<Rightarrow> handle_ingress env req st))"

definition handle_request ::
  "('w, 'ev, 'msg) ingress_env \<Rightarrow> ('w, 'p, 'u, 'l, 'x) deploy_env \<Rightarrow> deployments_state \<Rightarrow> http_request \<Rightarrow> socket_addr
     \<Rightarrow> ('w, 'msg) ingress_state \<Rightarrow> http_response \<times> ('w, 'msg) ingress_state" where
  "handle_request env denv dst req peer st =
     (case handle_request_inner env denv dst req peer st of
        (Inl r, st') \<Rightarrow> (with_cors r, st')
      | (Inr r, st') \<Rightarrow> (with_cors r, st'))"
section \<open>Lemmas\<close>

text \<open>An ingress path in the form of the error message, with or without the version.\<close>

definition ingress_path :: "bool \<Rightarrow> domain \<Rightarrow> string list \<Rightarrow> string" where
  "ingress_path versioned dm ps =
     ''/'' @ join ''/'' ((if versioned then [''v1''] else []) @ [domain_name dm, ''ingress''] @ ps)"

lemma domain_name_plain: "plain_segment (domain_name dm)"
  by (cases dm) (simp_all add: domain_name_def plain_segment_def)

lemma domain_names_lower:
  "to_ascii_lowercase ''messaging'' = ''messaging''" "to_ascii_lowercase ''events'' = ''events''"
  "to_ascii_lowercase ''secrets'' = ''secrets''" "to_ascii_lowercase ''oauth'' = ''oauth''"
  "to_ascii_lowercase ''v1'' = ''v1''"
  by code_simp+

lemma domain_name_not_v1: "\<not> eq_ignore_ascii_case (domain_name dm) ''v1''"
  by (cases dm) (simp_all add: eq_ignore_ascii_case_def domain_name_def domain_names_lower)

lemma parse_domain_name: "parse_domain (domain_name dm) = Some dm"
  by (cases dm) (simp_all add: parse_domain_def domain_name_def domain_names_lower)

lemma literal_segments:
  "eq_ignore_ascii_case ''v1'' ''v1''" "eq_ignore_ascii_case ''ingress'' ''ingress''"
  by code_simp+

lemma request_segments_join:
  assumes "segs \<noteq> []" "\<And>s. s \<in> set segs \<Longrightarrow> plain_segment s"
  shows "request_segments (''/'' @ join ''/'' segs) = segs"
proof -
  obtain s ss where s: "segs = s # ss" using assms(1) by (cases segs) auto
  then have "plain_segment s" using assms(2) by simp
  then have "s \<noteq> []" "hd s \<noteq> CHR ''/''" by (cases s; auto simp: plain_segment_def)+
  with s have "join ''/'' segs \<noteq> [] \<and> hd (join ''/'' segs) \<noteq> CHR ''/''" by (cases ss) auto
  then have "trim_start_matches (CHR ''/'') (''/'' @ join ''/'' segs) = join ''/'' segs"
    by (cases "join ''/'' segs") (auto simp: trim_start_matches_def)
  moreover have "split_on (CHR ''/'') (join ''/'' segs) = segs"
    using assms by (intro split_on_join) (auto simp: plain_segment_def)
  moreover have "filter (\<lambda>s. s \<noteq> []) segs = segs"
    using assms(2) by (intro filter_True) (auto simp: plain_segment_def)
  ultimately show ?thesis by (simp add: request_segments_def)
qed

lemma route_of_segments_shift:
  "route_of_segments dm (s # segs) (Suc i) = route_of_segments dm segs i"
proof -
  have "nth_opt (s # segs) (Suc i + 2) = nth_opt segs (i + 2)" "nth_opt (s # segs) (Suc i + 3) = nth_opt segs (i + 3)"
    by (simp_all only: add_Suc nth_opt_simps)
  then show ?thesis by (simp add: route_of_segments_def)
qed

lemma parse_ingress_path_join:
  assumes "2 \<le> length ps" "\<And>s. s \<in> set ps \<Longrightarrow> plain_segment s"
  shows "parse_ingress_path (ingress_path versioned dm ps) = Some (route_of_segments dm ps 0)"
proof -
  let ?segs = "(if versioned then [''v1''] else []) @ [domain_name dm, ''ingress''] @ ps"
  have "plain_segment s" if "s \<in> set ?segs" for s
    using that assms(2) domain_name_plain by (auto simp: plain_segment_def split: if_splits)
  then have r: "request_segments (ingress_path versioned dm ps) = ?segs"
    unfolding ingress_path_def by (intro request_segments_join) auto
  show ?thesis
  proof (cases versioned)
    case True
    then have "request_segments (ingress_path versioned dm ps) = ''v1'' # domain_name dm # ''ingress'' # ps" using r by simp
    then show ?thesis using assms(1)
      by (simp add: parse_ingress_path_def Let_def parse_v1_route_def parse_domain_name literal_segments
          numeral_3_eq_3 numeral_2_eq_2 route_of_segments_shift)
  next
    case False
    then have "request_segments (ingress_path versioned dm ps) = domain_name dm # ''ingress'' # ps" using r by simp
    then show ?thesis using assms(1)
      by (simp add: parse_ingress_path_def Let_def parse_legacy_route_def parse_domain_name literal_segments
          domain_name_not_v1 numeral_2_eq_2 route_of_segments_shift)
  qed
qed

lemma set_world_jobs [simp]: "is_jobs (set_world w st) = is_jobs st"
  by (simp add: set_world_def)

lemma set_world_same [simp]: "set_world (hs_world (is_hooks st)) st = st"
  by (cases st) (simp add: set_world_def)

lemma with_cors_status [simp]: "hr_status (with_cors r) = hr_status r"
  by (simp add: with_cors_def cors_headers_def header_set_def)

lemma with_cors_body [simp]: "hr_body (with_cors r) = hr_body r"
  by (simp add: with_cors_def cors_headers_def header_set_def)

lemma normalize_request_asset: "normalize_relative_request_path = normalize_relative_asset_path"
  by (rule ext) (simp add: normalize_relative_request_path_def normalize_relative_asset_path_def)

lemma serve_static_asset_Some:
  assumes "serve_static_asset env d p = Inr (Some r)" and "safe_relative (sr_source_root d)"
  shows "\<exists>rel body. normalize_relative_asset_path p = Some rel \<and> safe_relative (sr_source_root d @ ''/'' @ rel)
     \<and> read_pack_asset_bytes env (sr_pack_path d) (sr_source_root d @ ''/'' @ rel) = Inr (Some body)
     \<and> r = asset_response d (sr_source_root d @ ''/'' @ rel) body"
proof -
  obtain rel where rel: "normalize_relative_asset_path p = Some rel"
    using assms(1) by (auto simp: serve_static_asset_def normalize_request_asset split: option.splits)
  then obtain b where "read_pack_asset_bytes env (sr_pack_path d) (sr_source_root d @ ''/'' @ rel) = Inr b"
    "map_option (asset_response d (sr_source_root d @ ''/'' @ rel)) b = Some r"
    using assms(1) by (auto simp: serve_static_asset_def normalize_request_asset Let_def result_iff)
  then show ?thesis
    using rel safe_relative_append [OF assms(2) normalize_relative_safe [OF rel]] by auto
qed

lemma serve_candidates_cases:
  "(\<exists>p r. Some p \<in> set cs \<and> serve_static_asset env d p = Inr (Some r) \<and> serve_candidates env d cs = r)
   \<or> hr_status (serve_candidates env d cs) \<in> {404, 500}"
  by (induction env d cs rule: serve_candidates.induct) (auto split: sum.splits option.splits)

lemma lift_world_jobs: "lift_world rw st = (r, st') \<Longrightarrow> is_jobs st' = is_jobs st"
  by (auto simp: lift_world_def)

lemma finish_ingress_jobs:
  assumes "finish_ingress env p ctx res st = (r, st')" and "is_jobs st' \<noteq> is_jobs st"
  shows "pr_domain p = Messaging \<and> (\<exists>job. is_jobs st' = is_jobs st @ [job] \<and> pj_provider job = pr_provider p
     \<and> pj_context job = ctx \<and> pj_envelopes job \<noteq> [] \<and> (\<forall>m \<in> set (pj_envelopes job). \<not> from_bot env m))"
  using assms by (auto simp: finish_ingress_def Let_def filter_empty_conv split: prod.splits sum.splits if_splits)

lemma handle_ingress_jobs:
  assumes "handle_ingress env req st = (r, st')" and "is_jobs st' \<noteq> is_jobs st"
  shows "\<exists>p job. parse_ingress_path (hq_path req) = Some p \<and> pr_domain p = Messaging \<and> Messaging \<in> set (ig_domains env)
     \<and> ig_supports env Messaging (pr_provider p) ''ingest_http''
     \<and> is_jobs st' = is_jobs st @ [job] \<and> pj_provider job = pr_provider p \<and> pj_context job = ingress_context req p
     \<and> pj_envelopes job \<noteq> [] \<and> (\<forall>m \<in> set (pj_envelopes job). \<not> from_bot env m)"
proof -
  obtain p where p: "parse_ingress_path (hq_path req) = Some p" "pr_domain p \<in> set (ig_domains env)"
    "ig_supports env (pr_domain p) (pr_provider p) ''ingest_http''"
    using assms by (auto simp: handle_ingress_def split: option.splits if_splits)
  then obtain res h where "finish_ingress env p (ingress_context req p) res (st\<lparr>is_hooks := h\<rparr>) = (r, st')"
    using assms by (auto simp: handle_ingress_def split: prod.splits sum.splits)
  from finish_ingress_jobs [OF this] assms(2) p show ?thesis by auto
qed
section \<open>Properties\<close>

text \<open>A server without hooks whose provider \<open>telegram\<close> answers one event that is a message from
  the user named in the request body position; event and message values are strings.\<close>

definition quiet_egress_env :: "('w, string) egress_env" where
  "quiet_egress_env =
     \<lparr>ge_exists = (\<lambda>p. p = ''b/packs/../../default.gtpack''), ge_manifest = (\<lambda>_. Inl []), ge_run_flow = (\<lambda>_ w. (Inr None, w)),
      ge_parse_json = (\<lambda>_. None), ge_json_string = (\<lambda>_. []), ge_b64_text = (\<lambda>s. s), ge_of_value = (\<lambda>_. Inr []),
      ge_to_value = JStr, ge_metadata = (\<lambda>_ _. None), ge_set_text = (\<lambda>t m. t), ge_set_metadata = (\<lambda>_ _ m. m),
      ge_summary = JStr, ge_payload_of = (\<lambda>_. Inl []),
      ge_invoke = (\<lambda>_ _ _ _ w. (Inl ''no provider'', w)), ge_canonical_type = (\<lambda>p. p), ge_host = (\<lambda>_. Inr ()),
      ge_uuid = (\<lambda>w. (''id'', w)), ge_jitter = (\<lambda>_ w. (0, w)), ge_sleep = (\<lambda>_ w. w), ge_now = (\<lambda>_. 0),
      ge_timestamp = (\<lambda>_. []), ge_append_ok = (\<lambda>_. True)\<rparr>"

definition sample_ingress_env ::
  "string list \<Rightarrow> static_route_descriptor list \<Rightarrow> (path list, string, string) ingress_env" where
  "sample_ingress_env senders routes =
     \<lparr>ig_hooks = sample_env JNull (\<lambda>_. False), ig_egress = quiet_egress_env, ig_bundle = ''b'',
      ig_domains = [Messaging], ig_routes = routes, ig_supports = (\<lambda>_ p _. p = ''telegram''),
      ig_invoke = (\<lambda>_ _ _ _ _ w.
        (Inr \<lparr>oo_success = True, oo_output = Some (JObj [(''events'', JArr (map JStr senders))]), oo_error = None, oo_raw = None\<rparr>,
         w @ [''ingest'']) ),
      ig_of_event = (\<lambda>_. Inl []), ig_to_event = JStr, ig_event_type = (\<lambda>e. e), ig_event_correlation = (\<lambda>_. None),
      ig_of_message = (\<lambda>v. ok_or [] (as_str v)), ig_sender = Some, ig_header_name = Some, ig_header_value_ok = (\<lambda>_. True),
      ig_status_error = (\<lambda>_. None), ig_is_dir = (\<lambda>_. True),
      ig_read_file = (\<lambda>p. if p = ''packs/web.gtpack/assets/app.js'' then Inr [42] else Inl FileNotFound),
      ig_zip_entry = (\<lambda>_ _. Inl FileNotFound), ig_show_error = (\<lambda>_. []), ig_onboard = (\<lambda>_ w. (Inl (error_response 404 []), w))\<rparr>"

definition sample_request :: "http_method \<Rightarrow> string \<Rightarrow> http_request" where
  "sample_request m p = \<lparr>hq_method = m, hq_path = p, hq_query = None, hq_headers = [], hq_body = Inr []\<rparr>"

definition sample_ingress_state :: "(path list, string) ingress_state" where
  "sample_ingress_state = \<lparr>is_hooks = sample_state, is_jobs = []\<rparr>"

definition sample_answer :: "string list \<Rightarrow> string \<Rightarrow> http_response \<times> (path list, string) ingress_state" where
  "sample_answer senders p =
     handle_request (sample_ingress_env senders [])
       \<lparr>de_env_root_var = None, de_default_root = None, de_parse = (\<lambda>_ _. Inl []), de_payload_environment = id,
        de_payload_revision = id, de_env_id = Inr, de_ulid = Inr, de_draining = True, de_show_lifecycle = (\<lambda>_. []),
        de_load = (\<lambda>_ _ w. (Inl [], w)), de_run = (\<lambda>_ _ _ w. (Inl [], w)), de_others = id, de_kind = (\<lambda>_. []),
        de_message = (\<lambda>e :: unit op_error. []), de_show_peer = (\<lambda>_. [])\<rparr>
       new_state (sample_request POST p) local_peer sample_ingress_state"

text \<open>
  C14: an ingress path parses to exactly its parts, with and without the version prefix: the
  domain, the provider, the tenant, the team (\<open>default\<close> when absent) and the handler.
\<close>

theorem ingress_path_roundtrip:
  assumes "2 \<le> length ps" "\<And>s. s \<in> set ps \<Longrightarrow> plain_segment s"
  shows "parse_ingress_path (ingress_path versioned dm ps) =
     Some \<lparr>pr_domain = dm, pr_provider = ps ! 0, pr_tenant = ps ! 1,
           pr_team = (if length ps = 2 then ''default'' else ps ! 2),
           pr_handler = (if 4 \<le> length ps then Some (ps ! 3) else None)\<rparr>"
  using parse_ingress_path_join [OF assms] assms(1)
  by (auto simp: route_of_segments_def nth_opt_def numeral_3_eq_3 numeral_2_eq_2)

theorem ingress_path_roundtrip_witness:
  "parse_ingress_path (ingress_path True Messaging [''telegram'', ''acme'', ''support'']) =
     Some \<lparr>pr_domain = Messaging, pr_provider = ''telegram'', pr_tenant = ''acme'', pr_team = ''support'', pr_handler = None\<rparr>"
proof -
  have "plain_segment s" if "s \<in> set [''telegram'', ''acme'', ''support'']" for s
    using that by (auto simp: plain_segment_def)
  then show ?thesis
    using ingress_path_roundtrip [of "[''telegram'', ''acme'', ''support'']" True Messaging] by simp
qed

text \<open>
  C13: static assets never leave their pack. Whatever the request path, an answer \<open>200\<close> of a
  well-formed route is the content of a file below the source root of the route inside its
  pack, reached by a path without parent or empty segments; every other answer is \<open>404\<close> or
  \<open>500\<close>.
\<close>

theorem static_assets_confined:
  assumes "route_ok (rmatch_descriptor m)" and "serve_static_route env m = r"
  shows "(\<exists>rel body. safe_relative (sr_source_root (rmatch_descriptor m) @ ''/'' @ rel)
       \<and> (normalize_relative_asset_path (rmatch_asset_path m) = Some rel
          \<or> Option.bind (sr_index_file (rmatch_descriptor m)) normalize_relative_asset_path = Some rel
          \<or> Option.bind (sr_spa_fallback (rmatch_descriptor m)) normalize_relative_asset_path = Some rel)
       \<and> read_pack_asset_bytes env (sr_pack_path (rmatch_descriptor m)) (sr_source_root (rmatch_descriptor m) @ ''/'' @ rel)
            = Inr (Some body)
       \<and> r = asset_response (rmatch_descriptor m) (sr_source_root (rmatch_descriptor m) @ ''/'' @ rel) body)
     \<or> hr_status r \<in> {404, 500}"
proof -
  let ?d = "rmatch_descriptor m" and ?cs = "[resolve_asset_path m, fallback_asset_path m]"
  have root: "safe_relative (sr_source_root ?d)" using assms(1) by (simp add: route_ok_def)
  consider p where "Some p \<in> set ?cs" "serve_static_asset env ?d p = Inr (Some r)" | "hr_status r \<in> {404, 500}"
    using serve_candidates_cases [of ?cs env ?d] assms(2) by (auto simp: serve_static_route_def)
  then show ?thesis
  proof cases
    case 1
    from serve_static_asset_Some [OF 1(2) root] obtain rel body where
      "normalize_relative_asset_path p = Some rel" "safe_relative (sr_source_root ?d @ ''/'' @ rel)"
      "read_pack_asset_bytes env (sr_pack_path ?d) (sr_source_root ?d @ ''/'' @ rel) = Inr (Some body)"
      "r = asset_response ?d (sr_source_root ?d @ ''/'' @ rel) body" by blast
    moreover have "p = rmatch_asset_path m \<or> sr_index_file ?d = Some p \<or> sr_spa_fallback ?d = Some p"
      using 1(1) by (auto simp: resolve_asset_path_def fallback_asset_path_def split: if_splits)
    ultimately show ?thesis by auto
  qed simp
qed

theorem static_assets_confined_witness:
  "hr_status (serve_static_route (sample_ingress_env [] [])
       \<lparr>rmatch_descriptor = sample_route ''/web'' [Literal ''web''] None, rmatch_asset_path = ''app.js'', rmatch_is_directory = False\<rparr>) = 200
   \<and> hr_status (serve_static_route (sample_ingress_env [] [])
       \<lparr>rmatch_descriptor = sample_route ''/web'' [Literal ''web''] None, rmatch_asset_path = ''../secret'', rmatch_is_directory = False\<rparr>)
       \<in> {404, 500}"
proof -
  let ?m = "\<lambda>p. \<lparr>rmatch_descriptor = sample_route ''/web'' [Literal ''web''] None, rmatch_asset_path = p, rmatch_is_directory = False\<rparr>"
  have parsed: "parse_route_segments ''/web'' = Inr [Literal ''web'']" by code_simp
  have ok: "route_ok (rmatch_descriptor (?m ''../secret''))"
    by (simp add: route_ok_def sample_route_def team_after_tenant_def opt_safe_def safe_relative_def safe_segment_def plain_segment_def parsed)
  have n: "normalize_relative_asset_path ''../secret'' = None" by code_simp
  have "hr_status (serve_static_route (sample_ingress_env [] []) (?m ''../secret'')) \<in> {404, 500}"
    using static_assets_confined [OF ok refl, of "sample_ingress_env [] []"] n by (simp add: sample_route_def)
  moreover have "hr_status (serve_static_route (sample_ingress_env [] []) (?m ''app.js'')) = 200" by code_simp
  ultimately show ?thesis by simp
qed

text \<open>
  C6: a request starts at most one messaging job. A job is started only for a path of the
  messaging domain, when that domain is enabled and the provider has an ingress handler; it
  carries the provider, tenant and team of the path, and at least one message, none of which
  was sent by a bot.
\<close>

theorem ingress_jobs_scoped:
  assumes "handle_request env denv dst req peer st = (r, st')"
  shows "is_jobs st' = is_jobs st
     \<or> (\<exists>p job. parse_ingress_path (hq_path req) = Some p \<and> pr_domain p = Messaging \<and> Messaging \<in> set (ig_domains env)
          \<and> ig_supports env Messaging (pr_provider p) ''ingest_http''
          \<and> is_jobs st' = is_jobs st @ [job] \<and> pj_provider job = pr_provider p
          \<and> oc_tenant (pj_context job) = pr_tenant p \<and> oc_team (pj_context job) = Some (pr_team p)
          \<and> pj_envelopes job \<noteq> [] \<and> filter (from_bot env) (pj_envelopes job) = [])"
proof (rule disjCI)
  assume "\<not> (\<exists>p job. parse_ingress_path (hq_path req) = Some p \<and> pr_domain p = Messaging \<and> Messaging \<in> set (ig_domains env)
          \<and> ig_supports env Messaging (pr_provider p) ''ingest_http''
          \<and> is_jobs st' = is_jobs st @ [job] \<and> pj_provider job = pr_provider p
          \<and> oc_tenant (pj_context job) = pr_tenant p \<and> oc_team (pj_context job) = Some (pr_team p)
          \<and> pj_envelopes job \<noteq> [] \<and> filter (from_bot env) (pj_envelopes job) = [])"
  then have none: "is_jobs st2 = is_jobs st" if "handle_ingress env req st = (r2, st2)" "is_jobs st2 = is_jobs st'" for r2 st2
    using handle_ingress_jobs [OF that(1)] that(2)
    by (cases "is_jobs st2 = is_jobs st") (auto simp: ingress_context_def filter_empty_conv)
  obtain rr where "handle_request_inner env denv dst req peer st = (rr, st')"
    using assms by (auto simp: handle_request_def split: prod.splits sum.splits)
  then show "is_jobs st' = is_jobs st"
    using none by (auto simp: handle_request_inner_def lift_world_jobs split: option.splits if_splits)
qed

theorem ingress_jobs_scoped_witness:
  "map (\<lambda>j. (pj_provider j, oc_tenant (pj_context j), pj_envelopes j))
     (is_jobs (snd (sample_answer [''ana'', ''echo.bot''] ''/v1/messaging/ingress/telegram/acme'')))
     = [(''telegram'', ''acme'', [''ana''])]
   \<and> length (is_jobs (snd (sample_answer [''ana'', ''echo.bot''] ''/v1/messaging/ingress/telegram/acme''))) \<le> 1"
proof -
  have c: "map (\<lambda>j. (pj_provider j, oc_tenant (pj_context j), pj_envelopes j))
     (is_jobs (snd (sample_answer [''ana'', ''echo.bot''] ''/v1/messaging/ingress/telegram/acme'')))
     = [(''telegram'', ''acme'', [''ana''])]"
    by code_simp
  have "is_jobs sample_ingress_state = []" by (simp add: sample_ingress_state_def)
  then have "length (is_jobs (snd (sample_answer [''ana'', ''echo.bot''] ''/v1/messaging/ingress/telegram/acme''))) \<le> 1"
    using ingress_jobs_scoped [OF surjective_pairing [of "sample_answer [''ana'', ''echo.bot''] ''/v1/messaging/ingress/telegram/acme''",
        unfolded sample_answer_def]]
    unfolding sample_answer_def by auto
  with c show ?thesis by simp
qed

text \<open>
  A request path chooses the application pack without any check of its segments. Here, with
  \<open>..\<close> as tenant and team the messages of the request are routed to
  \<open>b/packs/../../default.gtpack\<close>, a file outside the bundle \<open>b\<close>.
\<close>

lemma ingress_tenant_leaves_bundle:
  "map (\<lambda>j. resolve_app_pack_path quiet_egress_env ''b'' (oc_tenant (pj_context j)) (oc_team (pj_context j)) None)
     (is_jobs (snd (sample_answer [''ana''] ''/v1/messaging/ingress/telegram/../..'')))
     = [Inr ''b/packs/../../default.gtpack'']"
  by code_simp

text \<open>
  The prefix tests of the handler have no segment boundary. Here a static route
  \<open>/deployments-ui\<close> is accepted by the validation against the reserved paths and is found by
  the matcher, but a request for it is answered by the deployment API with \<open>404\<close>.
\<close>

lemma prefix_shadows_static_route:
  "plan_failures (validate_plan operator_defaults (sample_plan [sample_route ''/deployments-ui'' [Literal ''deployments-ui''] None])) = []
   \<and> match_request (from_plan (sample_plan [sample_route ''/deployments-ui'' [Literal ''deployments-ui''] None])) ''/deployments-ui'' \<noteq> None
   \<and> hr_status (fst (handle_request env denv new_state (sample_request GET ''/deployments-ui'') local_peer st)) = 404
   \<and> snd (handle_request env denv new_state (sample_request GET ''/deployments-ui'') local_peer st) = st"
proof -
  have s: "sub_path ''/deployments-ui'' = ''-ui''" by code_simp
  have t: "check_trust_boundary denv local_peer [] new_state = Inr ()"
    using check_trust_boundary_iff [of denv local_peer "[]" new_state "()"] sample_trusted by simp
  have d: "\<exists>resp. handle_deployments_request denv GET ''/deployments-ui'' [] (Inr []) local_peer new_state w = (Inl resp, w)
      \<and> hr_status resp = 404" for w
    by (simp add: handle_deployments_request_def t dispatch_def s simple_verbs_def)
  have p: "starts_with ''/deployments'' ''/deployments-ui''" "\<not> starts_with ''/api/onboard'' ''/deployments-ui''" by code_simp+
  obtain resp where "handle_deployments_request denv GET ''/deployments-ui'' [] (Inr []) local_peer new_state (hs_world (is_hooks st))
      = (Inl resp, hs_world (is_hooks st))" "hr_status resp = 404" using d by blast
  then have "hr_status (fst (handle_request env denv new_state (sample_request GET ''/deployments-ui'') local_peer st)) = 404
      \<and> snd (handle_request env denv new_state (sample_request GET ''/deployments-ui'') local_peer st) = st"
    by (simp add: handle_request_def handle_request_inner_def sample_request_def p lift_world_def)
  moreover have "plan_failures (validate_plan operator_defaults (sample_plan [sample_route ''/deployments-ui'' [Literal ''deployments-ui''] None])) = []"
    "match_request (from_plan (sample_plan [sample_route ''/deployments-ui'' [Literal ''deployments-ui''] None])) ''/deployments-ui'' \<noteq> None"
    by code_simp+
  ultimately show ?thesis by simp
qed

end
