(* ===== verification/Spec2Isabelle.thy ===== *)
theory Spec2Isabelle
  imports OrdMap Json Ranking Gmap Domains StaticRoutes Offers Hooks RecordStore Capabilities CapEvents
    Egress Subscriptions Http Deployments Ingress
begin

text \<open>
  A verification library for \<open>greentic-operator\<close>, the operator that loads provider packs,
  receives HTTP ingress for tenants, runs hooks and capabilities, and keeps their records.
  This root theory imports the component theories; every theory names the source file it
  models, and every definition keeps the name of its function where HOL allows it.

  The parts and how they interact. A bundle is a directory of packs (archives with a CBOR
  manifest). \<open>Domains\<close> discovers the packs and decodes their manifests. Three components read
  extensions of those manifests: \<open>StaticRoutes\<close> the paths a pack serves, \<open>Offers\<close> the hooks and
  subscriptions it offers, \<open>Capabilities\<close> its capabilities, topics and subscriptions. A request
  is matched against the active static routes first; otherwise a provider handles it, and
  \<open>Hooks\<close> runs the hooks selected by the offer registry, the first decisive one of which
  rewrites the response. Events are published to subscriptions by \<open>CapEvents\<close>, which uses the
  records resolved by \<open>Capabilities\<close>. \<open>Gmap\<close> decides who may use a pack, a flow or a node.

  Theories.

  \<^item> \<open>Prelude\<close>: results, options, the string and path functions of the Rust standard library.
    A string is a list of code points below 256; text outside that range is not represented.
  \<^item> \<open>OrdMap\<close>: \<open>BTreeMap\<close>, with the interface locales \<open>key_map\<close> and \<open>ordered_key_map\<close> and their
    interpretation on sorted association lists.
  \<^item> \<open>Json\<close>: \<open>serde_json\<close> and CBOR values with their accessors and JSON pointers.
  \<^item> \<open>Ranking\<close>: the locale \<open>ranked_pool\<close>, the contract of ranked selections; interpreted on the
    offer registry.
  \<^item> \<open>RecordStore\<close>: the locale \<open>record_store\<close>, one file per key; interpreted on install
    records and on subscription states, where a file is what a path resolves to, so that two
    spellings of a path are one file and names like \<open>..\<close> are not valid in a key.
  \<^item> \<open>Gmap\<close> (\<open>src/gmap\<close>): a rule file is a list of rules, a target a path of pack, flow and node.
    The evaluator is refined by a specification over the policy map and the candidate paths.
    Rendering and parsing are a round trip exactly on the printable paths (\<open>printable\<close>); editing
    changes the map at one path, unless that path has two or more rules. What the exceptions do
    is shown by the lemmas \<open>edit_loses_unprintable\<close> and \<open>upsert_commented_breaks_file\<close>.
  \<^item> \<open>Domains\<close> (\<open>src/domains/mod.rs\<close>): locations in a manifest are lists of steps, with the kind
    the format expects there; a manifest that fails to decode is reported with the first
    location that has a value of the wrong kind, or lacks an identifier; discovery returns each pack file once; plans hold exactly the available flows.
  \<^item> \<open>StaticRoutes\<close> (\<open>src/static_routes.rs\<close>): the table is a list of descriptors; the matchers are
    shown to be a search for the first admitting route of a sorted list.
  \<^item> \<open>Offers\<close> (\<open>src/offers/registry.rs\<close>): the state is the pair of maps of \<open>OfferRegistry\<close>; its
    invariant says that keys name their offers and packs their archives.
  \<^item> \<open>Hooks\<close> (\<open>src/ingress/control_directive.rs\<close>, \<open>src/hooks/runner.rs\<close>): the state is the body
    under construction, the world that components change, the cache of registries and the
    audit lines; \<open>chain_effect\<close> bounds what a chain may do to it.
  \<^item> \<open>Capabilities\<close> (\<open>src/capabilities.rs\<close>) and \<open>CapEvents\<close> (\<open>src/capability_runtime.rs\<close>,
    \<open>src/capability_events.rs\<close>): the state is the three logs per tenant and team and the world;
    \<open>accounted\<close> relates the logs before and after the deliveries to the report.
  \<^item> \<open>Egress\<close> (\<open>src/messaging_universal\<close>): the state is the dead letter log and the world; the
    loop that delivers one envelope is shown to end, with a bound on its sends. Sends are counted
    by any observation of the world that rises with each invocation of \<open>send_payload\<close>.
  \<^item> \<open>Subscriptions\<close> (\<open>src/subscriptions_universal\<close>): the state is the map from files to
    subscription records, an instance of \<open>record_store\<close>; renewal replaces one record. Listing
    walks the directories in the order given and stops at the first error.

  \<^item> \<open>Http\<close> (\<open>src/http_util.rs\<close>) and \<open>Deployments\<close> (\<open>src/deployments/api.rs\<close>): the state is the
    environment store of the deployer library, a world that other processes change as well; the
    trust boundary guards every effect on it.
  \<^item> \<open>Ingress\<close> (\<open>src/demo/http_ingress.rs\<close>, \<open>ingress_dispatch.rs\<close>, \<open>event_router.rs\<close>): the state
    is that of the hooks and the list of messaging jobs; the request handler composes the
    deployment API, the static routes, the hooks and the event flows as the server does.

  Parameters. Archives, the file system, CBOR and base64 codecs, \<open>serde\<close> decoding into typed
  records, component and flow execution, UUIDs, clocks and environment variables are
  arguments of the definitions that use them (\<open>hook_env\<close>, \<open>event_env\<close>, and plain functions),
  with no law assumed; each property that mentions them has a concrete instance.

  Termination. Loops over lists are structural. Directory traversal terminates because the
  weight of the work list falls, the retry loop because the attempts left fall; neither needs
  fuel. Integers: HTTP status codes are \<open>16 word\<close>, priorities are cut to 32 bits where the code
  casts, other counters cannot overflow and are natural numbers.

  Behaviour that looks unintended is shown on concrete inputs by lemmas next to the definitions:
  \<open>reserved_space_shadowed\<close>, \<open>runner_error_loses_deliveries\<close>, \<open>ingress_tenant_leaves_bundle\<close>,
  \<open>prefix_shadows_static_route\<close>, \<open>drain_race_archives_ready\<close>, \<open>renew_due_crosses_tenants\<close>.

  Not modelled yet: the ingress of the command line, the messaging pipeline behind the HTTP
  server (cards, form replies), the onboarding API, the runner host, secrets, project
  resolution, timers, the wizard and QA code, and the command line, which is mostly I/O.
  Logging and tracing are left out, except for the audit lines of the hook chain.
\<close>

end
